(* ===== verification/Prelude.thy ===== *)
theory Prelude
  imports Main
begin

section \<open>Prelude: effects with exceptions, and shared list and map lemmas\<close>

text \<open>
  What every component of the development shares.

  A Python coroutine that touches the outside world is modelled as a function from the state
  to a result and the next state, where the result is \<open>Inl e\<close> for a raised exception
  \<open>e\<close> and \<open>Inr x\<close> for a returned value.  The state is kept when an exception is raised:
  what the code did to the database or to Redis before the \<open>raise\<close> stays done.
  \<open>bindE\<close> is sequencing (one \<open>await\<close> after another), \<open>tryE\<close> is
  \<open>try/except\<close>, \<open>tryElse\<close> is \<open>try/except/else\<close> (exceptions of the
  \<open>else\<close> part are not caught) and \<open>finallyE\<close> is a \<open>try/finally\<close> whose
  clean-up cannot fail.

  \<open>wpE m Q E s\<close> is the weakest precondition of \<open>m\<close> in state \<open>s\<close>: the
  returned value and next state satisfy \<open>Q\<close>, or the exception and next state satisfy
  \<open>E\<close>.  Its equations are collected in \<open>wp\<close> and rewrite a goal about a composed
  operation into goals about its calls.
\<close>

named_theorems wp \<open>weakest-precondition equations of the effect combinators\<close>
named_theorems eff_defs \<open>definitions of the effect combinators, for evaluation\<close>
named_theorems py_eval \<open>definitions evaluated on closed terms by the witnesses\<close>

type_synonym ('e, 's, 'a) eff = "'s \<Rightarrow> ('e + 'a) \<times> 's"

subsection \<open>Combinators\<close>

definition ret :: "'a \<Rightarrow> ('e, 's, 'a) eff" where
  "ret x s = (Inr x, s)"

definition raiseE :: "'e \<Rightarrow> ('e, 's, 'a) eff" where
  "raiseE e s = (Inl e, s)"

definition liftE :: "'e + 'a \<Rightarrow> ('e, 's, 'a) eff" where
  "liftE r s = (r, s)"

definition bindE :: "('e, 's, 'a) eff \<Rightarrow> ('a \<Rightarrow> ('e, 's, 'b) eff) \<Rightarrow> ('e, 's, 'b) eff" where
  "bindE m f s = (case m s of (Inl e, s') \<Rightarrow> (Inl e, s') | (Inr x, s') \<Rightarrow> f x s')"

definition tryE :: "('e, 's, 'a) eff \<Rightarrow> ('e \<Rightarrow> ('e, 's, 'a) eff) \<Rightarrow> ('e, 's, 'a) eff" where
  "tryE m h s = (case m s of (Inl e, s') \<Rightarrow> h e s' | (Inr x, s') \<Rightarrow> (Inr x, s'))"

definition tryElse ::
  "('e, 's, 'a) eff \<Rightarrow> ('e \<Rightarrow> ('e, 's, 'b) eff) \<Rightarrow> ('a \<Rightarrow> ('e, 's, 'b) eff) \<Rightarrow> ('e, 's, 'b) eff" where
  "tryElse m h k s = (case m s of (Inl e, s') \<Rightarrow> h e s' | (Inr x, s') \<Rightarrow> k x s')"

definition finallyE :: "('e, 's, 'a) eff \<Rightarrow> ('s \<Rightarrow> 's) \<Rightarrow> ('e, 's, 'a) eff" where
  "finallyE m f s = (case m s of (r, s') \<Rightarrow> (r, f s'))"

definition getE :: "('s \<Rightarrow> 'a) \<Rightarrow> ('e, 's, 'a) eff" where
  "getE f s = (Inr (f s), s)"

definition modifyE :: "('s \<Rightarrow> 's) \<Rightarrow> ('e, 's, unit) eff" where
  "modifyE f s = (Inr (), f s)"

text \<open>A \<open>for\<close> loop over a list; it stops at the first exception.\<close>

primrec forE :: "'a list \<Rightarrow> ('a \<Rightarrow> ('e, 's, unit) eff) \<Rightarrow> ('e, 's, unit) eff" where
  "forE [] f = ret ()"
| "forE (x # xs) f = bindE (f x) (\<lambda>_. forE xs f)"

text \<open>An operation on a component of the state, seen as an operation on the whole state.\<close>

definition zoomE :: "('w \<Rightarrow> 's) \<Rightarrow> ('s \<Rightarrow> 'w \<Rightarrow> 'w) \<Rightarrow> ('e, 's, 'a) eff \<Rightarrow> ('e, 'w, 'a) eff" where
  "zoomE g p m w = (case m (g w) of (r, s') \<Rightarrow> (r, p s' w))"

text \<open>The same for the two halves of a pair: the job store and the rest of the world, or Redis and both of these.\<close>

definition on_fst :: "('e, 'd, 'a) eff \<Rightarrow> ('e, 'd \<times> 'x, 'a) eff" where
  "on_fst m = zoomE fst (\<lambda>d w. (d, snd w)) m"

definition on_snd :: "('e, 'x, 'a) eff \<Rightarrow> ('e, 'd \<times> 'x, 'a) eff" where
  "on_snd m = zoomE snd (\<lambda>x w. (fst w, x)) m"

text \<open>
  An operation that may not end: fuel bounds its loops, and it is \<open>None\<close> as long as the fuel is too little.  An
  operation that ends before it (\<open>run_after\<close>), and a clean-up that happens if it ends (\<open>run_finally\<close>).
\<close>

type_synonym ('e, 's, 'a) run = "'s \<Rightarrow> (('e + 'a) \<times> 's) option"

definition run_after :: "('e, 's, 'a) eff \<Rightarrow> ('a \<Rightarrow> ('e, 's, 'b) run) \<Rightarrow> ('e, 's, 'b) run" where
  "run_after m f s = (case m s of (Inl e, s') \<Rightarrow> Some (Inl e, s') | (Inr x, s') \<Rightarrow> f x s')"

definition run_finally :: "('e, 's, 'a) run \<Rightarrow> ('s \<Rightarrow> 's) \<Rightarrow> ('e, 's, 'a) run" where
  "run_finally m f s = map_option (\<lambda>(r, s'). (r, f s')) (m s)"

declare ret_def [eff_defs] raiseE_def [eff_defs] liftE_def [eff_defs] bindE_def [eff_defs]
  tryE_def [eff_defs] tryElse_def [eff_defs] finallyE_def [eff_defs] getE_def [eff_defs]
  modifyE_def [eff_defs] zoomE_def [eff_defs]

subsection \<open>Weakest preconditions\<close>

definition wpE ::
  "('e, 's, 'a) eff \<Rightarrow> ('a \<Rightarrow> 's \<Rightarrow> bool) \<Rightarrow> ('e \<Rightarrow> 's \<Rightarrow> bool) \<Rightarrow> 's \<Rightarrow> bool" where
  "wpE m Q E s = (case m s of (Inl e, s') \<Rightarrow> E e s' | (Inr x, s') \<Rightarrow> Q x s')"

lemma wp_ret [wp]: "wpE (ret x) Q E = Q x"
  by (rule ext) (simp add: wpE_def ret_def)

lemma wp_raise [wp]: "wpE (raiseE e) Q E = E e"
  by (rule ext) (simp add: wpE_def raiseE_def)

lemma wp_lift [wp]: "wpE (liftE r) Q E s = (case r of Inl e \<Rightarrow> E e s | Inr x \<Rightarrow> Q x s)"
  by (simp add: wpE_def liftE_def)

lemma wp_bind [wp]: "wpE (bindE m f) Q E = wpE m (\<lambda>x. wpE (f x) Q E) E"
  by (rule ext) (simp add: wpE_def bindE_def split: prod.splits sum.splits)

lemma wp_try [wp]: "wpE (tryE m h) Q E = wpE m Q (\<lambda>e. wpE (h e) Q E)"
  by (rule ext) (simp add: wpE_def tryE_def split: prod.splits sum.splits)

lemma wp_tryElse [wp]: "wpE (tryElse m h k) Q E = wpE m (\<lambda>x. wpE (k x) Q E) (\<lambda>e. wpE (h e) Q E)"
  by (rule ext) (simp add: wpE_def tryElse_def split: prod.splits sum.splits)

lemma wp_finally [wp]: "wpE (finallyE m f) Q E s = wpE m (\<lambda>x s'. Q x (f s')) (\<lambda>e s'. E e (f s')) s"
  by (simp add: wpE_def finallyE_def split: prod.splits sum.splits)

lemma wp_getE [wp]: "wpE (getE f) Q E s = Q (f s) s"
  by (simp add: wpE_def getE_def)

lemma wp_modify [wp]: "wpE (modifyE f) Q E s = Q () (f s)"
  by (simp add: wpE_def modifyE_def)

lemma wp_zoom [wp]:
  "wpE (zoomE g p m) Q E w = wpE m (\<lambda>x s'. Q x (p s' w)) (\<lambda>e s'. E e (p s' w)) (g w)"
  by (simp add: wpE_def zoomE_def split: prod.splits sum.splits)

lemma on_snd_run: "m (snd w) = (r, x) \<Longrightarrow> on_snd m w = (r, (fst w, x))"
  by (simp add: on_snd_def zoomE_def)

lemma on_fst_run: "m (fst w) = (r, d) \<Longrightarrow> on_fst m w = (r, (d, snd w))"
  by (simp add: on_fst_def zoomE_def)

lemma wp_on_fst: "wpE (on_fst m) Q E w = wpE m (\<lambda>x d. Q x (d, snd w)) (\<lambda>e d. E e (d, snd w)) (fst w)"
  by (simp add: on_fst_def wp)

lemma wp_on_snd: "wpE (on_snd m) Q E w = wpE m (\<lambda>x y. Q x (fst w, y)) (\<lambda>e y. E e (fst w, y)) (snd w)"
  by (simp add: on_snd_def wp)

text \<open>How a weakest precondition is used and proved.\<close>

lemma wpE_mono:
  assumes "wpE m Q E s"
    and "\<And>x s'. m s = (Inr x, s') \<Longrightarrow> Q x s' \<Longrightarrow> Q' x s'"
    and "\<And>e s'. m s = (Inl e, s') \<Longrightarrow> E e s' \<Longrightarrow> E' e s'"
  shows "wpE m Q' E' s"
  using assms by (simp add: wpE_def split: prod.splits sum.splits)

lemma wpE_conj:
  "wpE m Q E s \<Longrightarrow> wpE m Q' E' s \<Longrightarrow> wpE m (\<lambda>x s. Q x s \<and> Q' x s) (\<lambda>e s. E e s \<and> E' e s) s"
  by (simp add: wpE_def split: prod.splits sum.splits)

lemma wpE_Inr: "wpE m Q E s \<Longrightarrow> m s = (Inr x, s') \<Longrightarrow> Q x s'"
  by (simp add: wpE_def)

lemma wpE_Inl: "wpE m Q E s \<Longrightarrow> m s = (Inl e, s') \<Longrightarrow> E e s'"
  by (simp add: wpE_def)

lemma wpE_I:
  "(\<And>x s'. m s = (Inr x, s') \<Longrightarrow> Q x s') \<Longrightarrow> (\<And>e s'. m s = (Inl e, s') \<Longrightarrow> E e s') \<Longrightarrow> wpE m Q E s"
  by (simp add: wpE_def split: prod.splits sum.splits)

lemma wpE_total: "wpE m (\<lambda>_ _. True) (\<lambda>_ _. True) s"
  by (simp add: wpE_def split: prod.splits sum.splits)

text \<open>A state property that an operation keeps, whatever its result.\<close>

definition keeps :: "('s \<Rightarrow> bool) \<Rightarrow> ('e, 's, 'a) eff \<Rightarrow> bool" where
  "keeps I m \<longleftrightarrow> (\<forall>s. I s \<longrightarrow> I (snd (m s)))"

lemma keepsD: "keeps I m \<Longrightarrow> I s \<Longrightarrow> m s = (r, s') \<Longrightarrow> I s'"
  by (force simp: keeps_def)

lemma keepsI: "(\<And>s r s'. I s \<Longrightarrow> m s = (r, s') \<Longrightarrow> I s') \<Longrightarrow> keeps I m"
  unfolding keeps_def by (metis prod.collapse)

lemma keeps_ret [intro!]: "keeps I (ret x)"
  by (simp add: keeps_def ret_def)

lemma keeps_raise [intro!]: "keeps I (raiseE e)"
  by (simp add: keeps_def raiseE_def)

lemma keeps_lift [intro!]: "keeps I (liftE r)"
  by (simp add: keeps_def liftE_def)

lemma keeps_get [intro!]: "keeps I (getE f)"
  by (simp add: keeps_def getE_def)

lemma keeps_bind:
  assumes "keeps I m" and "\<And>x. keeps I (f x)"
  shows "keeps I (bindE m f)"
  using assms by (auto simp: keeps_def bindE_def split: prod.splits sum.splits)

lemma keeps_tryElse:
  assumes "keeps I m" and "\<And>e. keeps I (h e)" and "\<And>x. keeps I (k x)"
  shows "keeps I (tryElse m h k)"
  using assms by (auto simp: keeps_def tryElse_def split: prod.splits sum.splits)

lemma keeps_try:
  assumes "keeps I m" and "\<And>e. keeps I (h e)"
  shows "keeps I (tryE m h)"
  using assms by (auto simp: keeps_def tryE_def split: prod.splits sum.splits)

lemma keeps_for: "(\<And>x. x \<in> set xs \<Longrightarrow> keeps I (f x)) \<Longrightarrow> keeps I (forE xs f)"
  by (induction xs) (auto intro!: keeps_bind)

end
