(* ===== verification/PyVal.thy ===== *)
theory PyVal
  imports Complex_Main Prelude
begin

section \<open>Python values and strings\<close>

text \<open>
  The part of Python's built-in types that the program uses.  A \<open>str\<close> is a
  \<open>string\<close> whose characters are the code points below 256; a \<open>bytes\<close> object is a
  \<open>string\<close> whose characters are its bytes (each \<open>char\<close> is one byte).  Text outside
  Latin-1 is not represented; \<open>utf8_decode\<close> raises on it.  \<open>int\<close> is unbounded, a finite \<open>float\<close> is the
  rational number it stores.  JSON-like data (\<open>dict[str, object]\<close>) is \<open>pyval\<close>, with
  dictionaries as association lists in insertion order.
\<close>

datatype pyfloat = FFin rat | FInf bool | FNaN

datatype pyval =
    PNone
  | PBool bool
  | PInt int
  | PFloat pyfloat
  | PStr string
  | PList "pyval list"
  | PDict "(string \<times> pyval) list"

type_synonym pydict = "(string \<times> pyval) list"

text \<open>\<open>type(v).__name__\<close>, \<open>float.is_integer\<close> and \<open>int(f)\<close> on an integral float.\<close>

fun type_name :: "pyval \<Rightarrow> string" where
  "type_name PNone = ''NoneType''"
| "type_name (PBool _) = ''bool''"
| "type_name (PInt _) = ''int''"
| "type_name (PFloat _) = ''float''"
| "type_name (PStr _) = ''str''"
| "type_name (PList _) = ''list''"
| "type_name (PDict _) = ''dict''"

fun float_is_integer :: "pyfloat \<Rightarrow> bool" where
  "float_is_integer (FFin q) = (of_int \<lfloor>q\<rfloor> = q)"
| "float_is_integer _ = False"

subsection \<open>Characters and white space\<close>

definition char_code :: "char \<Rightarrow> nat" where
  "char_code c = of_char c"

text \<open>\<open>str.isspace\<close> on the code points below 256.\<close>

definition is_space :: "char \<Rightarrow> bool" where
  "is_space c \<longleftrightarrow>
     (let n = char_code c in
      (9 \<le> n \<and> n \<le> 13) \<or> (28 \<le> n \<and> n \<le> 32) \<or> n = 133 \<or> n = 160)"

text \<open>\<open>s.strip()\<close> and \<open>s.strip(chars)\<close>.\<close>

definition strip_by :: "(char \<Rightarrow> bool) \<Rightarrow> string \<Rightarrow> string" where
  "strip_by p s = rev (dropWhile p (rev (dropWhile p s)))"

definition py_strip :: "string \<Rightarrow> string" where
  "py_strip s = strip_by is_space s"

text \<open>\<open>s.split(sep)\<close> for a one-character separator: always at least one piece.\<close>

fun py_split :: "char \<Rightarrow> string \<Rightarrow> string list" where
  "py_split sep [] = [[]]"
| "py_split sep (c # cs) =
     (if c = sep then [] # py_split sep cs
      else case py_split sep cs of [] \<Rightarrow> [[c]] | w # ws \<Rightarrow> (c # w) # ws)"

text \<open>\<open>pat in s\<close> and \<open>s.replace(pat, "")\<close> for a non-empty \<open>pat\<close>.\<close>

fun starts_with :: "string \<Rightarrow> string \<Rightarrow> bool" where
  "starts_with [] s = True"
| "starts_with (p # ps) [] = False"
| "starts_with (p # ps) (c # cs) = (p = c \<and> starts_with ps cs)"

fun contains :: "string \<Rightarrow> string \<Rightarrow> bool" where
  "contains pat [] = (pat = [])"
| "contains pat (c # cs) = (starts_with pat (c # cs) \<or> contains pat cs)"

function remove_all :: "string \<Rightarrow> string \<Rightarrow> string" where
  "remove_all pat [] = []"
| "remove_all pat (c # cs) =
     (if starts_with pat (c # cs) then remove_all pat (drop (length pat - 1) cs)
      else c # remove_all pat cs)"
  by pat_completeness auto
termination
  by (relation "measure (\<lambda>(pat, s). length s)") auto

text \<open>\<open>s.lower()\<close> on the code points below 256.\<close>

definition lower_char :: "char \<Rightarrow> char" where
  "lower_char c =
     (let n = char_code c in
      if (65 \<le> n \<and> n \<le> 90) \<or> (192 \<le> n \<and> n \<le> 222 \<and> n \<noteq> 215) then char_of (n + 32) else c)"

definition py_lower :: "string \<Rightarrow> string" where
  "py_lower s = map lower_char s"

text \<open>\<open>isinstance(v, int)\<close> (a \<open>bool\<close> is an \<open>int\<close>) and \<open>int(v)\<close> on such a value.\<close>

fun as_int :: "pyval \<Rightarrow> int option" where
  "as_int (PInt n) = Some n"
| "as_int (PBool b) = Some (if b then 1 else 0)"
| "as_int _ = None"

text \<open>\<open>sep.join(xs)\<close>.\<close>

fun py_join :: "string \<Rightarrow> string list \<Rightarrow> string" where
  "py_join sep [] = []"
| "py_join sep [x] = x"
| "py_join sep (x # y # xs) = x @ sep @ py_join sep (y # xs)"

text \<open>\<open>s.encode("utf-8")\<close>; the decoder is partial, as the codec raises \<open>UnicodeDecodeError\<close>.\<close>

definition utf8_char :: "char \<Rightarrow> string" where
  "utf8_char c =
     (let n = char_code c in
      if n < 128 then [c] else [char_of (192 + n div 64), char_of (128 + n mod 64)])"

definition utf8_encode :: "string \<Rightarrow> string" where
  "utf8_encode s = concat (map utf8_char s)"

fun utf8_decode :: "string \<Rightarrow> string option" where
  "utf8_decode [] = Some []"
| "utf8_decode [a] = (if char_code a < 128 then Some [a] else None)"
| "utf8_decode (a # b # bs) =
     (if char_code a < 128 then map_option (Cons a) (utf8_decode (b # bs))
      else if (char_code a = 194 \<or> char_code a = 195) \<and> 128 \<le> char_code b \<and> char_code b < 192
      then map_option (Cons (char_of ((char_code a - 192) * 64 + (char_code b - 128)))) (utf8_decode bs)
      else None)"

subsection \<open>Integers as text\<close>

definition digit_char :: "nat \<Rightarrow> char" where
  "digit_char d = char_of (if d < 10 then 48 + d else 87 + d)"

definition digit_val :: "char \<Rightarrow> nat option" where
  "digit_val c =
     (let n = char_code c in
      if 48 \<le> n \<and> n \<le> 57 then Some (n - 48)
      else if 97 \<le> n \<and> n \<le> 122 then Some (n - 87)
      else if 65 \<le> n \<and> n \<le> 90 then Some (n - 55) else None)"

fun nat_digits :: "nat \<Rightarrow> nat \<Rightarrow> string" where
  "nat_digits b n =
     (if b < 2 \<or> n < b then [digit_char n] else nat_digits b (n div b) @ [digit_char (n mod b)])"

declare nat_digits.simps [simp del]

text \<open>\<open>str(n)\<close>.\<close>

definition py_str_int :: "int \<Rightarrow> string" where
  "py_str_int n = (if n < 0 then CHR ''-'' # nat_digits 10 (nat (- n)) else nat_digits 10 (nat n))"

text \<open>
  \<open>int(s, base)\<close>: surrounding white space, a sign, a \<open>0x\<close> prefix in base 16, and single
  underscores between digits are accepted; anything else is a \<open>ValueError\<close>, here
  \<open>None\<close>.  \<open>parse_digits b acc ok s\<close> reads the digits; \<open>ok\<close> tells whether the
  text may end here.
\<close>

definition int_space :: "char \<Rightarrow> bool" where
  "int_space c \<longleftrightarrow>
     (let n = char_code c in (9 \<le> n \<and> n \<le> 13) \<or> n = 32 \<or> n = 133 \<or> n = 160)"

fun parse_digits :: "nat \<Rightarrow> nat \<Rightarrow> bool \<Rightarrow> string \<Rightarrow> nat option" where
  "parse_digits b acc ok [] = (if ok then Some acc else None)"
| "parse_digits b acc ok (c # cs) =
     (if c = CHR ''_'' then (if ok then parse_digits b acc False cs else None)
      else case digit_val c of
        Some d \<Rightarrow> if d < b then parse_digits b (acc * b + d) True cs else None
      | None \<Rightarrow> None)"

definition drop_prefix16 :: "nat \<Rightarrow> string \<Rightarrow> string" where
  "drop_prefix16 b s =
     (case s of
        z # x # r \<Rightarrow>
          if b = 16 \<and> z = CHR ''0'' \<and> (x = CHR ''x'' \<or> x = CHR ''X'')
          then (case r of u # r' \<Rightarrow> if u = CHR ''_'' then r' else r | [] \<Rightarrow> r) else s
      | _ \<Rightarrow> s)"

definition py_int :: "nat \<Rightarrow> string \<Rightarrow> int option" where
  "py_int b s =
     (let t = strip_by int_space s in
      case t of
        [] \<Rightarrow> None
      | c # cs \<Rightarrow>
          if c = CHR ''-'' then map_option (\<lambda>n. - int n) (parse_digits b 0 False (drop_prefix16 b cs))
          else if c = CHR ''+'' then map_option int (parse_digits b 0 False (drop_prefix16 b cs))
          else map_option int (parse_digits b 0 False (drop_prefix16 b t)))"

text \<open>\<open>'%0kx' % n\<close> for \<open>n < 16 ^ k\<close>.\<close>

fun hex_pad :: "nat \<Rightarrow> nat \<Rightarrow> string" where
  "hex_pad 0 n = []"
| "hex_pad (Suc k) n = hex_pad k (n div 16) @ [digit_char (n mod 16)]"


text \<open>\<open>repr(s)\<close> of a \<open>str\<close>: the quote is \<open>'\<close> unless the text holds one and no double quote.\<close>

definition repr_char :: "char \<Rightarrow> char \<Rightarrow> string" where
  "repr_char q c =
     (let n = char_code c in
      if c = q \<or> n = 92 then [CHR 0x5C, c]
      else if n = 9 then [CHR 0x5C, CHR ''t'']
      else if n = 10 then [CHR 0x5C, CHR ''n'']
      else if n = 13 then [CHR 0x5C, CHR ''r'']
      else if n < 32 \<or> (127 \<le> n \<and> n \<le> 160) \<or> n = 173 then [CHR 0x5C, CHR ''x''] @ hex_pad 2 n
      else [c])"

definition py_repr_str :: "string \<Rightarrow> string" where
  "py_repr_str s =
     (let q = (if CHR 0x27 \<in> set s \<and> CHR 0x22 \<notin> set s then CHR 0x22 else CHR 0x27)
      in [q] @ concat (map (repr_char q) s) @ [q])"

subsection \<open>Lemmas\<close>

lemma char_code_char_of [simp]: "n < 256 \<Longrightarrow> char_code (char_of n) = n"
  by (simp add: char_code_def)

lemma char_of_char_code [simp]: "char_of (char_code c) = c"
  by (simp add: char_code_def)

lemma char_code_less [simp]: "char_code c < 256"
  by (simp add: char_code_def)

lemma char_code_eq_iff: "char_code c = char_code d \<longleftrightarrow> c = d"
  by (metis char_of_char_code)

lemma digit_val_char [simp]: "d < 36 \<Longrightarrow> digit_val (digit_char d) = Some d"
  by (auto simp: digit_val_def digit_char_def)

lemma digit_char_neq: "d < 36 \<Longrightarrow> char_code c < 48 \<or> char_code c = 95 \<or> 122 < char_code c \<Longrightarrow> digit_char d \<noteq> c"
  by (auto simp: digit_char_def)

lemma digit_val_letters:
  assumes "d < 16" shows "digit_char d \<noteq> CHR ''x''" and "digit_char d \<noteq> CHR ''X''"
proof -
  have "digit_val (digit_char d) = Some d" using assms by simp
  moreover have "digit_val (CHR ''x'') = Some 33" "digit_val (CHR ''X'') = Some 33"
    by (simp_all add: digit_val_def char_code_def)
  ultimately show "digit_char d \<noteq> CHR ''x''" and "digit_char d \<noteq> CHR ''X''"
    using assms by force+
qed

lemma digit_char_inj: "d < 36 \<Longrightarrow> d' < 36 \<Longrightarrow> digit_char d = digit_char d' \<longleftrightarrow> d = d'"
  by (metis digit_val_char option.inject)

text \<open>Stripping: nothing to strip, and what is left has no strippable end.\<close>

lemma dropWhile_none: "\<forall>c \<in> set s. \<not> p c \<Longrightarrow> dropWhile p s = s"
  by (cases s) auto

lemma strip_by_none: "\<forall>c \<in> set s. \<not> p c \<Longrightarrow> strip_by p s = s"
  by (simp add: strip_by_def dropWhile_none)

lemma strip_by_Nil_iff: "strip_by p s = [] \<longleftrightarrow> (\<forall>c \<in> set s. p c)"
  by (auto simp: strip_by_def dropWhile_eq_Nil_conv dest: set_dropWhileD)
     (metis (no_types, lifting) UnE set_append set_takeWhileD takeWhile_dropWhile_id)

lemma strip_by_hd: "strip_by p s = c # cs \<Longrightarrow> \<not> p c"
proof -
  assume a: "strip_by p s = c # cs"
  let ?t = "dropWhile p s"
  from a have "dropWhile p (rev ?t) = rev cs @ [c]"
    by (simp add: strip_by_def rev_swap)
  then have "?t = (c # cs) @ rev (takeWhile p (rev ?t))"
    by (metis rev.simps(2) rev_append rev_rev_ident takeWhile_dropWhile_id)
  then show "\<not> p c"
    by (metis append_Cons hd_dropWhile list.discI list.sel(1))
qed

lemma strip_by_last: "strip_by p s \<noteq> [] \<Longrightarrow> \<not> p (last (strip_by p s))"
  by (simp add: strip_by_def last_rev hd_dropWhile)

lemma strip_by_idem: "strip_by p (strip_by p s) = strip_by p s"
proof (cases "strip_by p s")
  case Nil
  then show ?thesis by (simp only: strip_by_none list.set ball_empty)
next
  case (Cons c cs)
  then have "\<not> p c" and "\<not> p (last (c # cs))"
    using strip_by_hd [of p s c cs] strip_by_last [of p s] by auto
  then have "dropWhile p (rev (c # cs)) = rev (c # cs)"
    by (metis dropWhile_eq_self_iff hd_rev)
  with Cons \<open>\<not> p c\<close> show ?thesis by (simp add: strip_by_def)
qed

text \<open>Splitting never yields the separator, and joining the pieces gives the text back.\<close>

lemma py_split_nonempty [simp]: "py_split sep s \<noteq> []"
  by (induction s) (auto split: list.splits)

lemma py_split_no_sep: "w \<in> set (py_split sep s) \<Longrightarrow> sep \<notin> set w"
  by (induction s arbitrary: w) (auto split: if_splits list.splits)

lemma py_join_split: "py_join [sep] (py_split sep s) = s"
proof (induction s)
  case Nil
  then show ?case by simp
next
  case (Cons c s)
  obtain w ws where ws: "py_split sep s = w # ws"
    by (cases "py_split sep s") auto
  with Cons show ?case by (cases ws) auto
qed

text \<open>UTF-8: decoding inverts encoding, so encoding is injective.\<close>

lemma utf8_decode_char: "utf8_decode (utf8_char c @ s) = map_option (Cons c) (utf8_decode s)"
proof (cases "char_code c < 128")
  case True
  then show ?thesis by (cases s) (auto simp: utf8_char_def Let_def)
next
  case False
  let ?n = "char_code c"
  define a b where "a = char_of (192 + ?n div 64)" and "b = char_of (128 + ?n mod 64)"
  have n: "128 \<le> ?n" "?n < 256" using False by auto
  then have "2 \<le> ?n div 64" "?n div 64 < 4" using n by arith+
  then have h: "?n div 64 = 2 \<or> ?n div 64 = 3" by arith
  then have a: "char_code a = 192 + ?n div 64" by (auto simp: a_def)
  have b: "char_code b = 128 + ?n mod 64" by (simp add: b_def)
  have u: "utf8_char c = [a, b]" using False by (simp add: utf8_char_def a_def b_def Let_def)
  have "(char_code a - 192) * 64 + (char_code b - 128) = ?n" by (simp add: a b)
  then have c: "char_of ((char_code a - 192) * 64 + (char_code b - 128)) = c"
    by (simp only: char_of_char_code)
  have "\<not> char_code a < 128" "char_code a = 194 \<or> char_code a = 195"
    "128 \<le> char_code b \<and> char_code b < 192"
    using h by (auto simp: a b)
  then show ?thesis using c by (simp add: u)
qed

lemma utf8_decode_encode: "utf8_decode (utf8_encode s) = Some s"
  by (induction s) (simp_all add: utf8_encode_def utf8_decode_char)

lemma utf8_decode_ascii: "\<forall>c \<in> set s. char_code c < 128 \<Longrightarrow> utf8_decode s = Some s"
proof -
  assume a: "\<forall>c \<in> set s. char_code c < 128"
  then have "utf8_encode s = s" by (induction s) (simp_all add: utf8_encode_def utf8_char_def)
  then show ?thesis using utf8_decode_encode [of s] by simp
qed

lemma utf8_encode_inj: "utf8_encode s = utf8_encode t \<longleftrightarrow> s = t"
  by (metis option.inject utf8_decode_encode)

text \<open>Reading back the digits that \<open>str\<close> and the \<open>%x\<close> format write.\<close>

lemma parse_digits_snoc:
  "parse_digits b acc ok xs = Some m \<Longrightarrow> d < b \<Longrightarrow> b \<le> 36 \<Longrightarrow>
   parse_digits b acc ok (xs @ [digit_char d]) = Some (m * b + d)"
proof (induction xs arbitrary: acc ok)
  case Nil
  then show ?case by (auto simp: digit_char_neq char_code_def split: if_splits)
next
  case (Cons c cs)
  then show ?case by (auto split: if_splits option.splits)
qed

lemma parse_digits_single:
  "d < b \<Longrightarrow> b \<le> 36 \<Longrightarrow> parse_digits b acc ok [digit_char d] = Some (acc * b + d)"
  by (auto simp: digit_char_neq char_code_def)

lemma parse_nat_digits: "2 \<le> b \<Longrightarrow> b \<le> 36 \<Longrightarrow> parse_digits b 0 False (nat_digits b n) = Some n"
proof (induction b n rule: nat_digits.induct)
  case (1 b n)
  show ?case
  proof (cases "n < b")
    case True
    with "1.prems" show ?thesis
      by (subst nat_digits.simps) (simp add: parse_digits_single del: parse_digits.simps)
  next
    case False
    with "1" have "parse_digits b 0 False (nat_digits b (n div b)) = Some (n div b)" by simp
    from parse_digits_snoc [OF this, of "n mod b"] False "1.prems" show ?thesis
      by (subst nat_digits.simps) (simp add: div_mult_mod_eq)
  qed
qed

lemma set_nat_digits: "2 \<le> b \<Longrightarrow> set (nat_digits b n) \<subseteq> digit_char ` {..<b}"
proof (induction b n rule: nat_digits.induct)
  case (1 b n)
  then show ?case by (subst nat_digits.simps) auto
qed

lemma nat_digits_nonempty [simp]: "nat_digits b n \<noteq> []"
  by (subst nat_digits.simps) simp

lemma parse_hex_pad:
  "n < 16 ^ Suc k \<Longrightarrow> parse_digits 16 0 False (hex_pad (Suc k) n) = Some n"
proof (induction k arbitrary: n)
  case 0
  then show ?case by (simp add: parse_digits_single del: parse_digits.simps)
next
  case (Suc k)
  then have "parse_digits 16 0 False (hex_pad (Suc k) (n div 16)) = Some (n div 16)" by simp
  from parse_digits_snoc [OF this, of "n mod 16"] show ?case
    by (subst hex_pad.simps) (simp del: hex_pad.simps)
qed

lemma parse_hex_pad_pos:
  "0 < k \<Longrightarrow> n < 16 ^ k \<Longrightarrow> parse_digits 16 0 False (hex_pad k n) = Some n"
  using parse_hex_pad [of n "k - 1"] by simp

lemma length_hex_pad [simp]: "length (hex_pad k n) = k"
  by (induction k arbitrary: n) auto

lemma set_hex_pad: "set (hex_pad k n) \<subseteq> digit_char ` {..<16}"
  by (induction k arbitrary: n) auto

lemma digit_not_int_space: "d < 36 \<Longrightarrow> \<not> int_space (digit_char d)"
  by (auto simp: int_space_def digit_char_def Let_def)

lemma py_int_digits:
  assumes ds: "set s \<subseteq> digit_char ` {..<b}" and b: "b \<le> 16" and ne: "s \<noteq> []"
  shows "py_int b s = map_option int (parse_digits b 0 False s)"
proof -
  have d: "\<exists>d<16. c = digit_char d" if "c \<in> set s" for c
  proof -
    from that ds obtain d where "d < b" "c = digit_char d" by auto
    with b show ?thesis by (intro exI [of _ d]) simp
  qed
  then have st: "strip_by int_space s = s"
  proof (intro strip_by_none ballI)
    fix c assume "c \<in> set s"
    with d obtain d where "d < 16" "c = digit_char d" by blast
    then show "\<not> int_space c" by (simp add: digit_not_int_space)
  qed
  obtain c cs where s: "s = c # cs" using ne by (cases s) auto
  have "c \<noteq> CHR ''-''" "c \<noteq> CHR ''+''"
    using d [of c] s by (auto simp: digit_char_neq char_code_def)
  moreover have "drop_prefix16 b s = s"
  proof (cases cs)
    case (Cons x r)
    then have "x \<noteq> CHR ''x''" "x \<noteq> CHR ''X''"
      using d [of x] s digit_val_letters by auto
    then show ?thesis by (simp add: s Cons drop_prefix16_def)
  qed (simp add: s drop_prefix16_def)
  ultimately show ?thesis
    unfolding py_int_def Let_def st by (simp add: s del: parse_digits.simps)
qed

lemma py_int_nat_digits:
  "2 \<le> b \<Longrightarrow> b \<le> 16 \<Longrightarrow> py_int b (nat_digits b n) = Some (int n)"
  using py_int_digits [OF set_nat_digits] by (simp add: parse_nat_digits)

lemma py_int_str_int [simp]: "py_int 10 (py_str_int n) = Some n"
proof (cases "n < 0")
  case True
  let ?m = "nat (- n)"
  have ds: "set (nat_digits 10 ?m) \<subseteq> digit_char ` {..<10}" by (rule set_nat_digits) simp
  have "strip_by int_space (CHR ''-'' # nat_digits 10 ?m) = CHR ''-'' # nat_digits 10 ?m"
  proof (rule strip_by_none, rule ballI)
    fix c assume "c \<in> set (CHR ''-'' # nat_digits 10 ?m)"
    then consider "c = CHR ''-''" | d where "d < 10" "c = digit_char d" using ds by auto
    then show "\<not> int_space c"
      by cases (auto simp: digit_not_int_space, simp add: int_space_def char_code_def)
  qed
  moreover have "drop_prefix16 10 s = s" for s
    by (simp add: drop_prefix16_def split: list.splits)
  ultimately show ?thesis
    using True by (simp add: py_str_int_def py_int_def Let_def parse_nat_digits)
next
  case False
  then show ?thesis by (simp add: py_str_int_def py_int_nat_digits)
qed

end
