(* ===== verification/Uuid.thy ===== *)
theory Uuid
  imports PyVal "HOL-Library.Word"
begin

section \<open>Job identifiers: \<open>uuid.UUID\<close>\<close>

text \<open>
  A UUID is a 128-bit number.  \<open>uuid_str\<close> is \<open>str(u)\<close>: 32 hexadecimal digits in groups of
  8, 4, 4, 4 and 12.  \<open>uuid_parse\<close> is the constructor \<open>UUID(s)\<close>: it drops
  \<open>urn:\<close>, \<open>uuid:\<close>, braces and dashes, wants 32 characters and reads them with
  \<open>int(_, 16)\<close>; \<open>None\<close> stands for its \<open>ValueError\<close>.
\<close>

type_synonym uuid = "128 word"

definition uuid_str :: "uuid \<Rightarrow> string" where
  "uuid_str u =
     (let h = hex_pad 32 (unat u)
      in take 8 h @ ''-'' @ take 4 (drop 8 h) @ ''-'' @ take 4 (drop 12 h) @ ''-'' @
         take 4 (drop 16 h) @ ''-'' @ drop 20 h)"

definition uuid_hex :: "string \<Rightarrow> string" where
  "uuid_hex s =
     (let h = remove_all ''uuid:'' (remove_all ''urn:'' s)
      in remove_all ''-'' (strip_by (\<lambda>c. c = CHR ''{'' \<or> c = CHR ''}'') h))"

definition uuid_parse :: "string \<Rightarrow> uuid option" where
  "uuid_parse s =
     (if length (uuid_hex s) \<noteq> 32 then None
      else case py_int 16 (uuid_hex s) of
        None \<Rightarrow> None
      | Some n \<Rightarrow> if 0 \<le> n \<and> n < 2 ^ 128 then Some (word_of_int n) else None)"

text \<open>The messages of \<open>int(s, base)\<close>'s and of \<open>UUID(s)\<close>'s \<open>ValueError\<close>.\<close>

definition int_error :: "nat \<Rightarrow> string \<Rightarrow> string" where
  "int_error b s = ''invalid literal for int() with base '' @ py_str_int (int b) @ '': '' @ py_repr_str s"

definition uuid_error :: "string \<Rightarrow> string" where
  "uuid_error s =
     (if length (uuid_hex s) \<noteq> 32 then ''badly formed hexadecimal UUID string''
      else case py_int 16 (uuid_hex s) of
        None \<Rightarrow> int_error 16 (uuid_hex s)
      | Some n \<Rightarrow> ''int is out of range (need a 128-bit value)'')"

subsection \<open>Lemmas\<close>

lemma starts_with_head: "starts_with (p # ps) s \<Longrightarrow> p \<in> set s"
  by (cases s) auto

lemma remove_all_absent: "p \<notin> set s \<Longrightarrow> remove_all (p # ps) s = s"
  by (induction s) auto

lemma remove_char: "remove_all [p] s = filter (\<lambda>c. c \<noteq> p) s"
  by (induction s) auto

lemma hex_char_cases: "c \<in> set (hex_pad k n) \<Longrightarrow> \<exists>d<16. c = digit_char d"
  using set_hex_pad [of k n] by auto

lemma hex_pad_not_in:
  assumes "char_code c < 48 \<or> char_code c = 95 \<or> 122 < char_code c"
  shows "c \<notin> set (hex_pad k n)"
proof
  assume "c \<in> set (hex_pad k n)"
  then obtain d where "d < 16" "c = digit_char d" using hex_char_cases by blast
  then show False using digit_char_neq [of d c] assms by simp
qed

lemma digit_16_neq: "d < 16 \<Longrightarrow> digit_char d \<noteq> CHR ''u''"
proof
  assume "d < 16" "digit_char d = CHR ''u''"
  then have "digit_val (CHR ''u'') = Some d" using digit_val_char [of d] by simp
  with \<open>d < 16\<close> show False by (simp add: digit_val_def char_code_def)
qed

lemma hex_pad_no_u: "CHR ''u'' \<notin> set (hex_pad k n)"
  using hex_char_cases [of "CHR ''u''" k n] digit_16_neq by metis

lemma set_uuid_str: "set (uuid_str u) \<subseteq> insert (CHR ''-'') (set (hex_pad 32 (unat u)))"
  by (auto simp: uuid_str_def Let_def dest: in_set_takeD in_set_dropD)

lemma filter_uuid_str: "filter (\<lambda>c. c \<noteq> CHR ''-'') (uuid_str u) = hex_pad 32 (unat u)"
proof -
  define h where "h = hex_pad 32 (unat u)"
  have "CHR ''-'' \<notin> set h"
    unfolding h_def by (rule hex_pad_not_in) (simp add: char_code_def)
  then have f: "filter (\<lambda>c. c \<noteq> CHR ''-'') (take a (drop b h)) = take a (drop b h)"
    "filter (\<lambda>c. c \<noteq> CHR ''-'') (take a h) = take a h"
    "filter (\<lambda>c. c \<noteq> CHR ''-'') (drop b h) = drop b h" for a b
    by (auto simp: filter_id_conv dest: in_set_takeD in_set_dropD)
  have step: "take 4 (drop n h) @ drop (n + 4) h = drop n h" for n
    by (metis add.commute append_take_drop_id drop_drop)
  have "take 8 h @ take 4 (drop 8 h) @ take 4 (drop 12 h) @ take 4 (drop 16 h) @ drop 20 h = h"
    using step [of 8] step [of 12] step [of 16] by simp
  then show ?thesis by (simp add: uuid_str_def Let_def f flip: h_def)
qed

lemma uuid_parse_str [simp]: "uuid_parse (uuid_str u) = Some u"
proof -
  let ?s = "uuid_str u"
  have cs: "c = CHR ''-'' \<or> c \<in> set (hex_pad 32 (unat u))" if "c \<in> set ?s" for c
    using set_uuid_str [of u] that by auto
  have "CHR ''u'' \<notin> set ?s" using cs [of "CHR ''u''"] hex_pad_no_u by auto
  then have r: "remove_all ''urn:'' ?s = ?s" "remove_all ''uuid:'' ?s = ?s"
    by (simp_all add: remove_all_absent)
  have "CHR ''{'' \<notin> set ?s" "CHR ''}'' \<notin> set ?s"
    using cs [of "CHR ''{''"] cs [of "CHR ''}''"] hex_pad_not_in [of "CHR ''{''"]
      hex_pad_not_in [of "CHR ''}''"] by (auto simp: char_code_def)
  then have st: "strip_by (\<lambda>c. c = CHR ''{'' \<or> c = CHR ''}'') ?s = ?s"
    by (intro strip_by_none) auto
  have n: "unat u < 16 ^ 32" using unsigned_less [of u] by simp
  have ne: "hex_pad 32 (unat u) \<noteq> []" by (metis length_0_conv length_hex_pad zero_neq_numeral)
  have "py_int 16 (hex_pad 32 (unat u)) = Some (int (unat u))"
    using py_int_digits [OF set_hex_pad _ ne] parse_hex_pad_pos [OF _ n] by simp
  then show ?thesis
    using unsigned_less [of u] by (simp add: uuid_parse_def uuid_hex_def r st remove_char filter_uuid_str Let_def)
qed

lemma uuid_str_inj [simp]: "uuid_str u = uuid_str v \<longleftrightarrow> u = v"
  by (metis option.inject uuid_parse_str)

end
