(* ===== verification/Exceptions.thy ===== *)
theory Exceptions
  imports Uuid
begin

section \<open>The exception hierarchy (\<open>domain/exceptions.py\<close>)\<close>

text \<open>
  Exceptions are values of \<open>exn\<close>: the domain errors of \<open>domain/exceptions.py\<close>, the
  built-in exceptions that the modelled code raises itself, and \<open>SdkError\<close> for an exception
  of a third-party package (redis-py, botocore, huggingface_hub, pinecone, ddgs, SQLAlchemy).  The classes of
  those packages are not part of the repository, so such an exception carries what the code
  inspects of it: the names of the classes it is an instance of (its \<open>__mro__\<close>, for
  \<open>isinstance\<close>), its class's own name, its \<open>str\<close> and \<open>repr\<close>, its attribute
  \<open>status\<close>, the \<open>status_code\<close> of its attribute \<open>response\<close>, and, for a botocore
  \<open>ClientError\<close>, the error code, message and HTTP status of its parsed response, each
  \<open>None\<close> where the key is missing.
  The enumerations \<open>JobStatus\<close> and \<open>JobType\<close> of \<open>domain/models.py\<close> come first, since
  \<open>InvalidTransition\<close> carries two statuses.
\<close>

datatype job_status = PENDING | RUNNING | SUCCESS | FAILED

datatype job_type = RAG_QUERY | EMBED_DOCUMENT

text \<open>The members of the enumerations in the order of their definition.\<close>

instantiation job_status :: enum
begin

definition enum_job_status :: "job_status list" where
  "enum_job_status = [PENDING, RUNNING, SUCCESS, FAILED]"

definition enum_all_job_status :: "(job_status \<Rightarrow> bool) \<Rightarrow> bool" where
  "enum_all_job_status P \<longleftrightarrow> P PENDING \<and> P RUNNING \<and> P SUCCESS \<and> P FAILED"

definition enum_ex_job_status :: "(job_status \<Rightarrow> bool) \<Rightarrow> bool" where
  "enum_ex_job_status P \<longleftrightarrow> P PENDING \<or> P RUNNING \<or> P SUCCESS \<or> P FAILED"

instance
proof
  have all: "UNIV = {PENDING, RUNNING, SUCCESS, FAILED}" by (auto intro: job_status.exhaust)
  then show "(UNIV :: job_status set) = set enum_class.enum" by (simp add: enum_job_status_def)
  show "distinct (enum_class.enum :: job_status list)" by (simp add: enum_job_status_def)
  show "enum_class.enum_all P \<longleftrightarrow> Ball UNIV P" "enum_class.enum_ex P \<longleftrightarrow> Bex UNIV P" for P :: "job_status \<Rightarrow> bool"
    unfolding all by (simp_all add: enum_all_job_status_def enum_ex_job_status_def)
qed

end

instantiation job_type :: enum
begin

definition enum_job_type :: "job_type list" where
  "enum_job_type = [RAG_QUERY, EMBED_DOCUMENT]"

definition enum_all_job_type :: "(job_type \<Rightarrow> bool) \<Rightarrow> bool" where
  "enum_all_job_type P \<longleftrightarrow> P RAG_QUERY \<and> P EMBED_DOCUMENT"

definition enum_ex_job_type :: "(job_type \<Rightarrow> bool) \<Rightarrow> bool" where
  "enum_ex_job_type P \<longleftrightarrow> P RAG_QUERY \<or> P EMBED_DOCUMENT"

instance
proof
  have all: "UNIV = {RAG_QUERY, EMBED_DOCUMENT}" by (auto intro: job_type.exhaust)
  then show "(UNIV :: job_type set) = set enum_class.enum" by (simp add: enum_job_type_def)
  show "distinct (enum_class.enum :: job_type list)" by (simp add: enum_job_type_def)
  show "enum_class.enum_all P \<longleftrightarrow> Ball UNIV P" "enum_class.enum_ex P \<longleftrightarrow> Bex UNIV P" for P :: "job_type \<Rightarrow> bool"
    unfolding all by (simp_all add: enum_all_job_type_def enum_ex_job_type_def)
qed

end

lemmas members [simp] = enum_job_status_def enum_job_type_def

text \<open>\<open>.value\<close> of a member and \<open>JobStatus(value)\<close>, whose \<open>ValueError\<close> is \<open>None\<close>.\<close>

fun status_value :: "job_status \<Rightarrow> string" where
  "status_value PENDING = ''pending''"
| "status_value RUNNING = ''running''"
| "status_value SUCCESS = ''success''"
| "status_value FAILED = ''failed''"

fun type_value :: "job_type \<Rightarrow> string" where
  "type_value RAG_QUERY = ''rag_query''"
| "type_value EMBED_DOCUMENT = ''embed_document''"

definition status_of_value :: "string \<Rightarrow> job_status option" where
  "status_of_value s = find (\<lambda>x. status_value x = s) enum_class.enum"

definition type_of_value :: "string \<Rightarrow> job_type option" where
  "type_of_value s = find (\<lambda>x. type_value x = s) enum_class.enum"

record client_response =
  cr_code :: "string option"
  cr_message :: "string option"
  cr_status :: "int option"

record sdk_error =
  sdk_mro :: "string list"
  sdk_name :: string
  sdk_text :: string
  sdk_repr :: string
  sdk_status :: "pyval option"
  sdk_response_status :: "pyval option"
  sdk_client_response :: client_response

datatype exn =
    InvalidTransition job_status job_status
  | JobNotFound uuid
  | TransientUpstreamError string "exn option"
  | PermanentUpstreamError string "exn option"
  | ValueError string
  | KeyError string
  | TypeError string
  | UnicodeDecodeError string
  | AttributeError string
  | SdkError sdk_error

type_synonym ('s, 'a) io = "(exn, 's, 'a) eff"

text \<open>\<open>isinstance(exc, DomainError)\<close> and \<open>isinstance(exc, UpstreamError)\<close>.\<close>

fun is_domain_error :: "exn \<Rightarrow> bool" where
  "is_domain_error (InvalidTransition _ _) = True"
| "is_domain_error (JobNotFound _) = True"
| "is_domain_error (TransientUpstreamError _ _) = True"
| "is_domain_error (PermanentUpstreamError _ _) = True"
| "is_domain_error _ = False"

fun is_transient :: "exn \<Rightarrow> bool" where
  "is_transient (TransientUpstreamError _ _) = True"
| "is_transient _ = False"

fun is_permanent :: "exn \<Rightarrow> bool" where
  "is_permanent (PermanentUpstreamError _ _) = True"
| "is_permanent _ = False"

definition is_upstream_error :: "exn \<Rightarrow> bool" where
  "is_upstream_error e \<longleftrightarrow> is_transient e \<or> is_permanent e"

text \<open>\<open>isinstance(exc, (A, B, ...))\<close> for classes of a third-party package.\<close>

fun isinstance :: "exn \<Rightarrow> string list \<Rightarrow> bool" where
  "isinstance (SdkError x) classes = list_ex (\<lambda>c. c \<in> set (sdk_mro x)) classes"
| "isinstance _ classes = False"

text \<open>\<open>exc.cause\<close>, \<open>str(exc)\<close> and \<open>repr(exc)\<close>.\<close>

fun cause_of :: "exn \<Rightarrow> exn option" where
  "cause_of (TransientUpstreamError _ c) = c"
| "cause_of (PermanentUpstreamError _ c) = c"
| "cause_of _ = None"

fun exn_str :: "exn \<Rightarrow> string" where
  "exn_str (InvalidTransition current target) =
     ''illegal job transition: '' @ status_value current @ '' -> '' @ status_value target"
| "exn_str (JobNotFound i) = ''job not found: '' @ uuid_str i"
| "exn_str (TransientUpstreamError m _) = m"
| "exn_str (PermanentUpstreamError m _) = m"
| "exn_str (ValueError m) = m"
| "exn_str (KeyError k) = py_repr_str k"
| "exn_str (TypeError m) = m"
| "exn_str (UnicodeDecodeError m) = m"
| "exn_str (AttributeError m) = m"
| "exn_str (SdkError x) = sdk_text x"

fun class_name :: "exn \<Rightarrow> string" where
  "class_name (InvalidTransition _ _) = ''InvalidTransition''"
| "class_name (JobNotFound _) = ''JobNotFound''"
| "class_name (TransientUpstreamError _ _) = ''TransientUpstreamError''"
| "class_name (PermanentUpstreamError _ _) = ''PermanentUpstreamError''"
| "class_name (ValueError _) = ''ValueError''"
| "class_name (KeyError _) = ''KeyError''"
| "class_name (TypeError _) = ''TypeError''"
| "class_name (UnicodeDecodeError _) = ''UnicodeDecodeError''"
| "class_name (AttributeError _) = ''AttributeError''"
| "class_name (SdkError x) = sdk_name x"

fun exn_repr :: "exn \<Rightarrow> string" where
  "exn_repr (SdkError x) = sdk_repr x"
| "exn_repr (KeyError k) = ''KeyError('' @ py_repr_str k @ '')''"
| "exn_repr e = class_name e @ ''('' @ py_repr_str (exn_str e) @ '')''"

subsection \<open>Lemmas\<close>

lemma range_values:
  "range status_value = {''pending'', ''running'', ''success'', ''failed''}"
  "range type_value = {''rag_query'', ''embed_document''}"
  by (simp_all add: UNIV_enum)

lemma status_of_value_inverse [simp]: "status_of_value (status_value s) = Some s"
  by (cases s) (simp_all add: status_of_value_def)

lemma status_of_value_Some: "status_of_value v = Some s \<Longrightarrow> status_value s = v"
  by (auto simp: status_of_value_def split: if_splits)

lemma type_of_value_inverse [simp]: "type_of_value (type_value t) = Some t"
  by (cases t) (simp_all add: type_of_value_def)

lemma type_of_value_Some: "type_of_value v = Some t \<Longrightarrow> type_value t = v"
  by (auto simp: type_of_value_def split: if_splits)

lemma transient_not_permanent [simp]: "is_transient e \<Longrightarrow> \<not> is_permanent e"
  by (cases e) auto

lemma exn_route_cases:
  obtains (transient) m c where "e = TransientUpstreamError m c"
  | (permanent) m c where "e = PermanentUpstreamError m c"
  | (other) "\<not> is_transient e" "\<not> is_permanent e"
  by (cases e) auto

end
