(* ===== verification/Chunking.thy ===== *)
theory Chunking
  imports Exceptions
begin

section \<open>Text chunking (\<open>domain/chunking.py\<close>)\<close>

text \<open>
  \<open>chunk_text\<close> splits a document into overlapping windows.  \<open>chunk_loop\<close> is its
  \<open>while\<close> loop, with the loop variables \<open>start\<close> and \<open>index\<close>.  The function
  calls it only with a stride of at least 1; the test \<open>0 < stride\<close> makes the HOL function total
  for other strides, with which the Python loop would not end, and \<open>chunk_loop_unfold\<close> is
  the loop without it.
\<close>

record chunk =
  c_index :: int
  c_start :: int
  c_end :: int
  c_text :: string

text \<open>\<open>s[a:b]\<close> for \<open>0 \<le> a \<le> b\<close>.\<close>

definition slice :: "string \<Rightarrow> int \<Rightarrow> int \<Rightarrow> string" where
  "slice s a b = take (nat (b - a)) (drop (nat a) s)"

function chunk_loop :: "string \<Rightarrow> int \<Rightarrow> int \<Rightarrow> int \<Rightarrow> int \<Rightarrow> chunk list" where
  "chunk_loop s sz stride start index =
     (if start < int (length s) \<and> 0 < stride then
        let stop = min (start + sz) (int (length s));
            ch = \<lparr>c_index = index, c_start = start, c_end = stop, c_text = slice s start stop\<rparr>
        in if stop = int (length s) then [ch]
           else ch # chunk_loop s sz stride (start + stride) (index + 1)
      else [])"
  by pat_completeness auto
termination
  by (relation "measure (\<lambda>(s, sz, stride, start, index). nat (int (length s) - start))") auto

declare chunk_loop.simps [simp del]

definition chunk_text :: "string \<Rightarrow> int \<Rightarrow> int \<Rightarrow> exn + chunk list" where
  "chunk_text text sz overlap =
     (if sz \<le> 0 then Inl (ValueError (''size must be positive, got '' @ py_str_int sz))
      else if \<not> (0 \<le> overlap \<and> overlap < sz)
      then Inl (ValueError (''overlap must satisfy 0 <= overlap < size, got '' @ py_str_int overlap @
             '' (size='' @ py_str_int sz @ '')''))
      else
        let stripped = py_strip text
        in if stripped = [] then Inr []
           else let stride = sz - overlap in Inr (chunk_loop stripped sz stride 0 0))"

subsection \<open>Lemmas\<close>

lemma chunk_loop_unfold:
  "0 < stride \<Longrightarrow>
   chunk_loop s sz stride start index =
     (if start < int (length s) then
        let stop = min (start + sz) (int (length s));
            ch = \<lparr>c_index = index, c_start = start, c_end = stop, c_text = slice s start stop\<rparr>
        in if stop = int (length s) then [ch]
           else ch # chunk_loop s sz stride (start + stride) (index + 1)
      else [])"
  by (subst chunk_loop.simps) simp

lemma slice_full: "slice s a (int (length s)) = drop (nat a) s"
  by (simp add: slice_def)

lemma slice_append_drop:
  assumes "0 \<le> a" "a \<le> b" shows "slice s a b @ drop (nat b) s = drop (nat a) s"
proof -
  from assms have "nat b = nat (b - a) + nat a" by simp
  then have "drop (nat b) s = drop (nat (b - a)) (drop (nat a) s)" by (metis drop_drop)
  then show ?thesis unfolding slice_def by (metis append_take_drop_id)
qed

lemma drop_slice: "0 \<le> k \<Longrightarrow> 0 \<le> a \<Longrightarrow> drop (nat k) (slice s a b) = slice s (a + k) b"
proof -
  assume "0 \<le> k" "0 \<le> a"
  then have "nat (b - a) - nat k = nat (b - (a + k))" "nat a + nat k = nat (a + k)" by arith+
  then show ?thesis by (simp add: slice_def drop_take add.commute)
qed

text \<open>The two ways an iteration goes on, and induction along the loop.\<close>

lemma chunk_loop_cases:
  assumes "0 < sd" and "start < int (length s)"
  obtains (tail) "int (length s) \<le> start + sz"
      "chunk_loop s sz sd start index =
         [\<lparr>c_index = index, c_start = start, c_end = int (length s), c_text = drop (nat start) s\<rparr>]"
  | (window) "start + sz < int (length s)"
      "chunk_loop s sz sd start index =
         \<lparr>c_index = index, c_start = start, c_end = start + sz, c_text = slice s start (start + sz)\<rparr> #
         chunk_loop s sz sd (start + sd) (index + 1)"
proof (cases "int (length s) \<le> start + sz")
  case True
  with assms that(1) show ?thesis
    by (simp add: chunk_loop_unfold [of _ _ _ start] Let_def slice_full)
next
  case False
  with assms that(2) show ?thesis
    by (simp add: chunk_loop_unfold [of _ _ _ start] Let_def)
qed

lemma chunk_loop_induct [consumes 4, case_names tail window]:
  assumes "0 < sd" and "sd \<le> sz" and "0 \<le> start" and "start < int (length s)"
    and "\<And>start index. 0 \<le> start \<Longrightarrow> start < int (length s) \<Longrightarrow> int (length s) \<le> start + sz \<Longrightarrow>
          chunk_loop s sz sd start index =
            [\<lparr>c_index = index, c_start = start, c_end = int (length s), c_text = drop (nat start) s\<rparr>] \<Longrightarrow>
          P start index"
    and "\<And>start index. 0 \<le> start \<Longrightarrow> start + sz < int (length s) \<Longrightarrow>
          chunk_loop s sz sd start index =
            \<lparr>c_index = index, c_start = start, c_end = start + sz, c_text = slice s start (start + sz)\<rparr> #
            chunk_loop s sz sd (start + sd) (index + 1) \<Longrightarrow>
          P (start + sd) (index + 1) \<Longrightarrow> P start index"
  shows "P start index"
  using assms(3,4)
proof (induction "nat (int (length s) - start)" arbitrary: start index rule: less_induct)
  case (less start index)
  from assms(1) less.prems(2) show ?case
  proof (cases rule: chunk_loop_cases [of sd start s sz index])
    case tail
    with less.prems show ?thesis by (blast intro: assms(5))
  next
    case window
    have next_iter: "P (start + sd) (index + 1)"
      using window(1) less.prems assms(1,2) by (intro less.hyps) auto
    show ?thesis by (rule assms(6) [OF less.prems(1) window next_iter])
  qed
qed

lemma chunk_loop_nonempty:
  assumes "0 < sd" "start < int (length s)"
  shows "chunk_loop s sz sd start index \<noteq> []"
  using assms by (cases rule: chunk_loop_cases [of sd start s sz index]) simp_all

lemma chunk_loop_indices:
  assumes "0 < sd" "sd \<le> sz" "0 \<le> start" "start < int (length s)"
  shows "map c_index (chunk_loop s sz sd start index) =
    map (\<lambda>k. index + int k) [0..<length (chunk_loop s sz sd start index)]"
  using assms
proof (induction start index rule: chunk_loop_induct)
  case (tail start index)
  then show ?case by simp
next
  case (window start index)
  then show ?case by (simp add: map_upt_Suc algebra_simps del: upt_Suc)
qed

lemma chunk_loop_starts:
  assumes "0 < sd" "sd \<le> sz" "0 \<le> start" "start < int (length s)"
  shows "map c_start (chunk_loop s sz sd start index) =
    map (\<lambda>k. start + int k * sd) [0..<length (chunk_loop s sz sd start index)]"
  using assms
proof (induction start index rule: chunk_loop_induct)
  case (tail start index)
  then show ?case by simp
next
  case (window start index)
  then show ?case by (simp add: map_upt_Suc algebra_simps del: upt_Suc)
qed

lemma chunk_loop_bounds:
  assumes "0 < sd" "sd \<le> sz" "0 \<le> start" "start < int (length s)"
    and "c \<in> set (chunk_loop s sz sd start index)"
  shows "start \<le> c_start c \<and> c_start c < c_end c \<and> c_end c \<le> int (length s) \<and>
    c_end c - c_start c \<le> sz \<and> c_text c = slice s (c_start c) (c_end c)"
  using assms
proof (induction start index rule: chunk_loop_induct)
  case (tail start index)
  then show ?case by (simp add: slice_full)
next
  case (window start index)
  from window(5) consider "c = \<lparr>c_index = index, c_start = start, c_end = start + sz,
      c_text = slice s start (start + sz)\<rparr>" | "c \<in> set (chunk_loop s sz sd (start + sd) (index + 1))"
    using window(3) by auto
  then show ?case
  proof cases
    case 1
    with window assms(1,2) show ?thesis by simp
  next
    case 2
    with window(4) assms(1) show ?thesis by fastforce
  qed
qed

lemma chunk_loop_last:
  assumes "0 < sd" "sd \<le> sz" "0 \<le> start" "start < int (length s)"
  shows "c_end (last (chunk_loop s sz sd start index)) = int (length s)"
  using assms
proof (induction start index rule: chunk_loop_induct)
  case (window start index)
  then show ?case using chunk_loop_nonempty [of sd "start + sd" s sz "index + 1"] assms(1,2) by simp
qed simp

lemma chunk_loop_last_only:
  assumes "0 < sd" "sd \<le> sz" "0 \<le> start" "start < int (length s)"
  shows "\<forall>c \<in> set (butlast (chunk_loop s sz sd start index)). c_end c = c_start c + sz"
  using assms
proof (induction start index rule: chunk_loop_induct)
  case (window start index)
  then show ?case using chunk_loop_nonempty [of sd "start + sd" s sz "index + 1"] assms(1,2) by simp
qed simp

text \<open>
  The document a list of chunks stands for: the first chunk's text, then of each later chunk what
  lies beyond the \<open>overlap\<close> characters it shares with the one before.
\<close>

fun reassemble :: "int \<Rightarrow> chunk list \<Rightarrow> string" where
  "reassemble overlap [] = []"
| "reassemble overlap (c # cs) =
     c_text c @ concat (map (\<lambda>d. drop (nat overlap) (c_text d)) cs)"

lemma chunk_loop_reassemble_tails:
  assumes "0 < sd" "sd \<le> sz" "0 \<le> start" "start < int (length s)"
  shows "concat (map (\<lambda>c. drop (nat (sz - sd)) (c_text c)) (chunk_loop s sz sd start index)) =
    drop (nat (start + (sz - sd))) s"
  using assms
proof (induction start index rule: chunk_loop_induct)
  case (tail start index)
  then show ?case using assms(2) by (simp add: nat_add_distrib add.commute)
next
  case (window start index)
  then have "drop (nat (sz - sd)) (slice s start (start + sz)) = slice s (start + (sz - sd)) (start + sz)"
    using assms(2) by (intro drop_slice) auto
  with window assms(1,2) slice_append_drop [of "start + (sz - sd)" "start + sz" s]
  show ?case by simp
qed

lemma chunk_loop_reassemble:
  assumes "0 < sd" "sd \<le> sz" "s \<noteq> []"
  shows "reassemble (sz - sd) (chunk_loop s sz sd 0 index) = s"
proof -
  have "0 < int (length s)" using assms by simp
  with assms(1) show ?thesis
  proof (cases rule: chunk_loop_cases [of sd 0 s sz index])
    case tail
    then show ?thesis by simp
  next
    case window
    with assms chunk_loop_reassemble_tails [of sd sz sd s "index + 1"]
      slice_append_drop [of 0 sz s]
    show ?thesis by simp
  qed
qed

lemma div_step: "0 < b \<Longrightarrow> ((a::int) + b - 1) div b = (a - 1) div b + 1"
  using div_add_self2 [of b "a - 1"] by (simp add: algebra_simps)

lemma chunk_loop_length:
  assumes "0 < sd" "sd \<le> sz" "0 \<le> start" "start < int (length s)"
  shows "int (length (chunk_loop s sz sd start index)) =
    1 + (max 0 (int (length s) - start - sz) + sd - 1) div sd"
  using assms
proof (induction start index rule: chunk_loop_induct)
  case (tail start index)
  then show ?case using assms(1) by (simp add: max_def div_pos_pos_trivial)
next
  case (window start index)
  let ?m = "int (length s) - start - sz"
  have pos: "0 < ?m" using window by simp
  have "1 + (max 0 (?m - sd) + sd - 1) div sd = (?m + sd - 1) div sd"
  proof (cases "sd \<le> ?m")
    case True
    then show ?thesis using div_step [OF assms(1), of ?m] by (simp add: max_def)
  next
    case False
    moreover have "(?m - 1) div sd = 0" using pos False by (intro div_pos_pos_trivial) auto
    ultimately show ?thesis
      using div_step [OF assms(1), of ?m] assms(1) by (simp add: max_def div_pos_pos_trivial)
  qed
  with window pos show ?case by (simp add: max_def algebra_simps)
qed

text \<open>What a returned chunk list is.\<close>

lemma chunk_text_Inr:
  "chunk_text text sz ov = Inr cs \<longleftrightarrow>
     0 \<le> ov \<and> ov < sz \<and>
     cs = (if py_strip text = [] then [] else chunk_loop (py_strip text) sz (sz - ov) 0 0)"
  by (auto simp: chunk_text_def Let_def)

lemma chunk_text_params: "0 \<le> ov \<Longrightarrow> ov < sz \<Longrightarrow> 0 < sz - ov \<and> sz - ov \<le> (sz::int)"
  by simp

subsection \<open>Properties\<close>

text \<open>
  C40. No character of the document is lost, duplicated or reordered: whenever \<open>chunk_text\<close>
  returns, putting the first chunk and the non-overlapping rest of every later chunk together
  gives back exactly the stripped document.
\<close>

theorem chunk_text_reassembles:
  "chunk_text text sz ov = Inr cs \<Longrightarrow> reassemble ov cs = py_strip text"
proof -
  assume a: "chunk_text text sz ov = Inr cs"
  show ?thesis
  proof (cases "py_strip text = []")
    case True
    with a show ?thesis by (simp add: chunk_text_Inr)
  next
    case False
    then show ?thesis
      using a chunk_loop_reassemble [of "sz - ov" sz "py_strip text" 0] by (simp add: chunk_text_Inr)
  qed
qed

text \<open>A document and its chunks, used as the concrete input of the witnesses.\<close>

abbreviation sample_chunks :: "chunk list" where
  "sample_chunks \<equiv>
     [\<lparr>c_index = 0, c_start = 0, c_end = 4, c_text = ''abcd''\<rparr>,
      \<lparr>c_index = 1, c_start = 3, c_end = 7, c_text = ''defg''\<rparr>,
      \<lparr>c_index = 2, c_start = 6, c_end = 10, c_text = ''ghij''\<rparr>]"

lemma sample_chunk_text: "chunk_text '' abcdefghij '' 4 1 = Inr sample_chunks"
  by code_simp

theorem chunk_text_reassembles_witness:
  "chunk_text '' abcdefghij '' 4 1 = Inr sample_chunks \<and>
   reassemble 1 sample_chunks = py_strip '' abcdefghij ''"
  using chunk_text_reassembles [OF sample_chunk_text] sample_chunk_text by blast

text \<open>
  The layout of the chunks: they are numbered 0, 1, 2, ... in document order, chunk
  \<open>k\<close> starts at offset \<open>k * (size - overlap)\<close>, every chunk but the last is exactly
  \<open>size\<close> characters long, none is empty or longer, each carries the text between its offsets,
  and the last one ends at the end of the document.
\<close>

theorem chunk_text_layout:
  assumes "chunk_text text sz ov = Inr cs"
  shows "map c_index cs = map int [0..<length cs] \<and>
    map c_start cs = map (\<lambda>k. int k * (sz - ov)) [0..<length cs] \<and>
    (\<forall>c \<in> set (butlast cs). c_end c = c_start c + sz) \<and>
    (\<forall>c \<in> set cs. c_start c < c_end c \<and> c_end c \<le> c_start c + sz \<and>
       c_text c = slice (py_strip text) (c_start c) (c_end c)) \<and>
    (cs = [] \<longleftrightarrow> py_strip text = []) \<and>
    (cs \<noteq> [] \<longrightarrow> c_end (last cs) = int (length (py_strip text)))"
proof -
  let ?s = "py_strip text" and ?sd = "sz - ov"
  have p: "0 < ?sd" "?sd \<le> sz" and cs: "cs = (if ?s = [] then [] else chunk_loop ?s sz ?sd 0 0)"
    using assms by (auto simp: chunk_text_Inr)
  have "map c_index cs = map int [0..<length cs]"
    using chunk_loop_indices [OF p, of 0 ?s 0] by (simp add: cs)
  moreover have "map c_start cs = map (\<lambda>k. int k * ?sd) [0..<length cs]"
    using chunk_loop_starts [OF p, of 0 ?s 0] by (simp add: cs)
  moreover have "\<forall>c \<in> set (butlast cs). c_end c = c_start c + sz"
    using chunk_loop_last_only [OF p, of 0 ?s 0] by (simp add: cs)
  moreover have "\<forall>c \<in> set cs. c_start c < c_end c \<and> c_end c \<le> c_start c + sz \<and>
      c_text c = slice ?s (c_start c) (c_end c)"
  proof
    fix c assume "c \<in> set cs"
    then have "c \<in> set (chunk_loop ?s sz ?sd 0 0)" "0 < int (length ?s)"
      by (auto simp: cs split: if_splits)
    from chunk_loop_bounds [OF p _ this(2,1)]
    show "c_start c < c_end c \<and> c_end c \<le> c_start c + sz \<and> c_text c = slice ?s (c_start c) (c_end c)"
      by simp
  qed
  moreover have "cs = [] \<longleftrightarrow> ?s = []"
    using chunk_loop_nonempty [OF p(1), of 0 ?s sz 0] by (simp add: cs)
  moreover have "cs \<noteq> [] \<longrightarrow> c_end (last cs) = int (length ?s)"
    using chunk_loop_last [OF p, of 0 ?s 0] by (simp add: cs)
  ultimately show ?thesis by blast
qed

theorem chunk_text_layout_witness:
  "chunk_text '' abcdefghij '' 4 1 = Inr sample_chunks \<and>
   map c_index sample_chunks = map int [0..<length sample_chunks] \<and>
   c_end (last sample_chunks) = int (length (py_strip '' abcdefghij ''))"
  using chunk_text_layout [OF sample_chunk_text] sample_chunk_text by blast

text \<open>
  The number of chunks: one for a document that fits in a window, and one more for every
  started stride beyond it, so no redundant trailing window is emitted.
\<close>

theorem chunk_text_count:
  assumes "chunk_text text sz ov = Inr cs" and "py_strip text \<noteq> []"
  shows "int (length cs) =
    1 + (max 0 (int (length (py_strip text)) - sz) + (sz - ov) - 1) div (sz - ov)"
  using assms chunk_loop_length [of "sz - ov" sz 0 "py_strip text" 0] by (simp add: chunk_text_Inr)

theorem chunk_text_count_witness:
  "py_strip '' abcdefghij '' \<noteq> [] \<and>
   int (length sample_chunks) =
     1 + (max 0 (int (length (py_strip '' abcdefghij '')) - 4) + (4 - 1) - 1) div (4 - 1)"
proof -
  have "py_strip '' abcdefghij '' \<noteq> []" by code_simp
  with chunk_text_count [OF sample_chunk_text] show ?thesis by blast
qed

text \<open>
  \<open>chunk_text\<close> is total on valid arguments and rejects exactly the others: it raises
  \<open>ValueError\<close>, and nothing else, if and only if \<open>size\<close> is not positive or
  \<open>overlap\<close> is not in \<open>0 .. size - 1\<close>.
\<close>

theorem chunk_text_rejects_iff:
  "(\<exists>m. chunk_text text sz ov = Inl (ValueError m)) = (sz \<le> 0 \<or> ov < 0 \<or> sz \<le> ov) \<and>
   ((\<exists>cs. chunk_text text sz ov = Inr cs) = (0 < sz \<and> 0 \<le> ov \<and> ov < sz))"
  by (auto simp: chunk_text_def Let_def)

end
