(* ===== verification/Jobs.thy ===== *)
theory Jobs
  imports Exceptions
begin

section \<open>The job entity and its state machine (\<open>domain/models.py\<close>)\<close>

text \<open>
  \<open>InferenceJob\<close> is the record \<open>inference_job\<close>; a method that mutates the entity is a
  function from the entity to the mutated entity, or to the exception it raises (which leaves the
  entity as it was: \<open>_require\<close> raises before its first assignment).  The clock
  \<open>_utcnow()\<close> is the argument \<open>now\<close>, a number of microseconds since the epoch.
\<close>

record inference_job =
  j_type :: job_type
  j_payload :: pydict
  j_id :: uuid
  j_status :: job_status
  j_attempts :: int
  j_result_ref :: "string option"
  j_error :: "string option"
  j_duration_ms :: "int option"
  j_created_at :: int
  j_updated_at :: int

definition TERMINAL :: "job_status list" where
  "TERMINAL = [SUCCESS, FAILED]"

fun ALLOWED :: "job_status \<Rightarrow> job_status list" where
  "ALLOWED PENDING = [RUNNING]"
| "ALLOWED RUNNING = [SUCCESS, FAILED, PENDING]"
| "ALLOWED SUCCESS = []"
| "ALLOWED FAILED = []"

text \<open>
  \<open>InferenceJob.new\<close>: the fresh identifier of \<open>uuid.uuid4\<close> and the two reads of the clock are
  arguments.
\<close>

definition job_new :: "job_type \<Rightarrow> pydict \<Rightarrow> uuid \<Rightarrow> int \<Rightarrow> int \<Rightarrow> inference_job" where
  "job_new ty payload fresh created updated =
     \<lparr>j_type = ty, j_payload = payload, j_id = fresh, j_status = PENDING, j_attempts = 0,
      j_result_ref = None, j_error = None, j_duration_ms = None,
      j_created_at = created, j_updated_at = updated\<rparr>"

definition is_terminal :: "inference_job \<Rightarrow> bool" where
  "is_terminal j \<longleftrightarrow> j_status j \<in> set TERMINAL"

definition require :: "job_status \<Rightarrow> int \<Rightarrow> inference_job \<Rightarrow> exn + inference_job" where
  "require target now j =
     (if target \<notin> set (ALLOWED (j_status j)) then Inl (InvalidTransition (j_status j) target)
      else Inr (j\<lparr>j_status := target, j_updated_at := now\<rparr>))"

definition mark_running :: "int \<Rightarrow> inference_job \<Rightarrow> exn + inference_job" where
  "mark_running now j =
     (case require RUNNING now j of
        Inl e \<Rightarrow> Inl e
      | Inr j' \<Rightarrow> Inr (j'\<lparr>j_attempts := j_attempts j' + 1, j_error := None\<rparr>))"

definition mark_success ::
  "string \<Rightarrow> int option \<Rightarrow> int \<Rightarrow> inference_job \<Rightarrow> exn + inference_job" where
  "mark_success result_ref duration_ms now j =
     (case require SUCCESS now j of
        Inl e \<Rightarrow> Inl e
      | Inr j' \<Rightarrow>
          let j' = j'\<lparr>j_result_ref := Some result_ref\<rparr>
          in Inr (if duration_ms \<noteq> None then j'\<lparr>j_duration_ms := duration_ms\<rparr> else j'))"

definition mark_failed ::
  "string \<Rightarrow> int option \<Rightarrow> int \<Rightarrow> inference_job \<Rightarrow> exn + inference_job" where
  "mark_failed error duration_ms now j =
     (case require FAILED now j of
        Inl e \<Rightarrow> Inl e
      | Inr j' \<Rightarrow>
          let j' = j'\<lparr>j_error := Some error\<rparr>
          in Inr (if duration_ms \<noteq> None then j'\<lparr>j_duration_ms := duration_ms\<rparr> else j'))"

definition requeue :: "int \<Rightarrow> inference_job \<Rightarrow> exn + inference_job" where
  "requeue now j = require PENDING now j"

subsection \<open>Runs of the state machine\<close>

text \<open>
  A job's history: the method calls made on it, in order.  A call that raises leaves the entity
  as it was and the history goes on, so \<open>run_ops\<close> covers every sequence of calls.
\<close>

datatype job_op =
    MarkRunning int
  | MarkSuccess string "int option" int
  | MarkFailed string "int option" int
  | Requeue int

fun apply_op :: "job_op \<Rightarrow> inference_job \<Rightarrow> exn + inference_job" where
  "apply_op (MarkRunning now) j = mark_running now j"
| "apply_op (MarkSuccess ref dur now) j = mark_success ref dur now j"
| "apply_op (MarkFailed err dur now) j = mark_failed err dur now j"
| "apply_op (Requeue now) j = requeue now j"

definition after_op :: "job_op \<Rightarrow> inference_job \<Rightarrow> inference_job" where
  "after_op op j = (case apply_op op j of Inl e \<Rightarrow> j | Inr j' \<Rightarrow> j')"

fun run_ops :: "job_op list \<Rightarrow> inference_job \<Rightarrow> inference_job" where
  "run_ops [] j = j"
| "run_ops (op # ops) j = run_ops ops (after_op op j)"

text \<open>The number of calls of \<open>mark_running\<close> in a history that did start an execution.\<close>

fun starts :: "job_op list \<Rightarrow> inference_job \<Rightarrow> nat" where
  "starts [] j = 0"
| "starts (op # ops) j =
     (case op of MarkRunning now \<Rightarrow> if j_status j = PENDING then 1 else 0 | _ \<Rightarrow> 0) +
     starts ops (after_op op j)"

text \<open>
  The well-formedness invariant of the aggregate: a result reference exactly when the job
  succeeded, an error exactly when it failed, and at least one attempt once it has left
  \<open>PENDING\<close>.
\<close>

definition job_ok :: "inference_job \<Rightarrow> bool" where
  "job_ok j \<longleftrightarrow>
     (j_result_ref j \<noteq> None \<longleftrightarrow> j_status j = SUCCESS) \<and>
     (j_error j \<noteq> None \<longleftrightarrow> j_status j = FAILED) \<and>
     0 \<le> j_attempts j \<and> (j_status j \<noteq> PENDING \<longrightarrow> 1 \<le> j_attempts j)"

subsection \<open>Lemmas\<close>

named_theorems job_defs \<open>the transition methods\<close>

declare require_def [job_defs] mark_running_def [job_defs] mark_success_def [job_defs]
  mark_failed_def [job_defs] requeue_def [job_defs]

lemma is_terminal_iff: "is_terminal j \<longleftrightarrow> j_status j = SUCCESS \<or> j_status j = FAILED"
  by (auto simp: is_terminal_def TERMINAL_def)

text \<open>The terminal statuses are those without a successor, and only a start leads back into a run.\<close>

lemma transition_graph:
  "\<forall>s. s \<in> set TERMINAL \<longleftrightarrow> ALLOWED s = []"
  "\<forall>s t. t \<in> set (ALLOWED s) \<longrightarrow> s \<noteq> t \<and> (t = RUNNING \<longleftrightarrow> s = PENDING)"
  by code_simp+

lemma require_simps:
  "j_status j = PENDING \<Longrightarrow> require RUNNING now j = Inr (j\<lparr>j_status := RUNNING, j_updated_at := now\<rparr>)"
  "j_status j = RUNNING \<Longrightarrow> t \<noteq> RUNNING \<Longrightarrow> require t now j = Inr (j\<lparr>j_status := t, j_updated_at := now\<rparr>)"
  "is_terminal j \<Longrightarrow> require t now j = Inl (InvalidTransition (j_status j) t)"
  by (cases t; auto simp: require_def is_terminal_iff)+

text \<open>Each method succeeds in exactly one status.\<close>

lemma mark_running_Inr:
  "mark_running now j = Inr j' \<longleftrightarrow>
     j_status j = PENDING \<and>
     j' = j\<lparr>j_status := RUNNING, j_updated_at := now, j_attempts := j_attempts j + 1, j_error := None\<rparr>"
  by (cases "j_status j") (auto simp: job_defs)

lemma mark_running_Inl:
  "mark_running now j = Inl e \<longleftrightarrow> j_status j \<noteq> PENDING \<and> e = InvalidTransition (j_status j) RUNNING"
  by (cases "j_status j") (auto simp: job_defs)

lemma mark_success_Inr:
  "mark_success ref dur now j = Inr j' \<longleftrightarrow>
     j_status j = RUNNING \<and>
     j' = j\<lparr>j_status := SUCCESS, j_updated_at := now, j_result_ref := Some ref,
            j_duration_ms := (case dur of None \<Rightarrow> j_duration_ms j | Some d \<Rightarrow> Some d)\<rparr>"
  by (cases "j_status j"; cases dur) (auto simp: job_defs)

lemma mark_success_Inl:
  "mark_success ref dur now j = Inl e \<longleftrightarrow> j_status j \<noteq> RUNNING \<and> e = InvalidTransition (j_status j) SUCCESS"
  by (cases "j_status j") (auto simp: job_defs Let_def)

lemma mark_failed_Inr:
  "mark_failed err dur now j = Inr j' \<longleftrightarrow>
     j_status j = RUNNING \<and>
     j' = j\<lparr>j_status := FAILED, j_updated_at := now, j_error := Some err,
            j_duration_ms := (case dur of None \<Rightarrow> j_duration_ms j | Some d \<Rightarrow> Some d)\<rparr>"
  by (cases "j_status j"; cases dur) (auto simp: job_defs)

lemma mark_failed_Inl:
  "mark_failed err dur now j = Inl e \<longleftrightarrow> j_status j \<noteq> RUNNING \<and> e = InvalidTransition (j_status j) FAILED"
  by (cases "j_status j") (auto simp: job_defs Let_def)

lemma requeue_Inr:
  "requeue now j = Inr j' \<longleftrightarrow> j_status j = RUNNING \<and> j' = j\<lparr>j_status := PENDING, j_updated_at := now\<rparr>"
  by (cases "j_status j") (auto simp: job_defs)

lemma requeue_Inl:
  "requeue now j = Inl e \<longleftrightarrow> j_status j \<noteq> RUNNING \<and> e = InvalidTransition (j_status j) PENDING"
  by (cases "j_status j") (auto simp: job_defs)

lemmas job_op_Inr = mark_running_Inr mark_success_Inr mark_failed_Inr requeue_Inr
lemmas job_op_Inl = mark_running_Inl mark_success_Inl mark_failed_Inl requeue_Inl

lemma apply_op_edge: "apply_op op j = Inr j' \<Longrightarrow> j_status j' \<in> set (ALLOWED (j_status j))"
  by (cases op) (auto simp: job_op_Inr)

lemma apply_op_frame:
  "apply_op op j = Inr j' \<Longrightarrow>
   j_id j' = j_id j \<and> j_type j' = j_type j \<and> j_payload j' = j_payload j \<and>
   j_created_at j' = j_created_at j"
  by (cases op) (auto simp: job_op_Inr)

lemma apply_op_ok: "job_ok j \<Longrightarrow> apply_op op j = Inr j' \<Longrightarrow> job_ok j'"
  by (cases op) (auto simp: job_op_Inr job_ok_def)

lemma after_op_ok: "job_ok j \<Longrightarrow> job_ok (after_op op j)"
  by (auto simp: after_op_def split: sum.splits dest: apply_op_ok)

lemma run_ops_ok: "job_ok j \<Longrightarrow> job_ok (run_ops ops j)"
  by (induction ops arbitrary: j) (auto intro: after_op_ok)

lemma job_new_ok: "job_ok (job_new ty p i c u)"
  by (simp add: job_new_def job_ok_def)

lemma terminal_apply_op: "is_terminal j \<Longrightarrow> \<exists>t. apply_op op j = Inl (InvalidTransition (j_status j) t)"
  by (cases op) (auto simp: job_op_Inl is_terminal_iff)

lemma terminal_after_op: "is_terminal j \<Longrightarrow> after_op op j = j"
  using terminal_apply_op [of j op] by (auto simp: after_op_def)

lemma after_op_attempts:
  "j_attempts (after_op op j) =
     j_attempts j + (case op of MarkRunning now \<Rightarrow> if j_status j = PENDING then 1 else 0 | _ \<Rightarrow> 0)"
  by (cases op)
     (auto simp: after_op_def job_op_Inr job_op_Inl split: sum.splits)

subsection \<open>Properties\<close>

text \<open>
  Every history of method calls on a freshly created job, whatever calls are made and
  whichever of them raise, leaves an entity in which \<open>result_ref\<close> is set exactly in
  \<open>SUCCESS\<close>, \<open>error\<close> is set exactly in \<open>FAILED\<close>, and \<open>attempts\<close> is positive
  once the job has left \<open>PENDING\<close>.
\<close>

theorem job_history_well_formed: "job_ok (run_ops ops (job_new ty payload i created updated))"
  by (intro run_ops_ok job_new_ok)

text \<open>
  \<open>attempts\<close> always equals the number of times the job started executing: over any
  history of calls it grows by the number of successful \<open>mark_running\<close> calls, and by nothing
  else (in particular \<open>requeue\<close> does not bump it).
\<close>

theorem attempts_count_starts: "j_attempts (run_ops ops j) = j_attempts j + int (starts ops j)"
  by (induction ops arbitrary: j) (simp_all add: after_op_attempts split: job_op.splits)

text \<open>
  A terminal job can never transition again: every method raises \<open>InvalidTransition\<close> on
  it, so any history of calls leaves it exactly as it is.
\<close>

theorem terminal_is_final: "is_terminal j \<Longrightarrow> run_ops ops j = j"
  by (induction ops) (simp_all add: terminal_after_op)

theorem terminal_is_final_witness:
  "let j = \<lparr>j_type = RAG_QUERY, j_payload = [], j_id = 7, j_status = FAILED, j_attempts = 1,
            j_result_ref = None, j_error = Some ''boom'', j_duration_ms = None,
            j_created_at = 0, j_updated_at = 3\<rparr>
   in is_terminal j \<and> run_ops [Requeue 4, MarkRunning 5, MarkSuccess ''s3://b/k'' None 6] j = j"
  unfolding Let_def
  by (rule conjI, simp add: is_terminal_iff, rule terminal_is_final) (simp add: is_terminal_iff)

end
