(* ===== verification/Repository.thy ===== *)
theory Repository
  imports Jobs
begin

section \<open>The job store (\<open>ports/repository.py\<close>, \<open>persistence/tables.py\<close>, \<open>persistence/repository.py\<close>)\<close>

text \<open>
  Three layers.  The locale \<open>job_repository\<close> is the port: the three operations and what every client
  relies on, over an abstract content \<open>jobs d\<close>, a map from identifiers to jobs.
  \<open>repo_add\<close>, \<open>repo_get\<close> and \<open>repo_update\<close> are \<open>SqlAlchemyJobRepository\<close>, written
  over the four operations of a SQLAlchemy session that it calls (the record \<open>session\<close>: a parameter,
  since SQLAlchemy and PostgreSQL are not part of the repository).  The locale
  \<open>sqlalchemy_session\<close> states what is relied on of those: primary-key lookup, insert, merge, and
  \<open>session.begin()\<close>, which commits, or rolls back and raises.  The \<open>sublocale\<close> is the
  adapter's correctness: any such session makes the three methods a \<open>job_repository\<close>.

  \<open>table_session\<close> is the table \<open>jobs\<close> as \<open>tables.py\<close> declares it (primary key, the two
  \<open>CHECK\<close> constraints, the lengths of the \<open>String\<close> columns and the range of the
  \<open>Integer\<close> ones), with a schedule of operational faults, so that every database call may fail.
  The payload is stored as the dictionary it is.
\<close>

subsection \<open>The port\<close>

locale job_repository =
  fixes add :: "inference_job \<Rightarrow> ('d, unit) io"
    and get :: "uuid \<Rightarrow> ('d, inference_job) io"
    and update :: "inference_job \<Rightarrow> ('d, unit) io"
    and jobs :: "'d \<Rightarrow> uuid \<rightharpoonup> inference_job"
  assumes add_law: "add j d = (r, d') \<Longrightarrow>
      (case r of Inl e \<Rightarrow> jobs d' = jobs d \<and> \<not> is_domain_error e
       | Inr u \<Rightarrow> jobs d (j_id j) = None \<and> jobs d' = (jobs d)(j_id j \<mapsto> j))"
    and get_law: "get i d = (v, d') \<Longrightarrow>
      jobs d' = jobs d \<and>
      (case v of Inl e \<Rightarrow> \<not> is_domain_error e \<or> e = JobNotFound i \<and> jobs d i = None
       | Inr j \<Rightarrow> jobs d i = Some j \<and> j_id j = i)"
    and update_law: "update j d = (r, d') \<Longrightarrow>
      (case r of
         Inl e \<Rightarrow> jobs d' = jobs d \<and>
           (\<not> is_domain_error e \<or> e = JobNotFound (j_id j) \<and> jobs d (j_id j) = None)
       | Inr u \<Rightarrow> jobs d' = (jobs d)(j_id j \<mapsto> j))"
begin

text \<open>The laws as weakest preconditions, the form in which the clients use them.\<close>

lemma wp_add:
  assumes "jobs d (j_id j) = None \<Longrightarrow> (\<And>d'. jobs d' = (jobs d)(j_id j \<mapsto> j) \<Longrightarrow> Q () d')"
    and "\<And>e d'. jobs d' = jobs d \<Longrightarrow> \<not> is_domain_error e \<Longrightarrow> E e d'"
  shows "wpE (add j) Q E d"
  using assms add_law [of j d] by (fastforce intro!: wpE_I)

lemma wp_get:
  assumes "\<And>j d'. jobs d i = Some j \<Longrightarrow> j_id j = i \<Longrightarrow> jobs d' = jobs d \<Longrightarrow> Q j d'"
    and "\<And>d'. jobs d i = None \<Longrightarrow> jobs d' = jobs d \<Longrightarrow> E (JobNotFound i) d'"
    and "\<And>e d'. jobs d' = jobs d \<Longrightarrow> \<not> is_domain_error e \<Longrightarrow> E e d'"
  shows "wpE (get i) Q E d"
  using assms get_law [of i d] by (fastforce intro!: wpE_I)

lemma wp_update:
  assumes "\<And>d'. jobs d' = (jobs d)(j_id j \<mapsto> j) \<Longrightarrow> Q () d'"
    and "\<And>d'. jobs d (j_id j) = None \<Longrightarrow> jobs d' = jobs d \<Longrightarrow> E (JobNotFound (j_id j)) d'"
    and "\<And>e d'. jobs d' = jobs d \<Longrightarrow> \<not> is_domain_error e \<Longrightarrow> E e d'"
  shows "wpE (update j) Q E d"
  using assms update_law [of j d] by (fastforce intro!: wpE_I)

end

subsection \<open>Rows\<close>

record job_row =
  r_id :: uuid
  r_type :: string
  r_status :: string
  r_payload :: pydict
  r_result_ref :: "string option"
  r_error :: "string option"
  r_attempts :: int
  r_created_at :: int
  r_updated_at :: int
  r_duration_ms :: "int option"

definition to_row :: "inference_job \<Rightarrow> job_row" where
  "to_row job =
     \<lparr>r_id = j_id job, r_type = type_value (j_type job), r_status = status_value (j_status job),
      r_payload = j_payload job, r_result_ref = j_result_ref job, r_error = j_error job,
      r_attempts = j_attempts job, r_created_at = j_created_at job,
      r_updated_at = j_updated_at job, r_duration_ms = j_duration_ms job\<rparr>"

definition to_domain :: "job_row \<Rightarrow> exn + inference_job" where
  "to_domain row =
     (case type_of_value (r_type row) of
        None \<Rightarrow> Inl (ValueError (py_repr_str (r_type row) @ '' is not a valid JobType''))
      | Some ty \<Rightarrow>
          (case status_of_value (r_status row) of
             None \<Rightarrow> Inl (ValueError (py_repr_str (r_status row) @ '' is not a valid JobStatus''))
           | Some st \<Rightarrow>
               Inr \<lparr>j_type = ty, j_payload = r_payload row, j_id = r_id row, j_status = st,
                    j_attempts = r_attempts row, j_result_ref = r_result_ref row,
                    j_error = r_error row, j_duration_ms = r_duration_ms row,
                    j_created_at = r_created_at row, j_updated_at = r_updated_at row\<rparr>))"

text \<open>The content of the store as jobs.\<close>

definition jobs_of :: "(uuid \<rightharpoonup> job_row) \<Rightarrow> uuid \<rightharpoonup> inference_job" where
  "jobs_of rows i =
     (case rows i of
        None \<Rightarrow> None
      | Some row \<Rightarrow> (case to_domain row of Inl e \<Rightarrow> None | Inr j \<Rightarrow> Some j))"

definition stored :: "('d \<Rightarrow> uuid \<rightharpoonup> job_row) \<Rightarrow> 'd \<Rightarrow> uuid \<rightharpoonup> inference_job" where
  "stored rows d = jobs_of (rows d)"

subsection \<open>\<open>SqlAlchemyJobRepository\<close>\<close>

record 'd session =
  s_begin :: "('d, unit) io \<Rightarrow> ('d, unit) io"
  s_get :: "uuid \<Rightarrow> ('d, job_row option) io"
  s_add :: "job_row \<Rightarrow> ('d, unit) io"
  s_merge :: "job_row \<Rightarrow> ('d, unit) io"

definition repo_add :: "'d session \<Rightarrow> inference_job \<Rightarrow> ('d, unit) io" where
  "repo_add session job = s_begin session (s_add session (to_row job))"

definition repo_get :: "'d session \<Rightarrow> uuid \<Rightarrow> ('d, inference_job) io" where
  "repo_get session job_id =
     bindE (s_get session job_id) (\<lambda>row.
       case row of
         None \<Rightarrow> raiseE (JobNotFound job_id)
       | Some row \<Rightarrow> liftE (to_domain row))"

definition repo_update :: "'d session \<Rightarrow> inference_job \<Rightarrow> ('d, unit) io" where
  "repo_update session job =
     s_begin session
       (bindE (s_get session (j_id job)) (\<lambda>exists.
          case exists of
            None \<Rightarrow> raiseE (JobNotFound (j_id job))
          | Some row \<Rightarrow> s_merge session (to_row job)))"

text \<open>The object as its clients hold it: its three methods.\<close>

record 'd repository =
  rp_add :: "inference_job \<Rightarrow> ('d, unit) io"
  rp_get :: "uuid \<Rightarrow> ('d, inference_job) io"
  rp_update :: "inference_job \<Rightarrow> ('d, unit) io"

definition sql_repository :: "'d session \<Rightarrow> 'd repository" where
  "sql_repository session =
     \<lparr>rp_add = repo_add session, rp_get = repo_get session, rp_update = repo_update session\<rparr>"

text \<open>
  The idiom of the processor and of the consumer's helpers: \<open>try: job = await repo.get(id)\<close>,
  \<open>except JobNotFound\<close> the caller treats the row as absent.
\<close>

definition get_or_none :: "'d repository \<Rightarrow> uuid \<Rightarrow> ('d, inference_job option) io" where
  "get_or_none repo job_id =
     tryElse (rp_get repo job_id)
       (\<lambda>exc. case exc of JobNotFound i \<Rightarrow> ret None | _ \<Rightarrow> raiseE exc)
       (\<lambda>job. ret (Some job))"

context job_repository
begin

lemma wp_load:
  assumes repo: "rp_get repo = get"
    and "jobs d i = None \<Longrightarrow> (\<And>d'. jobs d' = jobs d \<Longrightarrow> Q None d')"
    and "\<And>j d'. jobs d i = Some j \<Longrightarrow> j_id j = i \<Longrightarrow> jobs d' = jobs d \<Longrightarrow> Q (Some j) d'"
    and "\<And>e d'. jobs d' = jobs d \<Longrightarrow> \<not> is_domain_error e \<Longrightarrow> E e d'"
  shows "wpE (get_or_none repo i) Q E d"
  unfolding get_or_none_def wp repo
  by (rule wp_get) (use assms in \<open>auto simp: wp split: exn.splits\<close>)

end

subsection \<open>The table \<open>jobs\<close>\<close>

record jobs_db =
  db_rows :: "job_row list"
  db_faults :: "sdk_error option list"

definition fits :: "nat \<Rightarrow> string option \<Rightarrow> bool" where
  "fits n v = (case v of None \<Rightarrow> True | Some s \<Rightarrow> length s \<le> n)"

definition int4 :: "int \<Rightarrow> bool" where
  "int4 n \<longleftrightarrow> - (2 ^ 31) \<le> n \<and> n < 2 ^ 31"

definition row_fits :: "job_row \<Rightarrow> bool" where
  "row_fits row \<longleftrightarrow>
     r_status row \<in> {''pending'', ''running'', ''success'', ''failed''} \<and>
     r_type row \<in> {''rag_query'', ''embed_document''} \<and>
     length (r_type row) \<le> 32 \<and> length (r_status row) \<le> 16 \<and>
     fits 512 (r_result_ref row) \<and> fits 2048 (r_error row) \<and>
     int4 (r_attempts row) \<and> (case r_duration_ms row of None \<Rightarrow> True | Some n \<Rightarrow> int4 n)"

definition db_lookup :: "job_row list \<Rightarrow> uuid \<Rightarrow> job_row option" where
  "db_lookup rows i = find (\<lambda>row. r_id row = i) rows"

definition db_error :: "string \<Rightarrow> string \<Rightarrow> exn" where
  "db_error name text =
     SdkError \<lparr>sdk_mro = [''sqlalchemy.exc.'' @ name, ''sqlalchemy.exc.DBAPIError'',
                          ''sqlalchemy.exc.SQLAlchemyError''],
               sdk_name = name, sdk_text = text, sdk_repr = name @ ''('' @ py_repr_str text @ '')'',
               sdk_status = None, sdk_response_status = None,
               sdk_client_response = \<lparr>cr_code = None, cr_message = None, cr_status = None\<rparr>\<rparr>"

text \<open>One round trip to the server: it fails if the schedule says so.\<close>

definition statement :: "(jobs_db, 'a) io \<Rightarrow> (jobs_db, 'a) io" where
  "statement m d =
     (case db_faults d of
        [] \<Rightarrow> m d
      | f # fs \<Rightarrow>
          (case f of
             None \<Rightarrow> m (d\<lparr>db_faults := fs\<rparr>)
           | Some x \<Rightarrow> (Inl (SdkError x), d\<lparr>db_faults := fs\<rparr>)))"

definition table_insert :: "job_row \<Rightarrow> (jobs_db, unit) io" where
  "table_insert row d =
     (if db_lookup (db_rows d) (r_id row) \<noteq> None
      then (Inl (db_error ''IntegrityError'' ''duplicate key value violates unique constraint''), d)
      else if \<not> row_fits row
      then (Inl (db_error ''DBAPIError'' ''value too long, out of range or constraint violated''), d)
      else (Inr (), d\<lparr>db_rows := row # db_rows d\<rparr>))"

definition table_merge :: "job_row \<Rightarrow> (jobs_db, unit) io" where
  "table_merge row d =
     (if \<not> row_fits row
      then (Inl (db_error ''DBAPIError'' ''value too long, out of range or constraint violated''), d)
      else (Inr (), d\<lparr>db_rows := row # filter (\<lambda>r. r_id r \<noteq> r_id row) (db_rows d)\<rparr>))"

text \<open>\<open>session.begin()\<close>: commit when the block ends, roll back when it or the commit raises.\<close>

definition transaction :: "(jobs_db, unit) io \<Rightarrow> (jobs_db, unit) io" where
  "transaction m d =
     (case bindE m (\<lambda>u. statement (ret u)) d of
        (Inr u, d') \<Rightarrow> (Inr u, d')
      | (Inl e, d') \<Rightarrow> (Inl e, d'\<lparr>db_rows := db_rows d\<rparr>))"

definition table_session :: "jobs_db session" where
  "table_session =
     \<lparr>s_begin = transaction,
      s_get = (\<lambda>i. statement (getE (\<lambda>d. db_lookup (db_rows d) i))),
      s_add = (\<lambda>row. statement (table_insert row)),
      s_merge = (\<lambda>row. statement (table_merge row))\<rparr>"

definition table_jobs :: "jobs_db \<Rightarrow> uuid \<rightharpoonup> inference_job" where
  "table_jobs d = jobs_of (db_lookup (db_rows d))"

subsection \<open>What a session promises, and the adapter's correctness\<close>

locale sqlalchemy_session =
  fixes sess :: "'d session" and rows :: "'d \<Rightarrow> uuid \<rightharpoonup> job_row"
  assumes row_key: "rows d i = Some row \<Longrightarrow> r_id row = i"
    and s_get_law: "s_get sess i d = (v, d') \<Longrightarrow>
      rows d' = rows d \<and> (case v of Inl e \<Rightarrow> \<exists>x. e = SdkError x | Inr found \<Rightarrow> found = rows d i)"
    and s_add_law: "s_add sess row d = (r, d') \<Longrightarrow>
      (case r of Inl e \<Rightarrow> rows d' = rows d \<and> (\<exists>x. e = SdkError x)
       | Inr u \<Rightarrow> rows d (r_id row) = None \<and> rows d' = (rows d)(r_id row \<mapsto> row))"
    and s_merge_law: "s_merge sess row d = (r, d') \<Longrightarrow>
      (case r of Inl e \<Rightarrow> rows d' = rows d \<and> (\<exists>x. e = SdkError x)
       | Inr u \<Rightarrow> rows d' = (rows d)(r_id row \<mapsto> row))"
    and s_begin_law: "s_begin sess m d = (r, d') \<Longrightarrow>
      (\<exists>x. r = Inl (SdkError x) \<and> rows d' = rows d) \<or>
      (\<exists>e d1. m d = (Inl e, d1) \<and> r = Inl e \<and> rows d' = rows d) \<or>
      (\<exists>d1. m d = (Inr (), d1) \<and> r = Inr () \<and> rows d' = rows d1)"
begin

lemma jobs_of_upd: "rows d' = (rows d)(j_id j \<mapsto> to_row j) \<Longrightarrow>
    jobs_of (rows d') = (jobs_of (rows d))(j_id j \<mapsto> j)"
  by (auto simp: jobs_of_def to_domain_def to_row_def)

lemma add_correct:
  assumes "repo_add sess j d = (r, d')"
  shows "case r of Inl e \<Rightarrow> jobs_of (rows d') = jobs_of (rows d) \<and> \<not> is_domain_error e
    | Inr u \<Rightarrow> jobs_of (rows d) (j_id j) = None \<and> jobs_of (rows d') = (jobs_of (rows d))(j_id j \<mapsto> j)"
proof -
  have id: "r_id (to_row j) = j_id j" by (simp add: to_row_def)
  from s_begin_law [OF assms [unfolded repo_add_def]] consider
      x where "r = Inl (SdkError x)" "rows d' = rows d"
    | e d1 where "s_add sess (to_row j) d = (Inl e, d1)" "r = Inl e" "rows d' = rows d"
    | d1 where "s_add sess (to_row j) d = (Inr (), d1)" "r = Inr ()" "rows d' = rows d1" by blast
  then show ?thesis
  proof cases
    case 1 then show ?thesis by simp
  next
    case 2 then show ?thesis using s_add_law [OF 2(1)] by auto
  next
    case 3
    with s_add_law [OF 3(1)] id have "rows d (j_id j) = None" "rows d' = (rows d)(j_id j \<mapsto> to_row j)"
      by auto
    with 3 show ?thesis using jobs_of_upd [of d' d j] by (simp add: jobs_of_def)
  qed
qed

lemma get_correct:
  assumes "repo_get sess i d = (r, d')"
  shows "jobs_of (rows d') = jobs_of (rows d) \<and>
    (case r of Inl e \<Rightarrow> \<not> is_domain_error e \<or> e = JobNotFound i \<and> jobs_of (rows d) i = None
     | Inr j \<Rightarrow> jobs_of (rows d) i = Some j \<and> j_id j = i)"
proof -
  obtain v d1 where g: "s_get sess i d = (v, d1)" by (cases "s_get sess i d")
  from s_get_law [OF g] row_key [of d i] assms g show ?thesis
    by (auto simp: repo_get_def bindE_def raiseE_def liftE_def jobs_of_def to_domain_def
        split: sum.splits option.splits)
qed

lemma update_correct:
  assumes "repo_update sess j d = (r, d')"
  shows "case r of
      Inl e \<Rightarrow> jobs_of (rows d') = jobs_of (rows d) \<and>
        (\<not> is_domain_error e \<or> e = JobNotFound (j_id j) \<and> jobs_of (rows d) (j_id j) = None)
    | Inr u \<Rightarrow> jobs_of (rows d') = (jobs_of (rows d))(j_id j \<mapsto> j)"
proof -
  let ?m = "bindE (s_get sess (j_id j)) (\<lambda>v. case v of None \<Rightarrow> raiseE (JobNotFound (j_id j))
      | Some row \<Rightarrow> s_merge sess (to_row j))"
  have id: "r_id (to_row j) = j_id j" by (simp add: to_row_def)
  obtain v d1 where g: "s_get sess (j_id j) d = (v, d1)" by (cases "s_get sess (j_id j) d")
  note gl = s_get_law [OF g]
  from s_begin_law [OF assms [unfolded repo_update_def]] consider
      x where "r = Inl (SdkError x)" "rows d' = rows d"
    | e d2 where "?m d = (Inl e, d2)" "r = Inl e" "rows d' = rows d"
    | d2 where "?m d = (Inr (), d2)" "r = Inr ()" "rows d' = rows d2" by blast
  then show ?thesis
  proof cases
    case 1 then show ?thesis by simp
  next
    case 2
    with g gl have "(\<exists>x. e = SdkError x) \<or> e = JobNotFound (j_id j) \<and> rows d (j_id j) = None"
      using s_merge_law [of "to_row j" d1]
      by (fastforce simp: bindE_def raiseE_def split: sum.splits option.splits)
    with 2 show ?thesis by (auto simp: jobs_of_def)
  next
    case 3
    with g gl have "s_merge sess (to_row j) d1 = (Inr (), d2)"
      by (auto simp: bindE_def raiseE_def split: sum.splits option.splits)
    from s_merge_law [OF this] gl 3 id have "rows d' = (rows d)(j_id j \<mapsto> to_row j)" by auto
    with 3 show ?thesis using jobs_of_upd [of d' d j] by simp
  qed
qed

lemma update_existing:
  assumes "repo_update sess j d = (Inr u, d')"
  shows "rows d (j_id j) \<noteq> None"
proof -
  obtain v d1 where g: "s_get sess (j_id j) d = (v, d1)" by (cases "s_get sess (j_id j) d")
  from s_begin_law [OF assms [unfolded repo_update_def]] s_get_law [OF g] g show ?thesis
    by (auto simp: bindE_def raiseE_def split: sum.splits option.splits)
qed

end

sublocale sqlalchemy_session \<subseteq> repo: job_repository "repo_add sess" "repo_get sess" "repo_update sess"
    "\<lambda>d. jobs_of (rows d)"
  by unfold_locales (rule add_correct get_correct update_correct; assumption)+

text \<open>The table of \<open>tables.py\<close> is such a session, so the repository over it is a \<open>job_repository\<close>.\<close>

lemma db_lookup_filter: "db_lookup (row # filter (\<lambda>r. r_id r \<noteq> r_id row) rs) = (db_lookup rs)(r_id row \<mapsto> row)"
proof
  fix i
  have "find (\<lambda>r. r_id r = i) (filter (\<lambda>r. r_id r \<noteq> r_id row) rs) = find (\<lambda>r. r_id r = i) rs"
    if "i \<noteq> r_id row" using that by (induction rs) auto
  then show "db_lookup (row # filter (\<lambda>r. r_id r \<noteq> r_id row) rs) i = ((db_lookup rs)(r_id row \<mapsto> row)) i"
    by (simp add: db_lookup_def)
qed

lemma db_lookup_Cons: "db_lookup (row # rs) = (db_lookup rs)(r_id row \<mapsto> row)"
  by (auto simp: db_lookup_def)

lemma db_lookup_key: "db_lookup rs i = Some row \<Longrightarrow> r_id row = i"
  by (auto simp: db_lookup_def find_Some_iff)

lemmas table_defs = table_session_def statement_def table_insert_def table_merge_def getE_def

interpretation pg: sqlalchemy_session table_session "\<lambda>d. db_lookup (db_rows d)"
proof unfold_locales
  fix d :: jobs_db and d' and i and row and v and r :: "exn + unit" and m
  show "db_lookup (db_rows d) i = Some row \<Longrightarrow> r_id row = i" by (rule db_lookup_key)
  show "s_get table_session i d = (v, d') \<Longrightarrow>
      db_lookup (db_rows d') = db_lookup (db_rows d) \<and>
      (case v of Inl e \<Rightarrow> \<exists>x. e = SdkError x | Inr found \<Rightarrow> found = db_lookup (db_rows d) i)"
    by (auto simp: table_defs split: list.splits option.splits)
  show "s_add table_session row d = (r, d') \<Longrightarrow>
      case r of Inl e \<Rightarrow> db_lookup (db_rows d') = db_lookup (db_rows d) \<and> (\<exists>x. e = SdkError x)
      | Inr u \<Rightarrow> db_lookup (db_rows d) (r_id row) = None \<and>
          db_lookup (db_rows d') = (db_lookup (db_rows d))(r_id row \<mapsto> row)"
    by (auto simp: table_defs db_error_def db_lookup_Cons split: list.splits option.splits if_splits)
  show "s_merge table_session row d = (r, d') \<Longrightarrow>
      case r of Inl e \<Rightarrow> db_lookup (db_rows d') = db_lookup (db_rows d) \<and> (\<exists>x. e = SdkError x)
      | Inr u \<Rightarrow> db_lookup (db_rows d') = (db_lookup (db_rows d))(r_id row \<mapsto> row)"
    by (auto simp: table_defs db_error_def db_lookup_filter split: list.splits option.splits if_splits)
  show "s_begin table_session m d = (r, d') \<Longrightarrow>
      (\<exists>x. r = Inl (SdkError x) \<and> db_lookup (db_rows d') = db_lookup (db_rows d)) \<or>
      (\<exists>e d1. m d = (Inl e, d1) \<and> r = Inl e \<and> db_lookup (db_rows d') = db_lookup (db_rows d)) \<or>
      (\<exists>d1. m d = (Inr (), d1) \<and> r = Inr () \<and> db_lookup (db_rows d') = db_lookup (db_rows d1))"
    by (auto simp: table_session_def transaction_def statement_def bindE_def ret_def
        split: prod.splits sum.splits list.splits option.splits)
qed

lemma sql_repository_simps [simp]:
  "rp_add (sql_repository s) = repo_add s" "rp_get (sql_repository s) = repo_get s"
  "rp_update (sql_repository s) = repo_update s"
  by (simp_all add: sql_repository_def)

abbreviation pg_repo :: "jobs_db repository" where
  "pg_repo \<equiv> sql_repository table_session"

lemma sql_job_repository:
  assumes "sqlalchemy_session sess rows"
  shows "job_repository (rp_add (sql_repository sess)) (rp_get (sql_repository sess))
    (rp_update (sql_repository sess)) (stored rows)"
proof -
  have "job_repository (repo_add sess) (repo_get sess) (repo_update sess) (\<lambda>d. jobs_of (rows d))"
    by unfold_locales (rule sqlalchemy_session.add_correct [OF assms] sqlalchemy_session.get_correct [OF assms]
        sqlalchemy_session.update_correct [OF assms]; assumption)+
  then show ?thesis by (simp add: stored_def [abs_def])
qed

lemma stored_table [simp]: "stored (\<lambda>d. db_lookup (db_rows d)) = table_jobs"
  by (simp add: fun_eq_iff stored_def table_jobs_def)

interpretation pg_repo: job_repository "rp_add pg_repo" "rp_get pg_repo" "rp_update pg_repo" table_jobs
  unfolding sql_repository_simps table_jobs_def by (rule pg.repo.job_repository_axioms)

lemma row_fits_to_row:
  "row_fits (to_row j) \<longleftrightarrow>
      fits 512 (j_result_ref j) \<and> fits 2048 (j_error j) \<and> int4 (j_attempts j) \<and>
      (\<forall>n \<in> set_option (j_duration_ms j). int4 n)"
proof -
  have "status_value (j_status j) \<in> {''pending'', ''running'', ''success'', ''failed''}"
    "length (status_value (j_status j)) \<le> 16" by (cases "j_status j"; simp)+
  moreover have "type_value (j_type j) \<in> {''rag_query'', ''embed_document''}"
    "length (type_value (j_type j)) \<le> 32" by (cases "j_type j"; simp)+
  ultimately show ?thesis
    by (simp only: row_fits_def to_row_def job_row.simps) (simp split: option.splits)
qed

text \<open>Without faults the calls go through.\<close>

lemma table_jobs_lookup:
  "table_jobs d i = Some j \<Longrightarrow> \<exists>row. db_lookup (db_rows d) i = Some row \<and> to_domain row = Inr j"
  by (auto simp: table_jobs_def jobs_of_def split: option.splits sum.splits)

lemma pg_get_found:
  "db_faults d = [] \<Longrightarrow> table_jobs d i = Some j \<Longrightarrow> repo_get table_session i d = (Inr j, d)"
  by (auto simp: repo_get_def table_defs bindE_def liftE_def dest!: table_jobs_lookup)

lemma pg_get_missing:
  "db_faults d = [] \<Longrightarrow> db_lookup (db_rows d) i = None \<Longrightarrow>
   repo_get table_session i d = (Inl (JobNotFound i), d)"
  by (simp add: repo_get_def table_defs bindE_def raiseE_def)

lemma pg_update_ok:
  assumes "db_faults d = []" "db_lookup (db_rows d) (j_id j) \<noteq> None" "row_fits (to_row j)"
  obtains d' where "repo_update table_session j d = (Inr (), d')" "db_faults d' = []"
    "table_jobs d' = (table_jobs d)(j_id j \<mapsto> j)"
proof -
  obtain d' where d': "repo_update table_session j d = (Inr (), d')" "db_faults d' = []"
    using assms by (auto simp: repo_update_def transaction_def table_defs bindE_def ret_def)
  then show ?thesis using that pg.update_correct [OF d'(1)] by (simp add: table_jobs_def)
qed

lemma pg_update_too_long:
  assumes "db_faults d = []" "db_lookup (db_rows d) (j_id j) \<noteq> None" "\<not> row_fits (to_row j)"
  shows "\<exists>x. repo_update table_session j d = (Inl (SdkError x), d)"
  using assms by (auto simp: repo_update_def transaction_def table_defs bindE_def ret_def db_error_def)

subsection \<open>Properties\<close>

text \<open>
  C32. The mapping boundary loses nothing: a job written as a row is read back as the same job, the
  enum values of every job pass the table's \<open>CHECK\<close> constraints and column widths, and a row that does
  not name a known type and status is rejected with a \<open>ValueError\<close> instead of being misread.
\<close>

theorem row_round_trip:
  "to_domain (to_row j) = Inr j \<and>
   (row_fits (to_row j) \<longleftrightarrow>
      fits 512 (j_result_ref j) \<and> fits 2048 (j_error j) \<and> int4 (j_attempts j) \<and>
      (\<forall>n \<in> set_option (j_duration_ms j). int4 n)) \<and>
   (case to_domain row of
      Inl e \<Rightarrow> (\<exists>m. e = ValueError m) \<and> \<not> row_fits row
    | Inr j' \<Rightarrow> to_row j' = row)"
proof (intro conjI)
  show "to_domain (to_row j) = Inr j" by (simp add: to_domain_def to_row_def)
  show "row_fits (to_row j) \<longleftrightarrow>
      fits 512 (j_result_ref j) \<and> fits 2048 (j_error j) \<and> int4 (j_attempts j) \<and>
      (\<forall>n \<in> set_option (j_duration_ms j). int4 n)"
    by (rule row_fits_to_row)
  have t: "type_of_value (r_type row) = None \<Longrightarrow> r_type row \<notin> {''rag_query'', ''embed_document''}"
    by (auto simp: type_of_value_def)
  have s: "status_of_value (r_status row) = None \<Longrightarrow>
      r_status row \<notin> {''pending'', ''running'', ''success'', ''failed''}"
    by (auto simp: status_of_value_def)
  show "case to_domain row of Inl e \<Rightarrow> (\<exists>m. e = ValueError m) \<and> \<not> row_fits row
    | Inr j' \<Rightarrow> to_row j' = row"
    using t s by (simp add: to_domain_def to_row_def row_fits_def type_of_value_Some status_of_value_Some
        split: option.split)
qed

text \<open>A success row and one with a status outside the enumeration.\<close>

theorem row_round_trip_witness:
  "(let row = \<lparr>r_id = 1, r_type = ''rag_query'', r_status = ''done'', r_payload = [], r_result_ref = None,
              r_error = None, r_attempts = 0, r_created_at = 0, r_updated_at = 0, r_duration_ms = Some 5\<rparr>;
        j = \<lparr>j_type = EMBED_DOCUMENT, j_payload = [(''k'', PInt 1)], j_id = 9, j_status = RUNNING,
             j_attempts = 1, j_result_ref = None, j_error = None, j_duration_ms = Some 5,
             j_created_at = 1, j_updated_at = 2\<rparr>
    in to_domain (to_row j) = Inr j \<and> int4 5 \<and> row_fits (to_row j))"
proof -
  define j where "j = \<lparr>j_type = EMBED_DOCUMENT, j_payload = [(''k'', PInt 1)], j_id = 9,
    j_status = RUNNING, j_attempts = 1, j_result_ref = None, j_error = None, j_duration_ms = Some 5,
    j_created_at = 1, j_updated_at = 2\<rparr>"
  have "fits 512 (j_result_ref j)" "fits 2048 (j_error j)" "int4 (j_attempts j)"
    "\<forall>n \<in> set_option (j_duration_ms j). int4 n"
    by (simp_all add: j_def fits_def int4_def)
  with row_round_trip [of j] show ?thesis by (simp add: int4_def Let_def flip: j_def)
qed



end
