(* ===== verification/Messages.thy ===== *)
theory Messages
  imports Jobs Settings
begin

section \<open>Broker names and the wire message (\<open>broker/keys.py\<close>, \<open>broker/messages.py\<close>)\<close>

text \<open>
  A stream entry's keys and values arrive from redis-py as \<open>bytes\<close> or, with
  \<open>decode_responses=True\<close>, as \<open>str\<close>: the type \<open>wire\<close>.  \<open>carries w s\<close> says that the wire
  value \<open>w\<close> is one of the two forms of the text \<open>s\<close>.
\<close>

datatype wire = WBytes string | WStr string

type_synonym wire_fields = "(wire \<times> wire) list"

text \<open>
  \<open>_as_str\<close>, which is also the consumer's \<open>_decode\<close> and the producer's \<open>_decode_id\<close>.
\<close>

fun as_str :: "wire \<Rightarrow> exn + string" where
  "as_str (WBytes b) =
     (case utf8_decode b of
        None \<Rightarrow> Inl (UnicodeDecodeError ''utf-8 codec cannot decode bytes'')
      | Some s \<Rightarrow> Inr s)"
| "as_str (WStr s) = Inr s"

definition carries :: "wire \<Rightarrow> string \<Rightarrow> bool" where
  "carries w s \<longleftrightarrow> w = WStr s \<or> w = WBytes (utf8_encode s)"

subsection \<open>Names\<close>

record broker_keys =
  k_stream :: string
  k_group :: string
  k_dlq :: string

definition keys_from_settings :: "broker_settings \<Rightarrow> broker_keys" where
  "keys_from_settings s = \<lparr>k_stream = bs_stream s, k_group = bs_group s, k_dlq = bs_dlq s\<rparr>"

text \<open>
  \<open>make_consumer_name\<close>: the host name, the process id and the 24 random bits of
  \<open>secrets.token_hex(3)\<close> are arguments.
\<close>

definition make_consumer_name :: "string \<Rightarrow> nat \<Rightarrow> nat \<Rightarrow> string" where
  "make_consumer_name host pid rand = host @ ''-'' @ py_str_int (int pid) @ ''-'' @ hex_pad 6 rand"

subsection \<open>\<open>JobMessage\<close>\<close>

record job_message =
  m_job_id :: uuid
  m_job_type :: job_type
  m_attempt :: int

definition to_fields :: "job_message \<Rightarrow> (string \<times> string) list" where
  "to_fields m =
     [(''job_id'', uuid_str (m_job_id m)), (''job_type'', type_value (m_job_type m)),
      (''attempt'', py_str_int (m_attempt m))]"

text \<open>
  \<open>{_as_str(k): _as_str(v) for k, v in fields.items()}\<close>: it stops at the first value that does
  not decode, and a later item overwrites an earlier one with the same key.
\<close>

fun decode_items :: "wire_fields \<Rightarrow> (string \<rightharpoonup> string) \<Rightarrow> exn + (string \<rightharpoonup> string)" where
  "decode_items [] d = Inr d"
| "decode_items ((k, v) # items) d =
     (case as_str k of
        Inl e \<Rightarrow> Inl e
      | Inr k' \<Rightarrow>
          (case as_str v of
             Inl e \<Rightarrow> Inl e
           | Inr v' \<Rightarrow> decode_items items (d(k' \<mapsto> v'))))"

definition read_job_id :: "(string \<rightharpoonup> string) \<Rightarrow> exn + uuid" where
  "read_job_id d =
     (case d ''job_id'' of
        None \<Rightarrow> Inl (KeyError ''job_id'')
      | Some s \<Rightarrow> (case uuid_parse s of None \<Rightarrow> Inl (ValueError (uuid_error s)) | Some u \<Rightarrow> Inr u))"

definition read_job_type :: "(string \<rightharpoonup> string) \<Rightarrow> exn + job_type" where
  "read_job_type d =
     (case d ''job_type'' of
        None \<Rightarrow> Inl (KeyError ''job_type'')
      | Some s \<Rightarrow>
          (case type_of_value s of
             None \<Rightarrow> Inl (ValueError (py_repr_str s @ '' is not a valid JobType''))
           | Some t \<Rightarrow> Inr t))"

definition read_attempt :: "(string \<rightharpoonup> string) \<Rightarrow> exn + int" where
  "read_attempt d =
     (case d ''attempt'' of
        None \<Rightarrow> Inl (KeyError ''attempt'')
      | Some s \<Rightarrow> (case py_int 10 s of None \<Rightarrow> Inl (ValueError (int_error 10 s)) | Some n \<Rightarrow> Inr n))"

definition from_fields :: "wire_fields \<Rightarrow> exn + job_message" where
  "from_fields wfs =
     (case decode_items wfs Map.empty of
        Inl e \<Rightarrow> Inl e
      | Inr d \<Rightarrow>
          (case read_job_id d of
             Inl e \<Rightarrow> Inl e
           | Inr u \<Rightarrow>
               (case read_job_type d of
                  Inl e \<Rightarrow> Inl e
                | Inr t \<Rightarrow>
                    (case read_attempt d of
                       Inl e \<Rightarrow> Inl e
                     | Inr n \<Rightarrow> Inr \<lparr>m_job_id = u, m_job_type = t, m_attempt = n\<rparr>))))"

definition first_delivery :: "inference_job \<Rightarrow> job_message" where
  "first_delivery job = \<lparr>m_job_id = j_id job, m_job_type = j_type job, m_attempt = 1\<rparr>"

definition next_attempt :: "job_message \<Rightarrow> job_message" where
  "next_attempt m =
     \<lparr>m_job_id = m_job_id m, m_job_type = m_job_type m, m_attempt = m_attempt m + 1\<rparr>"

subsection \<open>Lemmas\<close>

lemma as_str_carries [simp]: "carries w s \<Longrightarrow> as_str w = Inr s"
  by (auto simp: carries_def utf8_decode_encode)

lemma as_str_Inr_iff: "as_str w = Inr s \<longleftrightarrow> w = WStr s \<or> (\<exists>b. w = WBytes b \<and> utf8_decode b = Some s)"
  by (cases w) (auto split: option.splits)

lemma as_str_error: "as_str w = Inl e \<Longrightarrow> \<exists>m. e = UnicodeDecodeError m"
  by (cases w) (auto split: option.splits)

lemma decode_items_carries:
  "list_all2 (\<lambda>(k, v) (k', v'). carries k k' \<and> carries v v') wfs fs \<Longrightarrow>
   decode_items wfs d = Inr (d ++ map_of (rev fs))"
proof (induction wfs fs arbitrary: d rule: list_all2_induct)
  case Nil
  then show ?case by simp
next
  case (Cons x xs y ys)
  obtain k v k' v' where xy: "x = (k, v)" "y = (k', v')" by (cases x; cases y)
  with Cons have "carries k k'" "carries v v'" by auto
  with Cons xy show ?case by (simp add: map_add_upd_left fun_upd_def [symmetric] del: fun_upd_apply)
qed

text \<open>The digits of a number hold no dash, and a text splits in one way at its last dash.\<close>

lemma nat_digits_no_dash: "CHR ''-'' \<notin> set (nat_digits 10 n)"
proof
  assume "CHR ''-'' \<in> set (nat_digits 10 n)"
  then obtain d where "d < 10" "CHR ''-'' = digit_char d" using set_nat_digits [of 10 n] by auto
  moreover from this(1) have "digit_char d \<noteq> CHR ''-''"
    using digit_char_neq [of d "CHR ''-''"] by (simp add: char_code_def)
  ultimately show False by simp
qed

lemma same_append_eq_right: "xs @ zs = ys @ zs \<Longrightarrow> xs = ys"
  by simp

lemma append_Cons_eq_iff_last:
  "xs @ c # ys = xs' @ c # ys' \<Longrightarrow> c \<notin> set ys \<Longrightarrow> c \<notin> set ys' \<Longrightarrow> xs = xs' \<and> ys = ys'"
proof (induction xs arbitrary: xs')
  case Nil
  then show ?case by (cases xs') auto
next
  case (Cons a xs)
  then show ?case by (cases xs') auto
qed

text \<open>How an ill-formed entry fails.\<close>

lemma decode_items_error: "decode_items fs d = Inl e \<Longrightarrow> \<exists>m. e = UnicodeDecodeError m"
  by (induction fs d rule: decode_items.induct) (auto split: sum.splits dest: as_str_error)

lemma from_fields_error:
  "from_fields fs = Inl e \<Longrightarrow>
   (\<exists>m. e = UnicodeDecodeError m) \<or> (\<exists>m. e = ValueError m) \<or>
   (\<exists>k \<in> {''job_id'', ''job_type'', ''attempt''}. e = KeyError k)"
  by (auto simp: from_fields_def read_job_id_def read_job_type_def read_attempt_def
      dest: decode_items_error split: sum.splits option.splits)

lemma from_fields_error_not_upstream: "from_fields fs = Inl e \<Longrightarrow> \<not> is_upstream_error e"
  by (auto dest!: from_fields_error simp: is_upstream_error_def)

lemma next_attempt_simps [simp]:
  "m_job_id (next_attempt m) = m_job_id m" "m_job_type (next_attempt m) = m_job_type m"
  "m_attempt (next_attempt m) = m_attempt m + 1"
  by (simp_all add: next_attempt_def)

lemma first_delivery_simps [simp]:
  "m_job_id (first_delivery j) = j_id j" "m_job_type (first_delivery j) = j_type j"
  "m_attempt (first_delivery j) = 1"
  by (simp_all add: first_delivery_def)

lemma from_fields_carries:
  assumes "list_all2 (\<lambda>(k, v) (k', v'). carries k k' \<and> carries v v') wfs (to_fields m @ extra)"
    and "fst ` set extra \<inter> {''job_id'', ''job_type'', ''attempt''} = {}"
  shows "from_fields wfs = Inr m"
proof -
  have e: "map_of (rev extra) k = None" if "k \<in> {''job_id'', ''job_type'', ''attempt''}" for k
    using assms(2) that by (force simp: map_of_eq_None_iff)
  have "decode_items wfs Map.empty = Inr (map_of (rev (to_fields m @ extra)))"
    using decode_items_carries [OF assms(1), of Map.empty] by simp
  then show ?thesis
    using e by (simp add: from_fields_def to_fields_def read_job_id_def read_job_type_def
        read_attempt_def map_add_def)
qed

subsection \<open>Properties\<close>

text \<open>
  Round trip: a pointer written with \<open>to_fields\<close> is read back by \<open>from_fields\<close> as the same
  pointer, for every job id, type and attempt number, whichever of its keys and values arrive as bytes
  and which as text, and whatever further fields follow (the dead-letter entry's \<open>reason\<close>).
\<close>

theorem message_round_trip:
  assumes "list_all2 (\<lambda>(k, v) (k', v'). carries k k' \<and> carries v v') wfs (to_fields m @ extra)"
    and "fst ` set extra \<inter> {''job_id'', ''job_type'', ''attempt''} = {}"
  shows "from_fields wfs = Inr m"
  using assms by (rule from_fields_carries)

theorem message_round_trip_witness:
  "from_fields
     [(WBytes ''job_id'', WBytes ''00000000-0000-0000-0000-0000000000ff''),
      (WStr ''job_type'', WBytes ''rag_query''), (WStr ''attempt'', WStr ''2''),
      (WBytes ''reason'', WBytes ''boom'')] =
     Inr \<lparr>m_job_id = 255, m_job_type = RAG_QUERY, m_attempt = 2\<rparr>"
proof -
  let ?u = "''00000000-0000-0000-0000-0000000000ff''"
  have j: "utf8_encode ''job_id'' = ''job_id''" by code_simp
  have q: "utf8_encode ''rag_query'' = ''rag_query''" by code_simp
  have r: "utf8_encode ''reason'' = ''reason''" by code_simp
  have b: "utf8_encode ''boom'' = ''boom''" by code_simp
  have u: "utf8_encode ?u = ?u" by code_simp
  have h: "hex_pad 32 255 = ''000000000000000000000000000000ff''" by code_simp
  have n: "py_str_int 2 = ''2''" by code_simp
  have i: "uuid_str 255 = ?u" by (simp add: uuid_str_def h)
  have f: "to_fields \<lparr>m_job_id = 255, m_job_type = RAG_QUERY, m_attempt = 2\<rparr> =
      [(''job_id'', ?u), (''job_type'', ''rag_query''), (''attempt'', ''2'')]"
    by (simp add: to_fields_def i n)
  have c: "carries (WBytes ''job_id'') ''job_id''" "carries (WBytes ?u) ?u" "carries (WStr x) x"
    "carries (WBytes ''rag_query'') ''rag_query''" "carries (WBytes ''reason'') ''reason''"
    "carries (WBytes ''boom'') ''boom''" for x
    unfolding carries_def j q r b u by (rule disjI2 disjI1, rule refl)+
  show ?thesis
    by (rule message_round_trip [where extra = "[(''reason'', ''boom'')]"]) (simp_all add: f c)
qed

text \<open>
  Consumer names are unique across processes: the name determines the host, the process id and the
  random suffix, so two processes get the same name only if they agree in all three (a host name may
  itself contain dashes).
\<close>

theorem consumer_name_unique:
  assumes "make_consumer_name h p r = make_consumer_name h' p' r'" and "r < 2 ^ 24" and "r' < 2 ^ 24"
  shows "h = h' \<and> p = p' \<and> r = r'"
proof -
  let ?d = "\<lambda>p. nat_digits 10 p"
  have eq: "(h @ ''-'' @ ?d p @ ''-'') @ hex_pad 6 r = (h' @ ''-'' @ ?d p' @ ''-'') @ hex_pad 6 r'"
    using assms(1) by (simp add: make_consumer_name_def py_str_int_def)
  from append_eq_append_conv [THEN iffD1, OF _ eq]
  have hp: "h @ ''-'' @ ?d p @ ''-'' = h' @ ''-'' @ ?d p' @ ''-''" and hx: "hex_pad 6 r = hex_pad 6 r'"
    by simp_all
  have parse: "parse_digits 16 0 False (hex_pad 6 n) = Some n" if "n < 2 ^ 24" for n
    by (rule parse_hex_pad_pos) (use that in simp_all)
  have r: "r = r'"
    using parse [OF assms(2)] parse [OF assms(3)] unfolding hx by (simp only: option.inject)
  from hp have "(h @ CHR ''-'' # ?d p) @ ''-'' = (h' @ CHR ''-'' # ?d p') @ ''-''" by simp
  then have "h @ CHR ''-'' # ?d p = h' @ CHR ''-'' # ?d p'" by (rule same_append_eq_right)
  then have d: "h = h' \<and> ?d p = ?d p'"
    by (rule append_Cons_eq_iff_last [OF _ nat_digits_no_dash nat_digits_no_dash])
  have read: "parse_digits 10 0 False (?d n) = Some n" for n
    by (rule parse_nat_digits) simp_all
  have "p = p'" using read [of p] read [of p'] unfolding d [THEN conjunct2] by (simp only: option.inject)
  then show ?thesis using r d by iprover
qed

theorem consumer_name_unique_witness:
  "make_consumer_name ''box-1'' 7 255 \<noteq> make_consumer_name ''box'' 1 255"
proof
  assume "make_consumer_name ''box-1'' 7 255 = make_consumer_name ''box'' 1 255"
  from consumer_name_unique [OF this] have "(7 :: nat) = 1" by simp
  then show False by simp
qed

end
