(* ===== verification/Processor.thy ===== *)
theory Processor
  imports Repository Messages
begin

section \<open>The job processor (\<open>services/processor.py\<close>)\<close>

text \<open>
  \<open>JobProcessor.process\<close> drives one job through its lifecycle.  Its state is the pair of the job store
  and the rest of the world (the clocks and whatever the pipelines reach: object store and providers);
  the repository is a \<open>repository\<close> of the store, and the record \<open>externals\<close> holds the two clocks and the
  dictionary \<open>PIPELINES\<close> as functions over the rest of the world.  The elapsed time is computed exactly
  (the code's \<open>float\<close> arithmetic rounds).

  The locale \<open>job_processor\<close> is the consumer's Protocol \<open>JobProcessor\<close> with what the consumer's routing
  needs of it: a processor touches only its own job, returns only when that job is absent or terminal, and
  raises an upstream error only with the row left \<open>RUNNING\<close>.
\<close>

record 'x externals =
  utcnow :: "'x \<Rightarrow> int \<times> 'x"
  monotonic :: "'x \<Rightarrow> rat \<times> 'x"
  PIPELINES :: "job_type \<Rightarrow> inference_job \<Rightarrow> ('x, string) io"

definition read_clock :: "('x \<Rightarrow> 'a \<times> 'x) \<Rightarrow> ('x, 'a) io" where
  "read_clock f x = (Inr (fst (f x)), snd (f x))"

text \<open>\<open>int((time.monotonic() - started) * 1000)\<close>: truncation toward zero.\<close>

definition elapsed_ms :: "rat \<Rightarrow> rat \<Rightarrow> int" where
  "elapsed_ms started now =
     (let ms = (now - started) * 1000 in if 0 \<le> ms then \<lfloor>ms\<rfloor> else \<lceil>ms\<rceil>)"

definition run_pipeline :: "'x externals \<Rightarrow> inference_job \<Rightarrow> ('x, string) io" where
  "run_pipeline ext job =
     tryE (PIPELINES ext (j_type job) job)
       (\<lambda>exc. if is_transient exc \<or> is_permanent exc then raiseE exc
               else raiseE (PermanentUpstreamError (exn_str exc) None))"

definition finish_job :: "'d repository \<Rightarrow> 'x externals \<Rightarrow> inference_job \<Rightarrow> rat \<Rightarrow> string \<Rightarrow> ('d \<times> 'x, unit) io" where
  "finish_job repo ext job started result_ref =
     bindE (on_snd (read_clock (monotonic ext))) (\<lambda>ended.
     bindE (on_snd (read_clock (utcnow ext))) (\<lambda>now.
     bindE (liftE (mark_success result_ref (Some (elapsed_ms started ended)) now job)) (\<lambda>job.
     on_fst (rp_update repo job))))"

definition start_job :: "'d repository \<Rightarrow> 'x externals \<Rightarrow> inference_job \<Rightarrow> ('d \<times> 'x, inference_job) io" where
  "start_job repo ext job =
     bindE (on_snd (read_clock (utcnow ext))) (\<lambda>now.
     bindE (liftE (mark_running now job)) (\<lambda>job.
     bindE (on_fst (rp_update repo job)) (\<lambda>u. ret job)))"

definition process :: "'d repository \<Rightarrow> 'x externals \<Rightarrow> uuid \<Rightarrow> int \<Rightarrow> ('d \<times> 'x, unit) io" where
  "process repo ext job_id attempt =
     bindE (on_fst (get_or_none repo job_id)) (\<lambda>found.
       case found of
         None \<Rightarrow> ret ()
       | Some job \<Rightarrow>
           if is_terminal job then ret ()
           else
             bindE (start_job repo ext job) (\<lambda>job.
             bindE (on_snd (read_clock (monotonic ext))) (\<lambda>started.
             bindE (on_snd (run_pipeline ext job)) (\<lambda>result_ref.
             finish_job repo ext job started result_ref))))"

definition processor_call :: "'d repository \<Rightarrow> 'x externals \<Rightarrow> job_message \<Rightarrow> ('d \<times> 'x, unit) io" where
  "processor_call repo ext message = process repo ext (m_job_id message) (m_attempt message)"

subsection \<open>The consumer's Protocol\<close>

definition running_in :: "(uuid \<rightharpoonup> inference_job) \<Rightarrow> uuid \<Rightarrow> bool" where
  "running_in js i = (case js i of None \<Rightarrow> False | Some j \<Rightarrow> j_status j = RUNNING)"

definition settled_in :: "(uuid \<rightharpoonup> inference_job) \<Rightarrow> uuid \<Rightarrow> bool" where
  "settled_in js i = (case js i of None \<Rightarrow> True | Some j \<Rightarrow> is_terminal j)"

text \<open>A successful execution of a pending job: started, run by its pipeline, finished.\<close>

definition succeeded :: "'x externals \<Rightarrow> inference_job \<Rightarrow> inference_job \<Rightarrow> bool" where
  "succeeded ext j j' \<longleftrightarrow>
     (\<exists>t1 j1 x ref y ms t2. mark_running t1 j = Inr j1 \<and> PIPELINES ext (j_type j) j1 x = (Inr ref, y) \<and>
        mark_success ref (Some ms) t2 j1 = Inr j')"

locale job_processor =
  fixes proc :: "job_message \<Rightarrow> ('d \<times> 'x, unit) io" and jobs :: "'d \<Rightarrow> uuid \<rightharpoonup> inference_job"
  assumes proc_law: "proc m w = (r, w') \<Longrightarrow>
      (\<forall>i. i \<noteq> m_job_id m \<longrightarrow> jobs (fst w') i = jobs (fst w) i) \<and>
      (case r of
         Inr u \<Rightarrow> settled_in (jobs (fst w')) (m_job_id m)
       | Inl e \<Rightarrow> running_in (jobs (fst w')) (m_job_id m) \<or>
           \<not> is_upstream_error e \<and> jobs (fst w') = jobs (fst w))"
begin

lemma wp_proc:
  "wpE (proc m)
     (\<lambda>u w'. (\<forall>i. i \<noteq> m_job_id m \<longrightarrow> jobs (fst w') i = jobs (fst w) i) \<and>
        settled_in (jobs (fst w')) (m_job_id m))
     (\<lambda>e w'. (\<forall>i. i \<noteq> m_job_id m \<longrightarrow> jobs (fst w') i = jobs (fst w) i) \<and>
        (running_in (jobs (fst w')) (m_job_id m) \<or>
         \<not> is_upstream_error e \<and> jobs (fst w') = jobs (fst w))) w"
  by (rule wpE_I) (use proc_law in fastforce)+

end

subsection \<open>Lemmas\<close>

lemma wp_read_clock: "wpE (read_clock f) Q E x = Q (fst (f x)) (snd (f x))"
  by (simp add: wpE_def read_clock_def)

lemmas wp_world = wp wp_on_fst wp_on_snd wp_read_clock

lemma not_upstream: "\<not> is_domain_error e \<Longrightarrow> \<not> is_upstream_error e"
  by (cases e) (auto simp: is_upstream_error_def)

lemma upstream_other [simp]:
  "\<not> is_upstream_error (JobNotFound i)" "\<not> is_upstream_error (InvalidTransition a b)"
  by (simp_all add: is_upstream_error_def)

lemma succeededI:
  "mark_running t1 j = Inr j1 \<Longrightarrow> mark_success ref (Some ms) t2 j1 = Inr j' \<Longrightarrow>
   PIPELINES ext (j_type j) j1 x = (Inr ref, y) \<Longrightarrow> succeeded ext j j'"
  unfolding succeeded_def by blast

lemma wp_run_pipeline:
  assumes "\<And>ref y. PIPELINES ext (j_type job) job x = (Inr ref, y) \<Longrightarrow> Q ref y"
    and "\<And>e y. is_upstream_error e \<Longrightarrow> E e y"
  shows "wpE (run_pipeline ext job) Q E x"
  using assms by (auto simp: run_pipeline_def wpE_def tryE_def raiseE_def is_upstream_error_def
      split: prod.splits sum.splits)

text \<open>
  The two database steps of a run, for a client of the port: what they return, and that an exception
  they raise is never an upstream error and leaves the store as it was.
\<close>

context job_repository
begin

lemma wp_start:
  assumes repo: "rp_update repo = update" and row: "jobs (fst w) i = Some j" "j_id j = i"
    and "\<And>now j' d' y. mark_running now j = Inr j' \<Longrightarrow> jobs d' = (jobs (fst w))(i \<mapsto> j') \<Longrightarrow> Q j' (d', y)"
    and "\<And>e w'. jobs (fst w') = jobs (fst w) \<Longrightarrow> \<not> is_upstream_error e \<Longrightarrow> E e w'"
  shows "wpE (start_job repo ext j) Q E w"
proof (cases "mark_running (fst (utcnow ext (snd w))) j")
  case (Inl e)
  then have "e = InvalidTransition (j_status j) RUNNING" by (simp add: mark_running_Inl)
  with Inl assms(5) [of "(fst w, snd (utcnow ext (snd w)))" e] show ?thesis
    by (simp add: start_job_def wp_world)
next
  case (Inr j')
  then have "j_id j' = i" using row by (auto simp: mark_running_Inr)
  with Inr show ?thesis
    unfolding start_job_def wp_world repo
    using row assms(4,5) by (auto intro!: wp_update simp: wp_world not_upstream)
qed

lemma wp_finish:
  assumes repo: "rp_update repo = update" and run: "j_status j = RUNNING"
    and "\<And>d' now j' ms y. mark_success ref (Some ms) now j = Inr j' \<Longrightarrow>
      jobs d' = (jobs (fst w))(j_id j \<mapsto> j') \<Longrightarrow> Q () (d', y)"
    and "\<And>e w'. jobs (fst w') = jobs (fst w) \<Longrightarrow> \<not> is_upstream_error e \<Longrightarrow> E e w'"
  shows "wpE (finish_job repo ext j started ref) Q E w"
proof -
  define ms where "ms = elapsed_ms started (fst (monotonic ext (snd w)))"
  define now where "now = fst (utcnow ext (snd (monotonic ext (snd w))))"
  obtain j' where ok: "mark_success ref (Some ms) now j = Inr j'" and id: "j_id j' = j_id j"
    using run by (simp add: mark_success_Inr)
  show ?thesis
    unfolding finish_job_def wp_world repo
    using ok id assms(3,4) by (auto intro!: wp_update simp: not_upstream simp flip: ms_def now_def)
qed

text \<open>A whole run of \<open>process\<close>, with the row before and after.\<close>

lemma wp_process:
  assumes repo: "rp_get repo = get" "rp_update repo = update"
  shows "wpE (process repo ext i n)
     (\<lambda>u w'. jobs (fst w') = jobs (fst w) \<and> settled_in (jobs (fst w)) i \<or>
        (\<exists>j j'. jobs (fst w) i = Some j \<and> succeeded ext j j' \<and> jobs (fst w') = (jobs (fst w))(i \<mapsto> j')))
     (\<lambda>e w'. jobs (fst w') = jobs (fst w) \<and> \<not> is_upstream_error e \<or>
        (\<exists>j j' t. jobs (fst w) i = Some j \<and> mark_running t j = Inr j' \<and>
           jobs (fst w') = (jobs (fst w))(i \<mapsto> j'))) w"
    (is "wpE _ ?Q ?E w")
proof -
  have run: "wpE (bindE (start_job repo ext j) (\<lambda>job. bindE (on_snd (read_clock (monotonic ext))) (\<lambda>started.
      bindE (on_snd (run_pipeline ext job)) (\<lambda>ref. finish_job repo ext job started ref)))) ?Q ?E (d', snd w)"
    if j: "jobs (fst w) i = Some j" "j_id j = i" "jobs d' = jobs (fst w)" for j d'
    unfolding wp
  proof (rule wp_start [OF repo(2)])
    show "jobs (fst (d', snd w)) i = Some j" "j_id j = i" using j by simp_all
    show "?E e w'" if "jobs (fst w') = jobs (fst (d', snd w))" "\<not> is_upstream_error e" for e w'
      using that j by simp
    fix now j1 d1 y1
    assume m: "mark_running now j = Inr j1" and d1: "jobs d1 = (jobs (fst (d', snd w)))(i \<mapsto> j1)"
    have j1: "j_id j1 = i" "j_type j1 = j_type j" "j_status j1 = RUNNING"
      using m j by (auto simp: mark_running_Inr)
    have E: "\<exists>j j' t. jobs (fst w) i = Some j \<and> mark_running t j = Inr j' \<and> jobs d1 = (jobs (fst w))(i \<mapsto> j')"
      using d1 m j by auto
    show "wpE (on_snd (read_clock (monotonic ext))) (\<lambda>started. wpE (on_snd (run_pipeline ext j1))
        (\<lambda>ref. wpE (finish_job repo ext j1 started ref) ?Q ?E) ?E) ?E (d1, y1)"
      unfolding wp_world
    proof (rule wp_run_pipeline, goal_cases)
      case (1 ref y)
      note pipe = 1
      show ?case
      proof (rule wp_finish [OF repo(2) j1(3)], goal_cases)
        case (1 d2 t j2 ms y2)
        have "succeeded ext j j2"
          by (rule succeededI [OF m 1(1), of ext "snd (monotonic ext (snd (d1, y1)))" y])
             (use pipe j1 in simp)
        moreover have "jobs d2 = (jobs (fst w))(i \<mapsto> j2)" using d1 1(2) j j1 by simp
        ultimately show ?case using j by auto
      qed (use E in auto)
    qed (use E in auto)
  qed
  show ?thesis
    unfolding process_def wp_bind [of "on_fst m" for m] wp_on_fst
  proof (rule wp_load [OF repo(1)], goal_cases)
    case (1 d')
    then show ?case by (simp add: wp_ret settled_in_def)
  next
    case (2 j d')
    show ?case
    proof (cases "is_terminal j")
      case True
      with 2 show ?thesis by (simp add: wp_ret settled_in_def)
    next
      case False
      with run [OF 2] show ?thesis by (simp only: option.case if_False)
    qed
  next
    case (3 e d')
    then show ?case by (simp add: not_upstream)
  qed
qed

lemma process_is_processor:
  assumes "rp_get repo = get" "rp_update repo = update"
  shows "job_processor (processor_call repo ext) jobs"
proof
  fix m :: job_message and w r w'
  let ?i = "m_job_id m"
  assume "processor_call repo ext m w = (r, w')"
  with wp_process [OF assms, of ext ?i "m_attempt m" w]
  show "(\<forall>i. i \<noteq> ?i \<longrightarrow> jobs (fst w') i = jobs (fst w) i) \<and>
      (case r of Inr u \<Rightarrow> settled_in (jobs (fst w')) ?i
       | Inl e \<Rightarrow> running_in (jobs (fst w')) ?i \<or> \<not> is_upstream_error e \<and> jobs (fst w') = jobs (fst w))"
    by (auto simp: processor_call_def wpE_def settled_in_def running_in_def is_terminal_iff succeeded_def
        mark_running_Inr mark_success_Inr split: sum.splits)
qed

end

interpretation pg_processor: job_processor "processor_call pg_repo ext" table_jobs for ext
  by (rule pg_repo.process_is_processor) simp_all

lemma sql_processor:
  assumes "sqlalchemy_session sess rows"
  shows "job_processor (processor_call (sql_repository sess) ext) (stored rows)"
  by (rule job_repository.process_is_processor [OF sql_job_repository [OF assms]]) simp_all

text \<open>What the guard sees of a row that is there.\<close>

lemma sql_get_found:
  assumes "sqlalchemy_session sess rows" and "stored rows d i = Some j"
  shows "(\<exists>e d1. repo_get sess i d = (Inl e, d1) \<and> \<not> is_domain_error e \<and> stored rows d1 = stored rows d) \<or>
    (\<exists>d1. repo_get sess i d = (Inr j, d1) \<and> stored rows d1 = stored rows d)"
  using job_repository.get_law [OF sql_job_repository [OF assms(1)], of i d] assms(2)
  by (cases "repo_get sess i d") (auto split: sum.splits)

lemma sql_process_running:
  assumes "sqlalchemy_session sess rows" and "stored rows d i = Some j" and "j_status j = RUNNING"
  shows "process (sql_repository sess) ext i n (d, x) =
    (case repo_get sess i d of
       (Inl e, d1) \<Rightarrow> (Inl e, (d1, x))
     | (Inr job, d1) \<Rightarrow> (Inl (InvalidTransition RUNNING RUNNING), (d1, snd (utcnow ext x))))"
  using sql_get_found [OF assms(1,2)]
proof (elim disjE exE conjE)
  fix e d1 assume "repo_get sess i d = (Inl e, d1)" "\<not> is_domain_error e"
  then show ?thesis by (cases e) (simp_all add: process_def get_or_none_def eff_defs on_fst_def)
next
  fix d1 assume "repo_get sess i d = (Inr j, d1)"
  moreover have "mark_running t j = Inl (InvalidTransition RUNNING RUNNING)" for t
    using assms(3) by (simp add: mark_running_Inl)
  ultimately show ?thesis
    using assms(3) by (simp add: process_def get_or_none_def start_job_def eff_defs on_fst_def on_snd_def
        read_clock_def is_terminal_iff)
qed

lemma process_running:
  assumes "db_faults d = []" and "table_jobs d i = Some j" and "j_status j = RUNNING"
  shows "process pg_repo ext i n (d, x) = (Inl (InvalidTransition RUNNING RUNNING), (d, snd (utcnow ext x)))"
  using sql_process_running [OF pg.sqlalchemy_session_axioms, of d i j ext n x] assms pg_get_found [OF assms(1,2)]
  by simp

subsection \<open>Properties\<close>

text \<open>
  C14. What a run of the processor can do to the store, whatever fails: it touches no other job; when it
  returns, its job was absent or terminal and nothing changed, or it was \<open>PENDING\<close> and is now the
  \<open>SUCCESS\<close> that its pipeline's result makes of it; when it raises, the job was left alone, or it is
  \<open>RUNNING\<close> as the consumer's retry and dead-letter transitions need it.
\<close>

theorem processor_outcomes:
  assumes "sqlalchemy_session sess rows"
    and "process (sql_repository sess) ext i n w = (r, w')"
  shows "(case r of
      Inr u \<Rightarrow> stored rows (fst w') = stored rows (fst w) \<and> settled_in (stored rows (fst w)) i \<or>
        (\<exists>j j'. stored rows (fst w) i = Some j \<and> succeeded ext j j' \<and>
           stored rows (fst w') = (stored rows (fst w))(i \<mapsto> j'))
    | Inl e \<Rightarrow> stored rows (fst w') = stored rows (fst w) \<and> \<not> is_upstream_error e \<or>
        (\<exists>j j' t. stored rows (fst w) i = Some j \<and> mark_running t j = Inr j' \<and>
           stored rows (fst w') = (stored rows (fst w))(i \<mapsto> j')))"
  using job_repository.wp_process [OF sql_job_repository [OF assms(1)], of "sql_repository sess" ext i n w] assms(2)
  by (simp add: wpE_def split: sum.splits)

text \<open>A world whose clock ticks at each reading, and pipelines that store nothing and name the job.\<close>

definition tick_world :: "int externals" where
  "tick_world =
     \<lparr>utcnow = (\<lambda>x. (x, x + 1)), monotonic = (\<lambda>x. (of_int x, x + 1)),
      PIPELINES = (\<lambda>ty job. case ty of
        RAG_QUERY \<Rightarrow> ret (''s3://b/results/'' @ uuid_str (j_id job) @ ''.json'')
      | EMBED_DOCUMENT \<Rightarrow> raiseE (TransientUpstreamError ''503'' None))\<rparr>"

definition one_job :: "job_type \<Rightarrow> job_status \<Rightarrow> jobs_db" where
  "one_job ty st =
     \<lparr>db_rows = [to_row ((job_new ty [] 1 0 0)\<lparr>j_status := st, j_attempts := if st = PENDING then 0 else 1\<rparr>)],
      db_faults = []\<rparr>"

lemma one_job_row:
  "table_jobs (one_job ty st) 1 =
     Some ((job_new ty [] 1 0 0)\<lparr>j_status := st, j_attempts := if st = PENDING then 0 else 1\<rparr>)"
  "db_faults (one_job ty st) = []" "db_lookup (db_rows (one_job ty st)) 1 \<noteq> None"
  by (simp_all add: one_job_def table_jobs_def jobs_of_def db_lookup_def to_row_def to_domain_def job_new_def)

theorem processor_outcomes_witness:
  "\<exists>w'. process pg_repo tick_world 1 1 (one_job EMBED_DOCUMENT FAILED, 0) = (Inr (), w') \<and>
     table_jobs (fst w') = table_jobs (one_job EMBED_DOCUMENT FAILED)"
proof -
  let ?d = "one_job EMBED_DOCUMENT FAILED"
  have run: "process pg_repo tick_world 1 1 (?d, 0) = (Inr (), (?d, 0))"
    using pg_get_found [OF one_job_row(2) one_job_row(1), of EMBED_DOCUMENT FAILED]
    by (simp add: process_def get_or_none_def eff_defs on_fst_def is_terminal_iff)
  from processor_outcomes [OF pg.sqlalchemy_session_axioms run] run one_job_row(1) [of EMBED_DOCUMENT FAILED] show ?thesis
    by (auto simp: succeeded_def mark_running_Inr)
qed

text \<open>
  Idempotency: processing a job that is already terminal, or whose row does not exist, makes one
  \<open>get\<close> and does nothing else at all: no write to the store, no pipeline run, not even a reading of the
  clock.  It returns normally, unless the \<open>get\<close> itself failed, whose exception it then raises.
\<close>

theorem processor_idempotent:
  assumes "sqlalchemy_session sess rows" and "settled_in (stored rows d) i"
  shows "process (sql_repository sess) ext i n (d, x) =
    (case fst (repo_get sess i d) of
       Inl e \<Rightarrow> if e = JobNotFound i then Inr () else Inl e
     | Inr j \<Rightarrow> Inr (), (snd (repo_get sess i d), x))"
proof -
  obtain v d1 where get: "repo_get sess i d = (v, d1)" by (cases "repo_get sess i d")
  from job_repository.get_law [OF sql_job_repository [OF assms(1)], of i d] get
  have law: "case v of Inl e \<Rightarrow> \<not> is_domain_error e \<or> e = JobNotFound i
    | Inr j \<Rightarrow> stored rows d i = Some j" by (auto split: sum.splits)
  show ?thesis
  proof (cases v)
    case (Inl e)
    with law get show ?thesis
      by (cases e) (auto simp: process_def get_or_none_def eff_defs on_fst_def)
  next
    case (Inr j)
    with law assms(2) have "is_terminal j" by (simp add: settled_in_def)
    with Inr get show ?thesis by (simp add: process_def get_or_none_def eff_defs on_fst_def)
  qed
qed

theorem processor_idempotent_witness:
  "process pg_repo tick_world 1 4 (one_job RAG_QUERY SUCCESS, 7) = (Inr (), (one_job RAG_QUERY SUCCESS, 7))"
  using processor_idempotent [OF pg.sqlalchemy_session_axioms, of "one_job RAG_QUERY SUCCESS" 1 tick_world 4 7]
    pg_get_found [OF one_job_row(2) one_job_row(1), of RAG_QUERY SUCCESS]
  by (simp add: settled_in_def one_job_row is_terminal_iff)

text \<open>
  A pending job whose pipeline returns a reference is finished in one run when the database goes along
  (the job can be read, and the two states written): the run returns, and the row is then \<open>SUCCESS\<close>
  with that reference, one more attempt, no error, and the elapsed time of the pipeline's run in
  milliseconds.
\<close>

theorem processor_success:
  assumes "sqlalchemy_session sess rows"
    and "repo_get sess i d = (Inr j, d1)" and "j_status j = PENDING"
    and "utcnow ext x = (t1, x1)"
    and "j1 = j\<lparr>j_status := RUNNING, j_updated_at := t1, j_attempts := j_attempts j + 1, j_error := None\<rparr>"
    and "repo_update sess j1 d1 = (Inr (), d2)"
    and "monotonic ext x1 = (started, x2)" and "PIPELINES ext (j_type j) j1 x2 = (Inr ref, x3)"
    and "monotonic ext x3 = (ended, x4)" and "utcnow ext x4 = (t2, x5)"
    and "j2 = j\<lparr>j_status := SUCCESS, j_updated_at := t2, j_attempts := j_attempts j + 1, j_error := None,
        j_result_ref := Some ref, j_duration_ms := Some (elapsed_ms started ended)\<rparr>"
    and "repo_update sess j2 d2 = (Inr (), d3)"
  shows "process (sql_repository sess) ext i n (d, x) = (Inr (), (d3, x5)) \<and>
    stored rows d3 = (stored rows d)(i \<mapsto> j2)"
proof -
  note repo = sql_job_repository [OF assms(1)]
  have g: "stored rows d1 = stored rows d" and id: "j_id j = i"
    using job_repository.get_law [OF repo, of i d "Inr j" d1] assms(2) by simp_all
  have m1: "mark_running t1 j = Inr j1" using assms(3,5) by (simp add: mark_running_Inr)
  have m2: "mark_success ref (Some (elapsed_ms started ended)) t2 j1 = Inr j2"
    using assms(5,11) by (simp add: mark_success_Inr)
  have "stored rows d2 = (stored rows d1)(i \<mapsto> j1)"
    using job_repository.update_law [OF repo, of j1 d1 "Inr ()" d2] assms(5,6) id by simp
  moreover have "stored rows d3 = (stored rows d2)(i \<mapsto> j2)"
    using job_repository.update_law [OF repo, of j2 d2 "Inr ()" d3] assms(11,12) id by simp
  moreover have "process (sql_repository sess) ext i n (d, x) = (Inr (), (d3, x5))"
    using assms(2-4,6-10,12) m1 m2 assms(5)
    by (simp add: process_def get_or_none_def start_job_def finish_job_def run_pipeline_def eff_defs
        on_fst_def on_snd_def read_clock_def is_terminal_iff)
  ultimately show ?thesis using g by simp
qed

theorem processor_success_witness:
  "\<exists>d' j'. process pg_repo tick_world 1 1 (one_job RAG_QUERY PENDING, 0) = (Inr (), (d', 4)) \<and>
     table_jobs d' 1 = Some j' \<and> j_status j' = SUCCESS \<and> j_attempts j' = 1 \<and> j_duration_ms j' = Some 1000"
proof -
  let ?d = "one_job RAG_QUERY PENDING"
  let ?j = "job_new RAG_QUERY [] 1 0 0"
  let ?r = "''s3://b/results/'' @ uuid_str 1 @ ''.json''"
  let ?j1 = "?j\<lparr>j_status := RUNNING, j_updated_at := 0, j_attempts := j_attempts ?j + 1, j_error := None\<rparr>"
  let ?j2 = "?j\<lparr>j_status := SUCCESS, j_updated_at := 3, j_attempts := j_attempts ?j + 1, j_error := None,
      j_result_ref := Some ?r, j_duration_ms := Some (elapsed_ms 1 2)\<rparr>"
  have ms: "elapsed_ms 1 2 = 1000" by (simp add: elapsed_ms_def)
  have len: "length (uuid_str u) = 36" for u by (simp add: uuid_str_def Let_def)
  have j: "table_jobs ?d 1 = Some ?j" by (simp add: one_job_row job_new_def)
  have fit: "row_fits (to_row ?j1)" "row_fits (to_row ?j2)"
    by (simp_all add: row_fits_to_row fits_def int4_def job_new_def ms len)
  obtain d1 where d1: "repo_update table_session ?j1 ?d = (Inr (), d1)" "db_faults d1 = []"
    "table_jobs d1 = (table_jobs ?d)(1 \<mapsto> ?j1)"
    using pg_update_ok [of ?d ?j1, OF one_job_row(2) _ fit(1)] one_job_row(3) by (auto simp: job_new_def)
  moreover obtain d2 where d2: "repo_update table_session ?j2 d1 = (Inr (), d2)"
    using pg_update_ok [of d1 ?j2, OF d1(2) _ fit(2)] table_jobs_lookup [of d1 1 ?j1] d1(3)
    by (auto simp: job_new_def)
  ultimately have "process pg_repo tick_world 1 1 (?d, 0) = (Inr (), (d2, 4)) \<and>
      stored (\<lambda>d. db_lookup (db_rows d)) d2 = (stored (\<lambda>d. db_lookup (db_rows d)) ?d)(1 \<mapsto> ?j2)"
    by (intro processor_success [OF pg.sqlalchemy_session_axioms pg_get_found [OF one_job_row(2) j],
          where ?x1.0 = 1 and ?x2.0 = 2 and ?x3.0 = 2 and ?x4.0 = 3 and started = 1 and ended = 2 and ?j1.0 = ?j1])
       (simp_all add: job_new_def tick_world_def ret_def)
  then show ?thesis by (auto simp: ms job_new_def)
qed

text \<open>
  A delivery that finds its row \<open>RUNNING\<close>, as the delivery of a job whose worker crashed in the middle
  of it does, is not resumed: the processor raises \<open>InvalidTransition\<close> before running anything and leaves the
  row \<open>RUNNING\<close>.  (If the \<open>get\<close> itself fails, its exception comes out instead.)
\<close>

theorem processor_rejects_running:
  assumes "sqlalchemy_session sess rows" and "stored rows d i = Some j" and "j_status j = RUNNING"
  shows "process (sql_repository sess) ext i n (d, x) =
    (case repo_get sess i d of
       (Inl e, d1) \<Rightarrow> (Inl e, (d1, x))
     | (Inr job, d1) \<Rightarrow> (Inl (InvalidTransition RUNNING RUNNING), (d1, snd (utcnow ext x))))"
  using assms by (rule sql_process_running)

theorem processor_rejects_running_witness:
  "process pg_repo tick_world 1 2 (one_job RAG_QUERY RUNNING, 9) =
     (Inl (InvalidTransition RUNNING RUNNING), (one_job RAG_QUERY RUNNING, 10))"
  using processor_rejects_running [OF pg.sqlalchemy_session_axioms,
      of "one_job RAG_QUERY RUNNING" 1 _ tick_world 2 9]
    pg_get_found [OF one_job_row(2) one_job_row(1) [of RAG_QUERY RUNNING]]
  by (simp add: tick_world_def one_job_row)

end
