(* ===== verification/Redis.thy ===== *)
theory Redis
  imports Messages
begin

section \<open>What the broker relies on of Redis Streams\<close>

text \<open>
  Redis is reached through redis-py, which is not part of the repository: the record \<open>redis\<close> holds
  the six client methods that the broker calls, as parameters over an abstract Redis state, each with the
  keyword arguments the code passes.  The locale \<open>redis_client\<close> (its law is the predicate
  \<open>redis_laws\<close>) is what is relied on of them, over a log of the commands that took effect:
  \<open>XADD\<close> appends its entry and returns an id, \<open>XACK\<close> acknowledges its id, a command that
  raises may or may not have taken effect (a timeout after the server executed it), the other commands
  write no entry and no acknowledgement, the two reads return at most \<open>COUNT\<close> entries, and what
  is raised is an exception of the client library.

  \<open>mem_client\<close> is an in-memory Redis with streams, one consumer group per stream and key, its pending
  entries list, a clock and a schedule of faults.  It satisfies the laws, and it is what the witnesses and the
  end-to-end scenarios run on.
\<close>

datatype redis_event =
    Added string "(string \<times> string) list"
  | Acked string string wire

datatype read_response =
    RNone
  | RDict "(wire \<times> (wire \<times> wire_fields) list) list"
  | RLegacy "(wire \<times> (wire \<times> wire_fields) list) list"

record 'r redis =
  xgroup_create :: "string \<Rightarrow> string \<Rightarrow> string \<Rightarrow> bool \<Rightarrow> ('r, unit) io"
  xadd :: "string \<Rightarrow> (string \<times> string) list \<Rightarrow> int \<Rightarrow> bool \<Rightarrow> ('r, wire) io"
  xack :: "string \<Rightarrow> string \<Rightarrow> wire \<Rightarrow> ('r, int) io"
  xreadgroup :: "string \<Rightarrow> string \<Rightarrow> (string \<times> string) list \<Rightarrow> int \<Rightarrow> int option \<Rightarrow> bool \<Rightarrow>
    ('r, read_response) io"
  xautoclaim :: "string \<Rightarrow> string \<Rightarrow> string \<Rightarrow> int \<Rightarrow> string \<Rightarrow> int \<Rightarrow>
    ('r, wire \<times> (wire \<times> wire_fields) list) io"
  xpending_range :: "string \<Rightarrow> string \<Rightarrow> string \<Rightarrow> string \<Rightarrow> int \<Rightarrow> ('r, int list) io"

text \<open>The streams of a response: none, a RESP3 dictionary, or a RESP2 list of pairs.\<close>

fun response_streams :: "read_response \<Rightarrow> (wire \<times> (wire \<times> wire_fields) list) list" where
  "response_streams RNone = []"
| "response_streams (RDict xs) = xs"
| "response_streams (RLegacy xs) = xs"

definition redis_raises :: "exn \<Rightarrow> bool" where
  "redis_raises e \<longleftrightarrow> (\<exists>x. e = SdkError x)"

text \<open>A write: what it appends to the elog when it returns, and at most that when it raises.\<close>

definition writes :: "('r \<Rightarrow> redis_event list) \<Rightarrow> redis_event list \<Rightarrow> ('r, 'a) io \<Rightarrow> bool" where
  "writes elog evs m \<longleftrightarrow>
     (\<forall>s r s'. m s = (r, s') \<longrightarrow>
        (case r of
           Inl e \<Rightarrow> redis_raises e \<and> (elog s' = elog s \<or> elog s' = elog s @ evs)
         | Inr x \<Rightarrow> elog s' = elog s @ evs))"

definition redis_laws :: "'r redis \<Rightarrow> ('r \<Rightarrow> redis_event list) \<Rightarrow> bool" where
  "redis_laws R elog \<longleftrightarrow>
     (\<forall>s g i mk. writes elog [] (xgroup_create R s g i mk)) \<and>
     (\<forall>s fs n ap. writes elog [Added s fs] (xadd R s fs n ap)) \<and>
     (\<forall>s g i. writes elog [Acked s g i] (xack R s g i)) \<and>
     (\<forall>g c ss n b na. writes elog [] (xreadgroup R g c ss n b na)) \<and>
     (\<forall>s g c idle start n. writes elog [] (xautoclaim R s g c idle start n)) \<and>
     (\<forall>s g lo hi n. writes elog [] (xpending_range R s g lo hi n)) \<and>
     (\<forall>g c ss n b na s resp s'. xreadgroup R g c ss n b na s = (Inr resp, s') \<longrightarrow>
        (\<forall>(nm, es) \<in> set (response_streams resp). int (length es) \<le> max 0 n)) \<and>
     (\<forall>st g c idle start n s w es s'. xautoclaim R st g c idle start n s = (Inr (w, es), s') \<longrightarrow>
        int (length es) \<le> max 0 n)"

subsection \<open>An in-memory Redis\<close>

record stream_entry =
  se_stream :: string
  se_id :: nat
  se_fields :: "(string \<times> string) list"

record pel_entry =
  pe_stream :: string
  pe_group :: string
  pe_entry :: nat
  pe_consumer :: string
  pe_time :: int
  pe_count :: int

record mem_redis =
  mr_log :: "redis_event list"
  mr_faults :: "(sdk_error \<times> bool) option list"
  mr_now :: int
  mr_last :: nat
  mr_entries :: "stream_entry list"
  mr_groups :: "((string \<times> string) \<times> nat) list"
  mr_pel :: "pel_entry list"

definition mem_start :: mem_redis where
  "mem_start = \<lparr>mr_log = [], mr_faults = [], mr_now = 0, mr_last = 0, mr_entries = [], mr_groups = [], mr_pel = []\<rparr>"

definition id_text :: "nat \<Rightarrow> string" where
  "id_text n = py_str_int (int n) @ ''-0''"

definition next_id :: "mem_redis \<Rightarrow> nat" where
  "next_id s = Suc (mr_last s)"

definition entry_with :: "mem_redis \<Rightarrow> nat \<Rightarrow> (wire \<times> wire_fields) list" where
  "entry_with s n =
     map (\<lambda>e. (WBytes (id_text n), map (\<lambda>(k, v). (WBytes (utf8_encode k), WBytes (utf8_encode v))) (se_fields e)))
       (filter (\<lambda>e. se_id e = n) (mr_entries s))"

text \<open>A command with the events it logs, unless the schedule makes it fail before or after.\<close>

definition mem_command :: "redis_event list \<Rightarrow> (mem_redis, 'a) io \<Rightarrow> (mem_redis, 'a) io" where
  "mem_command evs m s =
     (case mr_faults s of
        [] \<Rightarrow> (case m s of (r, s') \<Rightarrow> (r, s'\<lparr>mr_log := mr_log s @ evs\<rparr>))
      | f # fs \<Rightarrow>
          (case f of
             None \<Rightarrow> (case m (s\<lparr>mr_faults := fs\<rparr>) of (r, s') \<Rightarrow> (r, s'\<lparr>mr_log := mr_log s @ evs\<rparr>))
           | Some (e, executed) \<Rightarrow>
               if executed
               then (Inl (SdkError e), (snd (m (s\<lparr>mr_faults := fs\<rparr>)))\<lparr>mr_log := mr_log s @ evs\<rparr>)
               else (Inl (SdkError e), s\<lparr>mr_faults := fs\<rparr>)))"

definition busygroup :: sdk_error where
  "busygroup =
     \<lparr>sdk_mro = [''redis.exceptions.ResponseError'', ''redis.exceptions.RedisError''],
      sdk_name = ''ResponseError'', sdk_text = ''BUSYGROUP Consumer Group name already exists'',
      sdk_repr = ''ResponseError()'', sdk_status = None, sdk_response_status = None,
      sdk_client_response = \<lparr>cr_code = None, cr_message = None, cr_status = None\<rparr>\<rparr>"

definition nogroup :: sdk_error where
  "nogroup = busygroup\<lparr>sdk_text := ''NOGROUP No such consumer group''\<rparr>"

text \<open>A group remembers the last entry delivered to it: with the id \<open>$\<close> it starts after the entries there are.\<close>

definition mem_xgroup_create :: "string \<Rightarrow> string \<Rightarrow> string \<Rightarrow> (mem_redis, unit) io" where
  "mem_xgroup_create st g i s =
     (if map_of (mr_groups s) (st, g) \<noteq> None then (Inl (SdkError busygroup), s)
      else (Inr (), s\<lparr>mr_groups := ((st, g), if i = ''$'' then mr_last s else 0) # mr_groups s\<rparr>))"

text \<open>\<open>MAXLEN\<close>: only the newest \<open>n\<close> entries of the stream are kept, whether they were delivered or not.\<close>

fun trim_stream :: "string \<Rightarrow> nat \<Rightarrow> stream_entry list \<Rightarrow> stream_entry list" where
  "trim_stream st n [] = []"
| "trim_stream st n (e # es) =
     (if se_stream e = st \<and> n \<le> length (filter (\<lambda>e. se_stream e = st) es) then trim_stream st n es
      else e # trim_stream st n es)"

definition mem_xadd :: "string \<Rightarrow> (string \<times> string) list \<Rightarrow> int \<Rightarrow> (mem_redis, wire) io" where
  "mem_xadd st fs n s =
     (Inr (WBytes (id_text (next_id s))),
      s\<lparr>mr_last := next_id s,
        mr_entries := trim_stream st (nat n) (mr_entries s @ [\<lparr>se_stream = st, se_id = next_id s, se_fields = fs\<rparr>])\<rparr>)"

definition mem_xack :: "string \<Rightarrow> string \<Rightarrow> wire \<Rightarrow> (mem_redis, int) io" where
  "mem_xack st g w s =
     (let hit = (\<lambda>p. pe_stream p = st \<and> pe_group p = g \<and> as_str w = Inr (id_text (pe_entry p)))
      in (Inr (int (length (filter hit (mr_pel s)))), s\<lparr>mr_pel := filter (\<lambda>p. \<not> hit p) (mr_pel s)\<rparr>))"

definition mem_xreadgroup ::
  "string \<Rightarrow> string \<Rightarrow> (string \<times> string) list \<Rightarrow> int \<Rightarrow> (mem_redis, read_response) io" where
  "mem_xreadgroup g c streams n s =
     (case streams of
        [] \<Rightarrow> (Inr RNone, s)
      | (st, _) # _ \<Rightarrow>
          if map_of (mr_groups s) (st, g) = None then (Inl (SdkError nogroup), s)
          else
          let seen = the (map_of (mr_groups s) (st, g));
              ids = take (nat n) (map se_id (filter (\<lambda>e. se_stream e = st \<and> seen < se_id e) (mr_entries s)));
              pel = map (\<lambda>k. \<lparr>pe_stream = st, pe_group = g, pe_entry = k, pe_consumer = c,
                              pe_time = mr_now s, pe_count = 1\<rparr>) ids
          in if ids = [] then (Inr RNone, s)
             else (Inr (RLegacy [(WBytes (utf8_encode st), take (nat n) (concat (map (entry_with s) ids)))]),
                   s\<lparr>mr_groups := ((st, g), last ids) # mr_groups s, mr_pel := mr_pel s @ pel\<rparr>))"

definition mem_xautoclaim ::
  "string \<Rightarrow> string \<Rightarrow> string \<Rightarrow> int \<Rightarrow> int \<Rightarrow> (mem_redis, wire \<times> (wire \<times> wire_fields) list) io" where
  "mem_xautoclaim st g c idle n s =
     (if map_of (mr_groups s) (st, g) = None then (Inl (SdkError nogroup), s)
      else
      let old = (\<lambda>p. pe_stream p = st \<and> pe_group p = g \<and> idle \<le> mr_now s - pe_time p);
          ids = take (nat n) (map pe_entry (filter old (mr_pel s)));
          claim = (\<lambda>p. if old p \<and> pe_entry p \<in> set ids
                       then p\<lparr>pe_consumer := c, pe_time := mr_now s, pe_count := pe_count p + 1\<rparr> else p)
      in (Inr (WBytes ''0-0'', take (nat n) (concat (map (entry_with s) ids))),
          s\<lparr>mr_pel := map claim (mr_pel s)\<rparr>))"

definition mem_xpending_range :: "string \<Rightarrow> string \<Rightarrow> string \<Rightarrow> int \<Rightarrow> (mem_redis, int list) io" where
  "mem_xpending_range st g i n s =
     (Inr (take (nat n) (map pe_count
        (filter (\<lambda>p. pe_stream p = st \<and> pe_group p = g \<and> id_text (pe_entry p) = i) (mr_pel s)))), s)"

definition mem_client :: "mem_redis redis" where
  "mem_client =
     \<lparr>xgroup_create = (\<lambda>s g i mk. mem_command [] (mem_xgroup_create s g i)),
      xadd = (\<lambda>s fs n ap. mem_command [Added s fs] (mem_xadd s fs n)),
      xack = (\<lambda>s g i. mem_command [Acked s g i] (mem_xack s g i)),
      xreadgroup = (\<lambda>g c ss n b na. mem_command [] (mem_xreadgroup g c ss (max 0 n))),
      xautoclaim = (\<lambda>s g c idle start n. mem_command [] (mem_xautoclaim s g c idle (max 0 n))),
      xpending_range = (\<lambda>s g lo hi n. mem_command [] (mem_xpending_range s g lo n))\<rparr>"

subsection \<open>Lemmas\<close>

lemma writesD:
  "writes elog evs m \<Longrightarrow>
   wpE m (\<lambda>x s'. elog s' = elog s @ evs)
         (\<lambda>e s'. redis_raises e \<and> (elog s' = elog s \<or> elog s' = elog s @ evs)) s"
  by (rule wpE_I) (fastforce simp: writes_def)+

locale redis_client =
  fixes R :: "'r redis" and elog :: "'r \<Rightarrow> redis_event list"
  assumes laws: "redis_laws R elog"
begin

lemma xgroup_create_writes: "writes elog [] (xgroup_create R s g i mk)"
  and xadd_writes: "writes elog [Added s fs] (xadd R s fs n ap)"
  and xack_writes: "writes elog [Acked s g w] (xack R s g w)"
  and xreadgroup_writes: "writes elog [] (xreadgroup R g c ss n b na)"
  and xautoclaim_writes: "writes elog [] (xautoclaim R s g c k start n)"
  and xpending_range_writes: "writes elog [] (xpending_range R s g lo hi n)"
  using laws by (simp_all add: redis_laws_def)

lemmas wp_xgroup_create = writesD [OF xgroup_create_writes]
lemmas wp_xadd = writesD [OF xadd_writes]
lemmas wp_xack = writesD [OF xack_writes]
lemmas wp_xreadgroup = writesD [OF xreadgroup_writes]
lemmas wp_xautoclaim = writesD [OF xautoclaim_writes]
lemmas wp_xpending_range = writesD [OF xpending_range_writes]

lemma xreadgroup_count:
  "xreadgroup R g c ss n b na s = (Inr resp, s') \<Longrightarrow> (nm, es) \<in> set (response_streams resp) \<Longrightarrow>
   int (length es) \<le> max 0 n"
  using laws unfolding redis_laws_def by fast

lemma xautoclaim_count:
  "xautoclaim R st g c idle start n s = (Inr (w, es), s') \<Longrightarrow> int (length es) \<le> max 0 n"
  using laws unfolding redis_laws_def by fast

end

text \<open>The in-memory Redis satisfies the laws.\<close>

lemma writes_mem_command:
  assumes "\<And>s e s'. m s = (Inl e, s') \<Longrightarrow> redis_raises e"
  shows "writes mr_log evs (mem_command evs m)"
  using assms by (fastforce simp: writes_def mem_command_def redis_raises_def
      split: list.splits option.splits prod.splits sum.splits if_splits)

lemma mem_command_Inr:
  "mem_command evs m s = (Inr x, s') \<Longrightarrow> \<exists>t t'. m t = (Inr x, t')"
  by (fastforce simp: mem_command_def split: list.splits option.splits prod.splits if_splits)

lemmas mem_ops = mem_xgroup_create_def mem_xadd_def mem_xack_def mem_xreadgroup_def
  mem_xautoclaim_def mem_xpending_range_def

lemma mem_xreadgroup_count:
  "mem_xreadgroup g c ss n t = (Inr resp, t') \<Longrightarrow> (nm, es) \<in> set (response_streams resp) \<Longrightarrow>
   int (length es) \<le> max 0 n"
  by (auto simp: mem_xreadgroup_def Let_def split: list.splits if_splits)

lemma mem_xautoclaim_count:
  "mem_xautoclaim st g c idle n t = (Inr (w, es), t') \<Longrightarrow> int (length es) \<le> max 0 n"
  by (auto simp: mem_xautoclaim_def Let_def split: if_splits)

interpretation mem: redis_client mem_client mr_log
proof unfold_locales
  have w: "writes mr_log [] (xgroup_create mem_client s g i mk)"
    "writes mr_log [Added s fs] (xadd mem_client s fs n ap)"
    "writes mr_log [Acked s g i'] (xack mem_client s g i')"
    "writes mr_log [] (xreadgroup mem_client g c ss n b na)"
    "writes mr_log [] (xautoclaim mem_client s g c n start k)"
    "writes mr_log [] (xpending_range mem_client s g i j n)"
    for s g i mk fs n ap i' c ss b na start k j
    unfolding mem_client_def redis.simps
    by (rule writes_mem_command,
        auto simp: mem_ops redis_raises_def Let_def split: if_splits list.splits prod.splits)+
  have r: "int (length es) \<le> max 0 n"
    if "xreadgroup mem_client g c ss n b na s = (Inr resp, s')" "(nm, es) \<in> set (response_streams resp)"
    for g c ss n b na s resp s' nm es
    using that mem_command_Inr [of "[]" "mem_xreadgroup g c ss (max 0 n)" s resp s']
      mem_xreadgroup_count [of g c ss "max 0 n"] by (auto simp: mem_client_def)
  have c: "int (length es) \<le> max 0 n"
    if "xautoclaim mem_client st g c idle start n s = (Inr (w, es), s')"
    for st g c idle start n s w es s'
    using that mem_command_Inr [of "[]" "mem_xautoclaim st g c idle (max 0 n)" s "(w, es)" s']
      mem_xautoclaim_count [of st g c idle "max 0 n"] by (auto simp: mem_client_def)
  show "redis_laws mem_client mr_log"
    unfolding redis_laws_def by (auto intro: w dest: r c)
qed

lemma trim_stream_length:
  "length (filter (\<lambda>e. se_stream e = st) (trim_stream st n es)) \<le> min n (length (filter (\<lambda>e. se_stream e = st) es))"
  by (induction es) auto

lemma trim_stream_subset: "set (trim_stream st n es) \<subseteq> set es"
  by (induction es) auto

lemma trim_stream_other: "st' \<noteq> st \<Longrightarrow> filter (\<lambda>e. se_stream e = st' \<and> P e) (trim_stream st n es) = filter (\<lambda>e. se_stream e = st' \<and> P e) es"
  by (induction es) auto

lemma trim_stream_distinct: "distinct (map f es) \<Longrightarrow> distinct (map f (trim_stream st n es))"
  by (induction es) (use trim_stream_subset in fastforce)+

text \<open>Its entry ids decode, and without faults its writes go through.\<close>

lemma id_text_decodes [simp]: "as_str (WBytes (id_text n)) = Inr (id_text n)"
proof -
  have "char_code c < 128" if "c \<in> set (id_text n)" for c
  proof -
    from that have "c \<in> set (nat_digits 10 n) \<or> c = CHR ''-'' \<or> c = CHR ''0''"
      by (auto simp: id_text_def py_str_int_def)
    then consider d where "d < 10" "c = digit_char d" | "c = CHR ''-''" | "c = CHR ''0''"
      using set_nat_digits [of 10 n] by auto
    then show ?thesis by cases (auto simp: digit_char_def, simp_all add: char_code_def)
  qed
  then show ?thesis by (simp add: utf8_decode_ascii)
qed

lemma mem_xadd_ok:
  "mr_faults s = [] \<Longrightarrow> \<exists>s' n. xadd mem_client st fs k ap s = (Inr (WBytes (id_text n)), s') \<and> mr_faults s' = []"
  by (auto simp: mem_client_def mem_command_def mem_xadd_def)

lemma mem_xack_ok:
  "mr_faults s = [] \<Longrightarrow> \<exists>s' n. xack mem_client st g i s = (Inr n, s') \<and> mr_faults s' = []"
  by (simp add: mem_client_def mem_command_def mem_xack_def Let_def)

end
