(* ===== verification/SdkErrors.thy ===== *)
theory SdkErrors
  imports Exceptions
begin

section \<open>Error classification at the adapters' edge\<close>

text \<open>
  The five pure functions that translate a raw SDK exception into \<open>TransientUpstreamError\<close>
  (retried) or \<open>PermanentUpstreamError\<close> (fails fast): \<open>broker/_errors.py\<close>,
  \<open>object_store/errors.py\<close> and \<open>providers/_errors.py\<close>.  They are written over
  \<open>isinstance\<close>, so they assume no class hierarchy: an exception carries its own list of classes.
  The two functions that import their SDK inside a \<open>try\<close> take whether the import succeeds.
\<close>

definition transient :: "string \<Rightarrow> exn \<Rightarrow> exn" where
  "transient m exc = TransientUpstreamError m (Some exc)"

definition permanent :: "string \<Rightarrow> exn \<Rightarrow> exn" where
  "permanent m exc = PermanentUpstreamError m (Some exc)"

subsection \<open>Redis\<close>

definition PERMANENT_REDIS_TYPES :: "string list" where
  "PERMANENT_REDIS_TYPES =
     [''redis.exceptions.AuthenticationError'',
      ''redis.exceptions.AuthenticationWrongNumberOfArgsError'']"

definition TRANSIENT_REDIS_TYPES :: "string list" where
  "TRANSIENT_REDIS_TYPES =
     [''redis.exceptions.ConnectionError'', ''redis.exceptions.TimeoutError'',
      ''redis.exceptions.TryAgainError'']"

definition classify_redis_error :: "exn \<Rightarrow> exn" where
  "classify_redis_error exc =
     (if isinstance exc PERMANENT_REDIS_TYPES
      then permanent (''Redis auth error: '' @ exn_str exc) exc
      else if isinstance exc TRANSIENT_REDIS_TYPES
      then transient (''Redis transient error: '' @ exn_str exc) exc
      else if isinstance exc [''redis.exceptions.RedisError'']
      then permanent (''Redis permanent error: '' @ exn_str exc) exc
      else permanent (''Unexpected Redis error: '' @ exn_repr exc) exc)"

subsection \<open>Object store\<close>

definition TRANSIENT_CLIENT_CODES :: "string list" where
  "TRANSIENT_CLIENT_CODES =
     [''InternalError'', ''ServiceUnavailable'', ''SlowDown'', ''RequestTimeout'',
      ''RequestTimeoutException'', ''ThrottlingException'', ''TooManyRequests'']"

definition TRANSIENT_BOTOCORE_TYPES :: "string list" where
  "TRANSIENT_BOTOCORE_TYPES =
     [''botocore.exceptions.EndpointConnectionError'', ''botocore.exceptions.ConnectionClosedError'',
      ''botocore.exceptions.ConnectTimeoutError'', ''botocore.exceptions.ReadTimeoutError'',
      ''botocore.exceptions.ConnectionError'']"

definition CLIENT_ERROR :: "string list" where
  "CLIENT_ERROR = [''botocore.exceptions.ClientError'']"

definition opt_get :: "'a option \<Rightarrow> 'a \<Rightarrow> 'a" where
  "opt_get v d = (case v of None \<Rightarrow> d | Some x \<Rightarrow> x)"

fun client_response_of :: "exn \<Rightarrow> client_response" where
  "client_response_of (SdkError x) = sdk_client_response x"
| "client_response_of _ = \<lparr>cr_code = None, cr_message = None, cr_status = None\<rparr>"

definition classify_botocore_error :: "exn \<Rightarrow> exn" where
  "classify_botocore_error exc =
     (if isinstance exc TRANSIENT_BOTOCORE_TYPES
      then transient (''S3 connection error: '' @ exn_str exc) exc
      else if isinstance exc CLIENT_ERROR then
        let r = client_response_of exc;
            code = opt_get (cr_code r) [];
            status = opt_get (cr_status r) 0;
            detail = py_str_int status @ '' '' @ code @ '': '' @ opt_get (cr_message r) []
        in if 500 \<le> status \<or> code \<in> set TRANSIENT_CLIENT_CODES \<or> status = 429
           then transient (''S3 transient '' @ detail) exc
           else permanent (''S3 permanent '' @ detail) exc
      else if isinstance exc [''botocore.exceptions.BotoCoreError'']
      then permanent (''S3 client error: '' @ exn_str exc) exc
      else permanent (''Unexpected S3 error: '' @ exn_repr exc) exc)"

subsection \<open>Providers\<close>

fun response_status :: "exn \<Rightarrow> pyval option" where
  "response_status (SdkError x) = sdk_response_status x"
| "response_status _ = None"

fun status_attr :: "exn \<Rightarrow> pyval option" where
  "status_attr (SdkError x) = sdk_status x"
| "status_attr _ = None"

definition hf_status :: "exn \<Rightarrow> int option" where
  "hf_status exc = Option.bind (response_status exc) as_int"

definition str_opt_int :: "int option \<Rightarrow> string" where
  "str_opt_int n = (case n of None \<Rightarrow> ''None'' | Some k \<Rightarrow> py_str_int k)"

definition classify_hf_error :: "bool \<Rightarrow> exn \<Rightarrow> exn" where
  "classify_hf_error installed exc =
     (if \<not> installed then permanent (''HF error (hub not installed): '' @ exn_repr exc) exc
      else if isinstance exc [''huggingface_hub.errors.InferenceTimeoutError'']
      then transient (''HF inference timeout: '' @ exn_str exc) exc
      else if isinstance exc [''huggingface_hub.errors.HfHubHTTPError''] then
        let status = hf_status exc
        in if (case status of None \<Rightarrow> True | Some n \<Rightarrow> 500 \<le> n \<or> n = 429)
           then transient (''HF transient HTTP '' @ str_opt_int status @ '': '' @ exn_str exc) exc
           else permanent (''HF permanent HTTP '' @ str_opt_int status @ '': '' @ exn_str exc) exc
      else permanent (''HF error: '' @ exn_repr exc) exc)"

definition classify_pinecone_error :: "exn \<Rightarrow> exn" where
  "classify_pinecone_error exc =
     (case Option.bind (status_attr exc) as_int of
        Some n \<Rightarrow>
          if 500 \<le> n \<or> n = 429
          then transient (''Pinecone transient '' @ py_str_int n @ '': '' @ exn_str exc) exc
          else permanent (''Pinecone permanent '' @ py_str_int n @ '': '' @ exn_str exc) exc
      | None \<Rightarrow>
          let name = py_lower (class_name exc)
          in if contains ''timeout'' name \<or> contains ''connection'' name \<or> contains ''service'' name
             then transient (''Pinecone connection error: '' @ exn_str exc) exc
             else permanent (''Pinecone error: '' @ exn_repr exc) exc)"

definition classify_ddgs_error :: "bool \<Rightarrow> exn \<Rightarrow> exn" where
  "classify_ddgs_error installed exc =
     (if \<not> installed then permanent (''ddgs error (not installed): '' @ exn_repr exc) exc
      else if isinstance exc [''ddgs.exceptions.RatelimitException'', ''ddgs.exceptions.TimeoutException'']
      then transient (''ddgs transient: '' @ exn_str exc) exc
      else if isinstance exc [''ddgs.exceptions.DDGSException'']
      then permanent (''ddgs error: '' @ exn_str exc) exc
      else permanent (''ddgs unexpected error: '' @ exn_repr exc) exc)"

subsection \<open>Lemmas\<close>

lemma transient_simps [simp]:
  "is_transient (transient m e)" "\<not> is_permanent (transient m e)" "cause_of (transient m e) = Some e"
  "is_permanent (permanent m e)" "\<not> is_transient (permanent m e)" "cause_of (permanent m e) = Some e"
  by (simp_all add: transient_def permanent_def)

lemma upstream_simps [simp]: "is_upstream_error (transient m e)" "is_upstream_error (permanent m e)"
  by (simp_all add: is_upstream_error_def)

named_theorems classifiers \<open>the five classifiers\<close>

declare classify_redis_error_def [classifiers] classify_botocore_error_def [classifiers]
  classify_hf_error_def [classifiers] classify_pinecone_error_def [classifiers]
  classify_ddgs_error_def [classifiers]

lemma classify_redis_upstream [simp]: "is_upstream_error (classify_redis_error e)"
  and classify_botocore_upstream [simp]: "is_upstream_error (classify_botocore_error e)"
  and classify_hf_upstream [simp]: "is_upstream_error (classify_hf_error i e)"
  and classify_pinecone_upstream [simp]: "is_upstream_error (classify_pinecone_error e)"
  and classify_ddgs_upstream [simp]: "is_upstream_error (classify_ddgs_error i e)"
  by (simp_all add: classifiers Let_def split: option.splits)

text \<open>What every classifier promises of its result, shown for each by its branches.\<close>

definition wraps :: "exn \<Rightarrow> exn \<Rightarrow> bool" where
  "wraps e r \<longleftrightarrow> is_upstream_error r \<and> (is_transient r \<longleftrightarrow> \<not> is_permanent r) \<and> cause_of r = Some e"

lemma wraps_simps [simp]: "wraps e (transient m e)" "wraps e (permanent m e)"
  by (simp_all add: wraps_def)

lemma classify_redis_wraps: "wraps e (classify_redis_error e)"
  and classify_botocore_wraps: "wraps e (classify_botocore_error e)"
  and classify_hf_wraps: "wraps e (classify_hf_error i e)"
  and classify_pinecone_wraps: "wraps e (classify_pinecone_error e)"
  and classify_ddgs_wraps: "wraps e (classify_ddgs_error i e)"
  by (simp_all add: classifiers Let_def split: option.splits)

lemmas classify_wraps = classify_redis_wraps classify_botocore_wraps classify_hf_wraps
  classify_pinecone_wraps classify_ddgs_wraps

subsection \<open>Properties\<close>

text \<open>
  Every classifier is total and keeps the chain: whatever exception it is given, it returns an
  upstream error, transient or permanent and never both, whose \<open>cause\<close> is that exception.
\<close>

theorem classifiers_total:
  "f \<in> {classify_redis_error, classify_botocore_error, classify_pinecone_error,
         classify_hf_error i, classify_ddgs_error i} \<Longrightarrow>
   is_upstream_error (f e) \<and> (is_transient (f e) \<longleftrightarrow> \<not> is_permanent (f e)) \<and> cause_of (f e) = Some e"
  using classify_wraps [of e] by (auto simp only: wraps_def insert_iff empty_iff)

theorem classifiers_total_witness:
  "is_upstream_error (classify_redis_error (ValueError ''x'')) \<and>
   cause_of (classify_redis_error (ValueError ''x'')) = Some (ValueError ''x'')"
  using classifiers_total [of classify_redis_error True "ValueError ''x''"] by simp

text \<open>
  Redis: an error is retried exactly when it is a connection error, a timeout or a cluster
  \<open>TRYAGAIN\<close> and not an authentication failure; a bad password is never retried although
  \<open>AuthenticationError\<close> is a \<open>ConnectionError\<close>.
\<close>

theorem classify_redis_transient_iff:
  "is_transient (classify_redis_error e) =
     (\<exists>x. e = SdkError x \<and>
        set (sdk_mro x) \<inter> {''redis.exceptions.ConnectionError'', ''redis.exceptions.TimeoutError'',
                              ''redis.exceptions.TryAgainError''} \<noteq> {} \<and>
        ''redis.exceptions.AuthenticationError'' \<notin> set (sdk_mro x) \<and>
        ''redis.exceptions.AuthenticationWrongNumberOfArgsError'' \<notin> set (sdk_mro x))"
  by (cases e) (auto simp: classify_redis_error_def PERMANENT_REDIS_TYPES_def TRANSIENT_REDIS_TYPES_def)

text \<open>
  Object store: an error is retried exactly when it is a connection-layer error, or a service
  response with status 429 or at least 500 or with one of the throttling codes; in particular a 403, a
  404 or a 400 with another code is permanent.
\<close>

theorem classify_botocore_transient_iff:
  "is_transient (classify_botocore_error e) =
     (isinstance e TRANSIENT_BOTOCORE_TYPES \<or>
      isinstance e CLIENT_ERROR \<and>
      (case cr_status (client_response_of e) of Some n \<Rightarrow> 500 \<le> n \<or> n = 429 | None \<Rightarrow> False) \<or>
      isinstance e CLIENT_ERROR \<and>
      (\<exists>c. cr_code (client_response_of e) = Some c \<and> c \<in> set TRANSIENT_CLIENT_CODES))"
  by (auto simp: classify_botocore_error_def Let_def opt_get_def TRANSIENT_CLIENT_CODES_def
      split: option.splits)

text \<open>
  Providers: Hugging Face retries its timeouts and the HTTP errors with status 429, at least 500 or no
  readable status; Pinecone goes by an integer status, and only without one by the class name; ddgs
  retries rate limits and timeouts.  With the SDK not installed nothing is retried.
\<close>

theorem classify_providers_transient_iff:
  "is_transient (classify_hf_error i e) =
     (i \<and> (isinstance e [''huggingface_hub.errors.InferenceTimeoutError''] \<or>
           isinstance e [''huggingface_hub.errors.HfHubHTTPError''] \<and>
           (\<forall>n. hf_status e = Some n \<longrightarrow> 500 \<le> n \<or> n = 429))) \<and>
   is_transient (classify_pinecone_error e) =
     (case Option.bind (status_attr e) as_int of
        Some n \<Rightarrow> 500 \<le> n \<or> n = 429
      | None \<Rightarrow> \<exists>w \<in> {''timeout'', ''connection'', ''service''}. contains w (py_lower (class_name e))) \<and>
   is_transient (classify_ddgs_error i e) =
     (i \<and> isinstance e [''ddgs.exceptions.RatelimitException'', ''ddgs.exceptions.TimeoutException''])"
proof (intro conjI)
  show "is_transient (classify_hf_error i e) =
     (i \<and> (isinstance e [''huggingface_hub.errors.InferenceTimeoutError''] \<or>
           isinstance e [''huggingface_hub.errors.HfHubHTTPError''] \<and>
           (\<forall>n. hf_status e = Some n \<longrightarrow> 500 \<le> n \<or> n = 429)))"
    by (simp add: classify_hf_error_def Let_def split: option.splits)
  show "is_transient (classify_pinecone_error e) =
     (case Option.bind (status_attr e) as_int of
        Some n \<Rightarrow> 500 \<le> n \<or> n = 429
      | None \<Rightarrow> \<exists>w \<in> {''timeout'', ''connection'', ''service''}. contains w (py_lower (class_name e)))"
    by (simp add: classify_pinecone_error_def Let_def split: option.splits)
  show "is_transient (classify_ddgs_error i e) =
     (i \<and> isinstance e [''ddgs.exceptions.RatelimitException'', ''ddgs.exceptions.TimeoutException''])"
    by (simp add: classify_ddgs_error_def)
qed

text \<open>The three outcomes at a concrete exception: a 503, a missing status, and a name.\<close>

theorem classify_providers_transient_iff_witness:
  "let x = \<lparr>sdk_mro = [''huggingface_hub.errors.HfHubHTTPError''], sdk_name = ''HfHubHTTPError'',
            sdk_text = ''busy'', sdk_repr = ''HfHubHTTPError('' @ py_repr_str ''busy'' @ '')'',
            sdk_status = None, sdk_response_status = Some (PInt 503),
            sdk_client_response = \<lparr>cr_code = None, cr_message = None, cr_status = None\<rparr>\<rparr>
   in is_transient (classify_hf_error True (SdkError x)) \<and>
      \<not> is_transient (classify_pinecone_error (SdkError x))"
proof -
  define x where "x = \<lparr>sdk_mro = [''huggingface_hub.errors.HfHubHTTPError''], sdk_name = ''HfHubHTTPError'',
      sdk_text = ''busy'', sdk_repr = ''HfHubHTTPError('' @ py_repr_str ''busy'' @ '')'',
      sdk_status = None, sdk_response_status = Some (PInt 503),
      sdk_client_response = \<lparr>cr_code = None, cr_message = None, cr_status = None\<rparr>\<rparr>"
  have n: "\<not> contains ''timeout'' (py_lower ''HfHubHTTPError'')"
    "\<not> contains ''connection'' (py_lower ''HfHubHTTPError'')"
    "\<not> contains ''service'' (py_lower ''HfHubHTTPError'')" by code_simp+
  have hf: "hf_status (SdkError x) = Some 503" "isinstance (SdkError x) [''huggingface_hub.errors.HfHubHTTPError'']"
    "status_attr (SdkError x) = None" "class_name (SdkError x) = ''HfHubHTTPError''"
    by (simp_all add: hf_status_def x_def)
  show ?thesis
    using classify_providers_transient_iff [of True "SdkError x"] hf n
    unfolding Let_def x_def [symmetric] by simp
qed

end
