(* ===== verification/Producer.thy ===== *)
theory Producer
  imports Redis SdkErrors
begin

section \<open>The broker's write side (\<open>broker/producer.py\<close>, \<open>ports/queue.py\<close>)\<close>

text \<open>
  The producer and the group bootstrap, over the six client methods of \<open>Redis\<close>; the port \<open>JobQueue\<close> as
  the locale \<open>job_queue\<close>, which \<open>StreamProducer\<close> over any lawful Redis client provides.
\<close>

subsection \<open>Group bootstrap\<close>

definition ensure_group :: "'r redis \<Rightarrow> broker_keys \<Rightarrow> ('r, unit) io" where
  "ensure_group R keys =
     tryE (xgroup_create R (k_stream keys) (k_group keys) ''$'' True)
       (\<lambda>exc. if isinstance exc [''redis.exceptions.ResponseError''] \<and> contains ''BUSYGROUP'' (exn_str exc)
               then ret () else raiseE exc)"

subsection \<open>\<open>StreamProducer\<close>\<close>

record 'r producer =
  p_redis :: "'r redis"
  p_keys :: broker_keys
  p_maxlen :: int

definition producer_init :: "'r redis \<Rightarrow> broker_keys \<Rightarrow> broker_settings \<Rightarrow> 'r producer" where
  "producer_init R keys settings = \<lparr>p_redis = R, p_keys = keys, p_maxlen = bs_maxlen settings\<rparr>"

definition prod_xadd :: "'r producer \<Rightarrow> string \<Rightarrow> (string \<times> string) list \<Rightarrow> ('r, string) io" where
  "prod_xadd p stream fs =
     bindE
       (tryE (xadd (p_redis p) stream fs (p_maxlen p) True)
          (\<lambda>exc. if isinstance exc [''redis.exceptions.RedisError'']
                  then raiseE (classify_redis_error exc) else raiseE exc))
       (\<lambda>message_id. liftE (as_str message_id))"

definition publish :: "'r producer \<Rightarrow> inference_job \<Rightarrow> ('r, unit) io" where
  "publish p job =
     bindE (prod_xadd p (k_stream (p_keys p)) (to_fields (first_delivery job))) (\<lambda>decoded. ret ())"

definition republish :: "'r producer \<Rightarrow> job_message \<Rightarrow> ('r, string) io" where
  "republish p message = prod_xadd p (k_stream (p_keys p)) (to_fields message)"

definition dead_letter :: "'r producer \<Rightarrow> job_message \<Rightarrow> string \<Rightarrow> ('r, string) io" where
  "dead_letter p message reason =
     prod_xadd p (k_dlq (p_keys p)) (to_fields message @ [(''reason'', reason)])"

subsection \<open>The port \<open>JobQueue\<close>\<close>

text \<open>The pointers ever appended to a stream, in order.\<close>

definition sent_to :: "string \<Rightarrow> redis_event list \<Rightarrow> (string \<times> string) list list" where
  "sent_to stream evs =
     concat (map (\<lambda>ev. case ev of Added st fs \<Rightarrow> if st = stream then [fs] else [] | Acked _ _ _ \<Rightarrow> []) evs)"

text \<open>
  A call of \<open>publish\<close> that returns has enqueued the first-delivery pointer of its job and nothing else; one
  that raises may have enqueued it.
\<close>

type_synonym 'q publish_port = "inference_job \<Rightarrow> ('q, unit) io"

locale job_queue =
  fixes publish :: "'q publish_port" and sent :: "'q \<Rightarrow> (string \<times> string) list list"
  assumes publish_law: "publish job s = (r, s') \<Longrightarrow>
      (case r of
         Inr u \<Rightarrow> sent s' = sent s @ [to_fields (first_delivery job)]
       | Inl e \<Rightarrow> sent s' = sent s \<or> sent s' = sent s @ [to_fields (first_delivery job)])"
begin

lemma wp_publish:
  "wpE (publish job) (\<lambda>u s'. sent s' = sent s @ [to_fields (first_delivery job)])
     (\<lambda>e s'. sent s' = sent s \<or> sent s' = sent s @ [to_fields (first_delivery job)]) s"
  by (rule wpE_I) (use publish_law in fastforce)+

end

subsection \<open>Lemmas\<close>

lemma sent_to_simps [simp]:
  "sent_to st [] = []"
  "sent_to st (evs @ evs') = sent_to st evs @ sent_to st evs'"
  "sent_to st (Added st' fs # evs) = (if st' = st then [fs] else []) @ sent_to st evs"
  "sent_to st (Acked s g i # evs) = sent_to st evs"
  by (simp_all add: sent_to_def)

context redis_client
begin

text \<open>What the three publishing operations have in common: one \<open>XADD\<close>.\<close>

lemma wp_prod_xadd:
  assumes "p_redis p = R"
  shows "wpE (prod_xadd p stream fs)
     (\<lambda>i s'. elog s' = elog s @ [Added stream fs])
     (\<lambda>e s'. (elog s' = elog s \<or> elog s' = elog s @ [Added stream fs]) \<and>
        (is_upstream_error e \<or> (\<exists>m. e = UnicodeDecodeError m) \<or>
         redis_raises e \<and> \<not> isinstance e [''redis.exceptions.RedisError''])) s"
  unfolding prod_xadd_def wp assms
  by (rule wpE_mono [OF wp_xadd]) (auto simp: wp dest!: as_str_error split: sum.splits)

lemma publish_queue: "job_queue (publish (producer_init R keys settings)) (\<lambda>s. sent_to (k_stream keys) (elog s))"
proof
  fix job s r s'
  assume run: "publish (producer_init R keys settings) job s = (r, s')"
  have "wpE (publish (producer_init R keys settings) job)
      (\<lambda>u s'. elog s' = elog s @ [Added (k_stream keys) (to_fields (first_delivery job))])
      (\<lambda>e s'. elog s' = elog s \<or> elog s' = elog s @ [Added (k_stream keys) (to_fields (first_delivery job))]) s"
    unfolding publish_def wp
    by (rule wpE_mono [OF wp_prod_xadd]) (auto simp: producer_init_def wp)
  with run show "case r of
      Inr u \<Rightarrow> sent_to (k_stream keys) (elog s') =
        sent_to (k_stream keys) (elog s) @ [to_fields (first_delivery job)]
    | Inl e \<Rightarrow> sent_to (k_stream keys) (elog s') = sent_to (k_stream keys) (elog s) \<or>
        sent_to (k_stream keys) (elog s') =
          sent_to (k_stream keys) (elog s) @ [to_fields (first_delivery job)]"
    by (auto simp: wpE_def split: sum.splits)
qed

end

sublocale redis_client \<subseteq> queue: job_queue "publish (producer_init R keys settings)"
    "\<lambda>s. sent_to (k_stream keys) (elog s)" for keys settings
  by (rule publish_queue)

interpretation mem_queue: job_queue "publish (producer_init mem_client keys settings)"
    "\<lambda>s. sent_to (k_stream keys) (mr_log s)" for keys settings
  by (rule mem.publish_queue)

lemma mem_prod_xadd_ok:
  assumes "p_redis p = mem_client" "mr_faults s = []"
  shows "\<exists>s' i. prod_xadd p stream fs s = (Inr i, s') \<and> mr_faults s' = []"
  using mem_xadd_ok [OF assms(2), of stream fs "p_maxlen p" True]
  by (auto simp: prod_xadd_def assms(1) bindE_def tryE_def liftE_def simp del: as_str.simps)

subsection \<open>Properties\<close>

text \<open>
  Group bootstrap is idempotent and hides nothing else: \<open>ensure_group\<close> returns exactly when the group
  was created or Redis answered \<open>BUSYGROUP\<close>, every other exception comes out as it was raised, and it
  makes exactly one call, \<open>XGROUP CREATE stream group $ MKSTREAM\<close>.
\<close>

theorem ensure_group_spec:
  "(case (xgroup_create R (k_stream keys) (k_group keys) ''$'' True s, ensure_group R keys s) of
      ((Inr u, s1), (r, s')) \<Rightarrow> r = Inr () \<and> s' = s1
    | ((Inl e, s1), (r, s')) \<Rightarrow> s' = s1 \<and>
        (r = Inr () \<and> isinstance e [''redis.exceptions.ResponseError''] \<and> contains ''BUSYGROUP'' (exn_str e) \<or>
         r = Inl e \<and> \<not> (isinstance e [''redis.exceptions.ResponseError''] \<and> contains ''BUSYGROUP'' (exn_str e))))"
  by (auto simp: ensure_group_def tryE_def ret_def raiseE_def split: prod.splits sum.splits)

text \<open>
  One publishing call is one \<open>XADD\<close>, to the right stream, of the right pointer: \<open>publish\<close> starts at
  attempt 1, \<open>republish\<close> keeps the attempt number it is given, and \<open>dead_letter\<close> writes to the
  dead-letter stream with the reason.  It has been appended when the call returns, at most once when it
  raises; what is appended reads back as the pointer; and an exception of redis-py comes out as an
  upstream error.
\<close>

theorem producer_appends:
  assumes "redis_client (p_redis p) elog"
    and "(op, stream, m, extra) \<in>
      {(bindE (publish p job) (\<lambda>u. ret []), k_stream (p_keys p), first_delivery job, []),
       (republish p msg, k_stream (p_keys p), msg, []),
       (dead_letter p msg reason, k_dlq (p_keys p), msg, [(''reason'', reason)])}"
    and "op s = (r, s')"
  shows "(case r of
      Inr i \<Rightarrow> elog s' = elog s @ [Added stream (to_fields m @ extra)]
    | Inl e \<Rightarrow> (elog s' = elog s \<or> elog s' = elog s @ [Added stream (to_fields m @ extra)]) \<and>
        (is_upstream_error e \<or> (\<exists>t. e = UnicodeDecodeError t) \<or>
         redis_raises e \<and> \<not> isinstance e [''redis.exceptions.RedisError''])) \<and>
    from_fields (map (\<lambda>(k, v). (WBytes (utf8_encode k), WBytes (utf8_encode v))) (to_fields m @ extra)) = Inr m"
proof (rule conjI)
  note x = redis_client.wp_prod_xadd [OF assms(1) refl]
  have "wpE op (\<lambda>i s'. elog s' = elog s @ [Added stream (to_fields m @ extra)])
    (\<lambda>e s'. (elog s' = elog s \<or> elog s' = elog s @ [Added stream (to_fields m @ extra)]) \<and>
        (is_upstream_error e \<or> (\<exists>t. e = UnicodeDecodeError t) \<or>
         redis_raises e \<and> \<not> isinstance e [''redis.exceptions.RedisError''])) s"
    using assms(2) x [of "k_stream (p_keys p)" "to_fields m" s] x [of stream "to_fields m @ extra" s]
    by (auto simp: publish_def republish_def dead_letter_def wp)
  with assms(3) show "case r of
      Inr i \<Rightarrow> elog s' = elog s @ [Added stream (to_fields m @ extra)]
    | Inl e \<Rightarrow> (elog s' = elog s \<or> elog s' = elog s @ [Added stream (to_fields m @ extra)]) \<and>
        (is_upstream_error e \<or> (\<exists>t. e = UnicodeDecodeError t) \<or>
         redis_raises e \<and> \<not> isinstance e [''redis.exceptions.RedisError''])"
    by (simp add: wpE_def split: sum.splits)
  have "list_all2 (\<lambda>(k, v) (k', v'). carries k k' \<and> carries v v')
      (map (\<lambda>(k, v). (WBytes (utf8_encode k), WBytes (utf8_encode v))) fs) fs" for fs
    by (induction fs) (auto simp: carries_def)
  then show "from_fields (map (\<lambda>(k, v). (WBytes (utf8_encode k), WBytes (utf8_encode v)))
      (to_fields m @ extra)) = Inr m"
    by (rule from_fields_carries) (use assms(2) in auto)
qed

theorem producer_appends_witness:
  "let p = producer_init mem_client (keys_from_settings default_broker) default_broker;
       m = \<lparr>m_job_id = 5, m_job_type = RAG_QUERY, m_attempt = 3\<rparr>
   in mr_log (snd (republish p m mem_start)) = [Added ''aie:jobs'' (to_fields m)]"
proof -
  define p where "p = producer_init mem_client (keys_from_settings default_broker) default_broker"
  define m where "m = \<lparr>m_job_id = 5, m_job_type = RAG_QUERY, m_attempt = 3\<rparr>"
  have R: "p_redis p = mem_client" and k: "k_stream (p_keys p) = ''aie:jobs''"
    by (simp_all add: p_def producer_init_def keys_from_settings_def default_broker_def)
  have id: "as_str (WBytes ''1-0'') = Inr ''1-0''" by code_simp
  have i: "id_text 1 = ''1-0''" by code_simp
  obtain s' where run: "republish p m mem_start = (Inr ''1-0'', s')"
    using id i by (simp add: republish_def prod_xadd_def R k mem_client_def mem_command_def mem_start_def
        mem_xadd_def next_id_def bindE_def tryE_def liftE_def del: as_str.simps)
  have lawful: "redis_client (p_redis p) mr_log" using mem.redis_client_axioms R by simp
  show ?thesis
    using producer_appends [where op = "republish p m" and p = p and elog = mr_log and msg = m and m = m
        and stream = "k_stream (p_keys p)" and extra = "[]" and s = mem_start and r = "Inr ''1-0''"
        and s' = s', OF lawful _ run] run
    by (simp add: mem_start_def k Let_def flip: p_def m_def)
qed

end
