(* ===== verification/Routing.thy ===== *)
theory Routing
  imports Processor Producer
begin

section \<open>Routing one delivered message (\<open>broker/consumer.py\<close>, first part)\<close>

text \<open>
  What \<open>StreamConsumer\<close> does with one message, over the triple of Redis, the job store and the rest of
  the world: the idempotency guard, the processor, and the routing of its outcome to an
  acknowledgement, a retry or the dead-letter stream.  The record \<open>consumer\<close> holds the collaborators and
  the settings that \<open>__init__\<close> stores.  The \<open>finally\<close> of \<open>_process_and_route\<close>, which is about the
  consumer's own bookkeeping, is in \<open>Consumer\<close>.

  The lemmas are proved for any lawful Redis, any \<open>job_repository\<close> and any \<open>job_processor\<close> over it (the
  locale \<open>routing\<close>), in terms of the commands that took effect on Redis and of the job's row.
\<close>

record ('r, 'd, 'x) consumer =
  co_redis :: "'r redis"
  co_keys :: broker_keys
  co_repo :: "'d repository"
  co_process :: "job_message \<Rightarrow> ('d \<times> 'x, unit) io"
  co_producer :: "'r producer"
  co_utcnow :: "'x \<Rightarrow> int \<times> 'x"
  co_concurrency :: int
  co_block_ms :: int
  co_reclaim_idle_ms :: int
  co_max_attempts :: int
  co_max_delivery_count :: int
  co_name :: string

definition consumer_init ::
  "'r redis \<Rightarrow> broker_keys \<Rightarrow> broker_settings \<Rightarrow> 'd repository \<Rightarrow> (job_message \<Rightarrow> ('d \<times> 'x, unit) io) \<Rightarrow>
   'r producer \<Rightarrow> ('x \<Rightarrow> int \<times> 'x) \<Rightarrow> string \<Rightarrow> ('r, 'd, 'x) consumer" where
  "consumer_init R keys settings repo proc producer clock name =
     \<lparr>co_redis = R, co_keys = keys, co_repo = repo, co_process = proc, co_producer = producer,
      co_utcnow = clock, co_concurrency = bs_worker_concurrency settings,
      co_block_ms = bs_block_ms settings, co_reclaim_idle_ms = bs_reclaim_idle_ms settings,
      co_max_attempts = bs_max_attempts settings,
      co_max_delivery_count = bs_max_delivery_count settings, co_name = name\<rparr>"

subsection \<open>The helpers on the store\<close>

definition already_terminal :: "('r, 'd, 'x) consumer \<Rightarrow> job_message \<Rightarrow> ('d, bool) io" where
  "already_terminal c message =
     bindE (get_or_none (co_repo c) (m_job_id message)) (\<lambda>job.
       ret (case job of None \<Rightarrow> True | Some job \<Rightarrow> is_terminal job))"

definition requeue_row :: "('r, 'd, 'x) consumer \<Rightarrow> job_message \<Rightarrow> ('d \<times> 'x, unit) io" where
  "requeue_row c message =
     bindE (on_fst (get_or_none (co_repo c) (m_job_id message))) (\<lambda>job.
       case job of
         None \<Rightarrow> ret ()
       | Some job \<Rightarrow>
           bindE (on_snd (read_clock (co_utcnow c))) (\<lambda>now.
           bindE (liftE (requeue now job)) (\<lambda>job.
           on_fst (rp_update (co_repo c) job))))"

definition mark_failed_row :: "('r, 'd, 'x) consumer \<Rightarrow> job_message \<Rightarrow> string \<Rightarrow> ('d \<times> 'x, unit) io" where
  "mark_failed_row c message error =
     bindE (on_fst (get_or_none (co_repo c) (m_job_id message))) (\<lambda>job.
       case job of
         None \<Rightarrow> ret ()
       | Some job \<Rightarrow>
           bindE (on_snd (read_clock (co_utcnow c))) (\<lambda>now.
           bindE (liftE (mark_failed error None now job)) (\<lambda>job.
           on_fst (rp_update (co_repo c) job))))"

subsection \<open>The helpers on Redis\<close>

definition ack :: "('r, 'd, 'x) consumer \<Rightarrow> wire \<Rightarrow> ('r, unit) io" where
  "ack c message_id =
     bindE (xack (co_redis c) (k_stream (co_keys c)) (k_group (co_keys c)) message_id) (\<lambda>n. ret ())"

definition route_to_dlq :: "('r, 'd, 'x) consumer \<Rightarrow> wire \<Rightarrow> job_message \<Rightarrow> string \<Rightarrow> ('r, unit) io" where
  "route_to_dlq c message_id message reason =
     bindE (dead_letter (co_producer c) message reason) (\<lambda>i. ack c message_id)"

subsection \<open>Routing\<close>

definition on_transient ::
  "('r, 'd, 'x) consumer \<Rightarrow> wire \<Rightarrow> job_message \<Rightarrow> exn \<Rightarrow> ('r \<times> 'd \<times> 'x, unit) io" where
  "on_transient c message_id message exc =
     (if co_max_attempts c \<le> m_attempt message
      then
        bindE (on_fst (route_to_dlq c message_id message
          (''transient, attempts exhausted ('' @ py_str_int (m_attempt message) @ ''): '' @ exn_str exc)))
          (\<lambda>u. on_snd (mark_failed_row c message
            (''exhausted after '' @ py_str_int (m_attempt message) @ '': '' @ exn_str exc)))
      else
        bindE (on_snd (requeue_row c message)) (\<lambda>u.
        bindE (on_fst (republish (co_producer c) (next_attempt message))) (\<lambda>retry_id.
        on_fst (ack c message_id))))"

definition route_failure ::
  "('r, 'd, 'x) consumer \<Rightarrow> wire \<Rightarrow> job_message \<Rightarrow> exn \<Rightarrow> ('r \<times> 'd \<times> 'x, unit) io" where
  "route_failure c message_id message exc =
     (if is_transient exc then on_transient c message_id message exc
      else if is_permanent exc
      then bindE (on_fst (route_to_dlq c message_id message (''permanent: '' @ exn_str exc)))
             (\<lambda>u. on_snd (mark_failed_row c message (exn_str exc)))
      else bindE (on_fst (route_to_dlq c message_id message (''unexpected: '' @ exn_repr exc)))
             (\<lambda>u. on_snd (mark_failed_row c message (exn_repr exc))))"

definition route :: "('r, 'd, 'x) consumer \<Rightarrow> wire \<Rightarrow> job_message \<Rightarrow> ('r \<times> 'd \<times> 'x, unit) io" where
  "route c message_id message =
     bindE (on_snd (on_fst (already_terminal c message))) (\<lambda>terminal.
       if terminal then on_fst (ack c message_id)
       else tryElse (on_snd (co_process c message))
              (\<lambda>exc. route_failure c message_id message exc)
              (\<lambda>u. on_fst (ack c message_id)))"

subsection \<open>What routing may do\<close>

text \<open>The row of a message's job, as the outcomes speak of it; a row that vanished counts.\<close>

definition row_is :: "job_status \<Rightarrow> (uuid \<rightharpoonup> inference_job) \<Rightarrow> uuid \<Rightarrow> bool" where
  "row_is st js i = (case js i of None \<Rightarrow> True | Some j \<Rightarrow> j_status j = st)"

definition failed_with :: "string \<Rightarrow> (uuid \<rightharpoonup> inference_job) \<Rightarrow> uuid \<Rightarrow> bool" where
  "failed_with err js i =
     (case js i of None \<Rightarrow> True | Some j \<Rightarrow> j_status j = FAILED \<and> j_error j = Some err)"

text \<open>The three commands on Redis.\<close>

definition acked :: "('r, 'd, 'x) consumer \<Rightarrow> wire \<Rightarrow> redis_event" where
  "acked c message_id = Acked (k_stream (co_keys c)) (k_group (co_keys c)) message_id"

definition retried :: "('r, 'd, 'x) consumer \<Rightarrow> job_message \<Rightarrow> redis_event" where
  "retried c m = Added (k_stream (p_keys (co_producer c))) (to_fields (next_attempt m))"

definition dead :: "('r, 'd, 'x) consumer \<Rightarrow> job_message \<Rightarrow> string \<Rightarrow> redis_event" where
  "dead c m reason = Added (k_dlq (p_keys (co_producer c))) (to_fields m @ [(''reason'', reason)])"

text \<open>
  The two texts of a failure that is not retried: the dead-letter entry's reason, the row's error.
\<close>

definition failure_texts :: "job_message \<Rightarrow> exn \<Rightarrow> string \<times> string" where
  "failure_texts m e =
     (if is_transient e
      then (''transient, attempts exhausted ('' @ py_str_int (m_attempt m) @ ''): '' @ exn_str e,
            ''exhausted after '' @ py_str_int (m_attempt m) @ '': '' @ exn_str e)
      else if is_permanent e then (''permanent: '' @ exn_str e, exn_str e)
      else (''unexpected: '' @ exn_repr e, exn_repr e))"

text \<open>
  A message was handled: done, or handed over to a retry, or handed over to the dead-letter stream.
  \<open>attempted\<close> is what may have happened when routing raised.
\<close>

definition handled ::
  "('r, 'd, 'x) consumer \<Rightarrow> wire \<Rightarrow> job_message \<Rightarrow> redis_event list \<Rightarrow> (uuid \<rightharpoonup> inference_job) \<Rightarrow> bool" where
  "handled c i m evs js \<longleftrightarrow>
     evs = [acked c i] \<and> settled_in js (m_job_id m) \<or>
     evs = [retried c m, acked c i] \<and> m_attempt m < co_max_attempts c \<and> row_is PENDING js (m_job_id m) \<or>
     (\<exists>reason. evs = [dead c m reason, acked c i] \<and> row_is FAILED js (m_job_id m))"

definition attempted ::
  "('r, 'd, 'x) consumer \<Rightarrow> wire \<Rightarrow> job_message \<Rightarrow> redis_event list \<Rightarrow> (uuid \<rightharpoonup> inference_job) \<Rightarrow> bool" where
  "attempted c i m evs js \<longleftrightarrow>
     evs = [] \<or>
     evs = [acked c i] \<and> settled_in js (m_job_id m) \<or>
     (evs = [retried c m] \<or> evs = [retried c m, acked c i]) \<and>
       m_attempt m < co_max_attempts c \<and> row_is PENDING js (m_job_id m) \<or>
     (\<exists>reason. evs = [dead c m reason] \<or> evs = [dead c m reason, acked c i])"

lemma failed_with_row: "failed_with err js i \<Longrightarrow> row_is FAILED js i"
  by (simp add: failed_with_def row_is_def split: option.splits)

locale routing =
  redis_client R elog + job_repository "rp_add repo" "rp_get repo" "rp_update repo" jobs +
  job_processor proc jobs
  for R :: "'r redis" and elog and repo :: "'d repository" and jobs
    and proc :: "job_message \<Rightarrow> ('d \<times> 'x, unit) io" +
  fixes c :: "('r, 'd, 'x) consumer"
  assumes wired: "co_redis c = R" "p_redis (co_producer c) = R" "co_repo c = repo" "co_process c = proc"
begin

lemma wp_ack:
  "wpE (ack c i) (\<lambda>u s'. elog s' = elog s @ [acked c i])
     (\<lambda>e s'. elog s' = elog s \<or> elog s' = elog s @ [acked c i]) s"
  unfolding ack_def wp wired acked_def by (rule wpE_mono [OF wp_xack]) (auto simp: wp)

lemma wp_republish:
  "wpE (republish (co_producer c) (next_attempt m)) (\<lambda>i s'. elog s' = elog s @ [retried c m])
     (\<lambda>e s'. elog s' = elog s \<or> elog s' = elog s @ [retried c m]) s"
  unfolding republish_def retried_def by (rule wpE_mono [OF wp_prod_xadd]) (auto simp: wired)

lemma wp_route_to_dlq:
  "wpE (route_to_dlq c i m reason) (\<lambda>u s'. elog s' = elog s @ [dead c m reason, acked c i])
     (\<lambda>e s'. elog s' = elog s \<or> elog s' = elog s @ [dead c m reason] \<or>
        elog s' = elog s @ [dead c m reason, acked c i]) s"
  unfolding route_to_dlq_def dead_letter_def dead_def wp
  by (rule wpE_mono [OF wp_prod_xadd]; (auto simp: wired)?)
     (rule wpE_mono [OF wp_ack]; auto)

text \<open>The transitions of the row, each from \<open>RUNNING\<close>.\<close>

lemma wp_requeue_row:
  "wpE (requeue_row c m)
     (\<lambda>u w'. row_is PENDING (jobs (fst w')) (m_job_id m) \<and>
        (\<forall>i. i \<noteq> m_job_id m \<longrightarrow> jobs (fst w') i = jobs (fst w) i))
     (\<lambda>e w'. jobs (fst w') = jobs (fst w)) w"
  unfolding requeue_row_def wp_world wired
proof (rule wp_load [OF refl], goal_cases)
  case (2 j d')
  show ?case
  proof (cases "requeue (fst (co_utcnow c (snd w))) j")
    case (Inl e)
    with 2 show ?thesis by (simp add: wp_world)
  next
    case (Inr j')
    then have "j_id j' = m_job_id m" "j_status j' = PENDING" using 2 by (auto simp: requeue_Inr)
    with Inr 2 show ?thesis by (auto simp: wp_world row_is_def intro!: wp_update)
  qed
qed (auto simp: wp row_is_def)

lemma wp_mark_failed_row:
  "wpE (mark_failed_row c m err)
     (\<lambda>u w'. failed_with err (jobs (fst w')) (m_job_id m) \<and>
        (\<forall>i. i \<noteq> m_job_id m \<longrightarrow> jobs (fst w') i = jobs (fst w) i))
     (\<lambda>e w'. jobs (fst w') = jobs (fst w)) w"
  unfolding mark_failed_row_def wp_world wired
proof (rule wp_load [OF refl], goal_cases)
  case (2 j d')
  show ?case
  proof (cases "mark_failed err None (fst (co_utcnow c (snd w))) j")
    case (Inl e)
    with 2 show ?thesis by (simp add: wp_world)
  next
    case (Inr j')
    then have "j_id j' = m_job_id m" "j_status j' = FAILED" "j_error j' = Some err" using 2 by (auto simp: mark_failed_Inr)
    with Inr 2 show ?thesis by (auto simp: wp_world failed_with_def intro!: wp_update)
  qed
qed (auto simp: wp failed_with_def)

text \<open>The guard and the routing of a failure, then the whole.\<close>

lemma wp_already_terminal:
  "wpE (already_terminal c m)
     (\<lambda>t d'. jobs d' = jobs d \<and> (t \<longleftrightarrow> settled_in (jobs d) (m_job_id m)))
     (\<lambda>e d'. jobs d' = jobs d) d"
  unfolding already_terminal_def wp wired
  by (rule wp_load [OF refl]) (auto simp: wp settled_in_def)

lemma wp_dead_lettered:
  "wpE (bindE (on_fst (route_to_dlq c i m reason)) (\<lambda>u. on_snd (mark_failed_row c m err)))
     (\<lambda>u w'. elog (fst w') = elog (fst w) @ [dead c m reason, acked c i] \<and>
        failed_with err (jobs (fst (snd w'))) (m_job_id m) \<and>
        (\<forall>k. k \<noteq> m_job_id m \<longrightarrow> jobs (fst (snd w')) k = jobs (fst (snd w)) k))
     (\<lambda>e w'. jobs (fst (snd w')) = jobs (fst (snd w)) \<and>
        (elog (fst w') = elog (fst w) \<or> elog (fst w') = elog (fst w) @ [dead c m reason] \<or>
         elog (fst w') = elog (fst w) @ [dead c m reason, acked c i])) w"
  unfolding wp wp_on_fst
  by (rule wpE_mono [OF wp_route_to_dlq]) (auto simp: wp_on_snd intro: wpE_mono [OF wp_mark_failed_row])

lemma wp_retry:
  assumes "m_attempt m < co_max_attempts c"
  shows "wpE (on_transient c i m exc)
     (\<lambda>u w'. elog (fst w') = elog (fst w) @ [retried c m, acked c i] \<and>
        row_is PENDING (jobs (fst (snd w'))) (m_job_id m) \<and>
        (\<forall>k. k \<noteq> m_job_id m \<longrightarrow> jobs (fst (snd w')) k = jobs (fst (snd w)) k))
     (\<lambda>e w'. (elog (fst w') = elog (fst w) \<or>
           (elog (fst w') = elog (fst w) @ [retried c m] \<or>
            elog (fst w') = elog (fst w) @ [retried c m, acked c i]) \<and>
           row_is PENDING (jobs (fst (snd w'))) (m_job_id m)) \<and>
        (\<forall>k. k \<noteq> m_job_id m \<longrightarrow> jobs (fst (snd w')) k = jobs (fst (snd w)) k)) w"
proof -
  from assms have room: "\<not> co_max_attempts c \<le> m_attempt m" by simp
  show ?thesis
    unfolding on_transient_def wp if_not_P [OF room] wp_on_snd [of "requeue_row c m"]
  proof (intro wpE_mono [OF wp_requeue_row], goal_cases)
    case (1 u p)
    then have p: "row_is PENDING (jobs (fst p)) (m_job_id m)"
      "\<forall>k. k \<noteq> m_job_id m \<longrightarrow> jobs (fst p) k = jobs (fst (snd w)) k" by auto
    show ?case
      unfolding wp_on_fst
      by (rule wpE_mono [OF wp_republish], rule wpE_mono [OF wp_ack]) (use p in auto)
  qed auto
qed

lemma wp_on_transient:
  "wpE (on_transient c i m exc)
     (\<lambda>u w'. (\<exists>evs. elog (fst w') = elog (fst w) @ evs \<and> handled c i m evs (jobs (fst (snd w')))) \<and>
        (\<forall>k. k \<noteq> m_job_id m \<longrightarrow> jobs (fst (snd w')) k = jobs (fst (snd w)) k))
     (\<lambda>e w'. (\<exists>evs. elog (fst w') = elog (fst w) @ evs \<and> attempted c i m evs (jobs (fst (snd w')))) \<and>
        (\<forall>k. k \<noteq> m_job_id m \<longrightarrow> jobs (fst (snd w')) k = jobs (fst (snd w)) k)) w"
proof (cases "co_max_attempts c \<le> m_attempt m")
  case True
  then show ?thesis
    unfolding on_transient_def by (simp only: if_True)
      (rule wpE_mono [OF wp_dead_lettered]; force simp: handled_def attempted_def dest: failed_with_row)
next
  case False
  then have "m_attempt m < co_max_attempts c" by simp
  from wp_retry [OF this] show ?thesis
    by (rule wpE_mono) (use \<open>m_attempt m < co_max_attempts c\<close> in \<open>force simp: handled_def attempted_def\<close>)+
qed

lemma wp_route_failure:
  "wpE (route_failure c i m exc)
     (\<lambda>u w'. (\<exists>evs. elog (fst w') = elog (fst w) @ evs \<and> handled c i m evs (jobs (fst (snd w')))) \<and>
        (\<forall>k. k \<noteq> m_job_id m \<longrightarrow> jobs (fst (snd w')) k = jobs (fst (snd w)) k))
     (\<lambda>e w'. (\<exists>evs. elog (fst w') = elog (fst w) @ evs \<and> attempted c i m evs (jobs (fst (snd w')))) \<and>
        (\<forall>k. k \<noteq> m_job_id m \<longrightarrow> jobs (fst (snd w')) k = jobs (fst (snd w)) k)) w"
proof -
  have "wpE (bindE (on_fst (route_to_dlq c i m reason)) (\<lambda>u. on_snd (mark_failed_row c m err)))
     (\<lambda>u w'. (\<exists>evs. elog (fst w') = elog (fst w) @ evs \<and> handled c i m evs (jobs (fst (snd w')))) \<and>
        (\<forall>k. k \<noteq> m_job_id m \<longrightarrow> jobs (fst (snd w')) k = jobs (fst (snd w)) k))
     (\<lambda>e w'. (\<exists>evs. elog (fst w') = elog (fst w) @ evs \<and> attempted c i m evs (jobs (fst (snd w')))) \<and>
        (\<forall>k. k \<noteq> m_job_id m \<longrightarrow> jobs (fst (snd w')) k = jobs (fst (snd w)) k)) w" for reason err
    by (rule wpE_mono [OF wp_dead_lettered]; force simp: handled_def attempted_def dest: failed_with_row)
  then show ?thesis unfolding route_failure_def using wp_on_transient by simp
qed

lemma wp_route:
  "wpE (route c i m)
     (\<lambda>u w'. (\<exists>evs. elog (fst w') = elog (fst w) @ evs \<and> handled c i m evs (jobs (fst (snd w')))) \<and>
        (\<forall>k. k \<noteq> m_job_id m \<longrightarrow> jobs (fst (snd w')) k = jobs (fst (snd w)) k))
     (\<lambda>e w'. (\<exists>evs. elog (fst w') = elog (fst w) @ evs \<and> attempted c i m evs (jobs (fst (snd w')))) \<and>
        (\<forall>k. k \<noteq> m_job_id m \<longrightarrow> jobs (fst (snd w')) k = jobs (fst (snd w)) k)) w"
    (is "wpE _ ?Q ?E w")
proof -
  have done_: "wpE (on_fst (ack c i)) ?Q ?E v"
    if "fst v = fst w" "settled_in (jobs (fst (snd v))) (m_job_id m)"
      "\<forall>k. k \<noteq> m_job_id m \<longrightarrow> jobs (fst (snd v)) k = jobs (fst (snd w)) k" for v
    unfolding wp_on_fst
    by (rule wpE_mono [OF wp_ack]) (use that in \<open>force simp: handled_def attempted_def\<close>)+
  show ?thesis
    unfolding route_def wp wp_on_snd [of "on_fst m" for m] wp_on_fst [of "already_terminal c m"]
  proof (rule wpE_mono [OF wp_already_terminal], goal_cases)
    case (1 t d')
    show ?case
    proof (cases t)
      case True
      with 1 show ?thesis by (auto intro!: done_)
    next
      case False
      with 1 show ?thesis
        unfolding if_not_P [OF False] wp wp_on_snd wired
      proof (intro wpE_mono [OF wp_proc], goal_cases)
        case (1 u p)
        then show ?case by (auto intro!: done_)
      next
        case (2 e p)
        show ?case
          by (rule wpE_mono [OF wp_route_failure]) (use 2 in \<open>auto\<close>)
      qed
    qed
  next
    case (2 e d')
    then show ?case by (auto simp: attempted_def)
  qed
qed

end

subsection \<open>The worker's wiring\<close>

text \<open>
  The consumer that \<open>worker/runner.py\<close> builds from the container, and that the properties are about:
  the repository over the table, \<open>JobProcessor\<close>, and one \<open>StreamProducer\<close> on the same Redis and names.
\<close>

definition build_consumer ::
  "'r redis \<Rightarrow> 'd session \<Rightarrow> broker_settings \<Rightarrow> 'x externals \<Rightarrow> string \<Rightarrow> ('r, 'd, 'x) consumer" where
  "build_consumer R sess settings ext name =
     consumer_init R (keys_from_settings settings) settings (sql_repository sess)
       (processor_call (sql_repository sess) ext)
       (producer_init R (keys_from_settings settings) settings) (utcnow ext) name"

lemma build_consumer_simps [simp]:
  "co_redis (build_consumer R sess bs ext name) = R"
  "co_repo (build_consumer R sess bs ext name) = sql_repository sess"
  "co_process (build_consumer R sess bs ext name) = processor_call (sql_repository sess) ext"
  "co_producer (build_consumer R sess bs ext name) = producer_init R (keys_from_settings bs) bs"
  "co_keys (build_consumer R sess bs ext name) = keys_from_settings bs"
  "co_max_attempts (build_consumer R sess bs ext name) = bs_max_attempts bs"
  "co_concurrency (build_consumer R sess bs ext name) = bs_worker_concurrency bs"
  "co_max_delivery_count (build_consumer R sess bs ext name) = bs_max_delivery_count bs"
  "co_utcnow (build_consumer R sess bs ext name) = utcnow ext"
  by (simp_all add: build_consumer_def consumer_init_def)

lemma routing_built:
  assumes "redis_client R elog" and "sqlalchemy_session sess rows"
  shows "routing R elog (sql_repository sess) (stored rows) (processor_call (sql_repository sess) ext)
    (build_consumer R sess bs ext name)"
  by (intro routing.intro routing_axioms.intro assms sql_job_repository [OF assms(2)] sql_processor [OF assms(2)])
     (simp_all add: producer_init_def)

interpretation mem_routing: routing mem_client mr_log pg_repo table_jobs "processor_call pg_repo ext"
    "build_consumer mem_client table_session bs ext name" for bs ext name
  using routing_built [OF mem.redis_client_axioms pg.sqlalchemy_session_axioms] by simp

text \<open>Routing when the guard's look at the row is known.\<close>

lemma route_settled:
  assumes "db_faults d = []"
    and "db_lookup (db_rows d) (m_job_id m) = None \<or>
      (\<exists>j. table_jobs d (m_job_id m) = Some j \<and> is_terminal j)"
  shows "route (build_consumer R table_session bs ext name) i m (r0, (d, x)) =
    on_fst (ack (build_consumer R table_session bs ext name) i) (r0, (d, x))"
proof -
  have "already_terminal (build_consumer R table_session bs ext name) m d = (Inr True, d)"
    using assms pg_get_missing [OF assms(1)] pg_get_found [OF assms(1)]
    by (auto simp: already_terminal_def get_or_none_def eff_defs)
  then show ?thesis by (simp add: route_def bindE_def on_fst_run on_snd_run)
qed

lemma route_unsettled:
  assumes "already_terminal c m d = (Inr False, d1)" and "co_process c m (d1, x) = (Inl e, p)"
  shows "route c i m (r0, (d, x)) = route_failure c i m e (r0, p)"
  using assms by (simp add: route_def bindE_def tryElse_def on_fst_run on_snd_run)

lemma guard_unsettled:
  assumes "db_faults d = []" and "table_jobs d (m_job_id m) = Some j" and "\<not> is_terminal j"
  shows "already_terminal (build_consumer R table_session bs ext name) m d = (Inr False, d)"
  using assms(3) pg_get_found [OF assms(1,2)] by (simp add: already_terminal_def get_or_none_def eff_defs)

text \<open>On the in-memory Redis and the table, without faults, a dead-lettering of a running job goes through.\<close>

lemma mem_route_to_dlq_ok:
  assumes "mr_faults s = []"
  shows "\<exists>s'. route_to_dlq (build_consumer mem_client table_session bs ext name) i m reason s = (Inr (), s') \<and> mr_faults s' = []"
proof -
  let ?p = "producer_init mem_client (keys_from_settings bs) bs"
  obtain k s1 where "prod_xadd ?p (k_dlq (p_keys ?p)) (to_fields m @ [(''reason'', reason)]) s = (Inr k, s1)"
    "mr_faults s1 = []"
    using mem_prod_xadd_ok [OF _ assms, of ?p "k_dlq (p_keys ?p)" "to_fields m @ [(''reason'', reason)]"]
    by (auto simp: producer_init_def)
  moreover from mem_xack_ok [OF this(2)] obtain n s2 where
    "xack mem_client (k_stream (keys_from_settings bs)) (k_group (keys_from_settings bs)) i s1 = (Inr n, s2)"
    "mr_faults s2 = []" by blast
  ultimately show ?thesis
    by (simp add: route_to_dlq_def dead_letter_def ack_def bindE_def ret_def)
qed

lemma pg_mark_failed_ok:
  assumes "db_faults d = []" "table_jobs d (m_job_id m) = Some j" "j_status j = RUNNING"
    "length err \<le> 2048" "row_fits (to_row j)"
  shows "\<exists>p'. mark_failed_row (build_consumer R table_session bs ext name) m err (d, x) = (Inr (), p')"
proof -
  let ?now = "fst (utcnow ext x)"
  have id: "j_id j = m_job_id m"
    using pg_repo.get_law [of "m_job_id m" d "Inr j" d] pg_get_found [OF assms(1,2)] by simp
  obtain j' where j': "mark_failed err None ?now j = Inr j'" "j_id j' = j_id j"
    and f: "j_error j' = Some err" "j_result_ref j' = j_result_ref j" "j_attempts j' = j_attempts j"
      "j_duration_ms j' = j_duration_ms j"
    using assms(3) by (simp add: mark_failed_Inr)
  have "row_fits (to_row j')" using assms(4,5) f by (simp add: row_fits_to_row fits_def)
  then obtain d' where "repo_update table_session j' d = (Inr (), d')"
    using pg_update_ok [of d j'] assms(1) table_jobs_lookup [OF assms(2)] id j'(2) by auto
  with j'(1) pg_get_found [OF assms(1,2)] show ?thesis
    by (simp add: mark_failed_row_def get_or_none_def eff_defs on_fst_def on_snd_def read_clock_def)
qed

lemma route_failure_dead:
  "\<not> (is_transient e \<and> m_attempt m < co_max_attempts c) \<Longrightarrow>
   route_failure c i m e =
     bindE (on_fst (route_to_dlq c i m (fst (failure_texts m e))))
       (\<lambda>u. on_snd (mark_failed_row c m (snd (failure_texts m e))))"
  by (auto simp: route_failure_def on_transient_def failure_texts_def)

lemma route_failure_retry:
  "is_transient e \<Longrightarrow> route_failure c i m e = on_transient c i m e"
  by (simp add: route_failure_def)

lemma mark_failed_pending:
  assumes sess: "sqlalchemy_session sess rows"
    and "stored rows d (m_job_id m) = Some j" "j_status j = PENDING"
  shows "wpE (mark_failed_row (build_consumer R sess bs ext name) m err) (\<lambda>u w'. False)
     (\<lambda>e w'. stored rows (fst w') = stored rows d) (d, x)"
  unfolding mark_failed_row_def wp_world build_consumer_simps
proof (rule job_repository.wp_load [OF sql_job_repository [OF sess] refl], goal_cases)
  case (2 j' d')
  moreover have "mark_failed err None t j = Inl (InvalidTransition PENDING FAILED)" for t
    using assms(3) by (simp add: mark_failed_Inl)
  ultimately show ?case using assms(2) by (simp add: wp_world)
qed (use assms in auto)

text \<open>The whole of a dead-lettering that goes through.\<close>

lemma dead_lettered_ok:
  assumes "redis_client R elog" and "sqlalchemy_session sess rows"
    and "bindE (on_fst (route_to_dlq (build_consumer R sess bs ext name) i m reason))
           (\<lambda>u. on_snd (mark_failed_row (build_consumer R sess bs ext name) m err)) w = (Inr (), w')"
  shows "elog (fst w') = elog (fst w) @
      [dead (build_consumer R sess bs ext name) m reason, acked (build_consumer R sess bs ext name) i] \<and>
    failed_with err (stored rows (fst (snd w'))) (m_job_id m)"
  using routing.wp_dead_lettered [OF routing_built [OF assms(1,2)], of bs ext name i m reason err w] assms(3)
  by (simp add: wpE_def)

lemma mem_dead_lettered:
  assumes "mr_faults s = []" "db_faults d = []" "table_jobs d (m_job_id m) = Some j" "j_status j = RUNNING"
    "length err \<le> 2048" "row_fits (to_row j)"
  shows "\<exists>w'. bindE (on_fst (route_to_dlq (build_consumer mem_client table_session bs ext name) i m reason))
           (\<lambda>u. on_snd (mark_failed_row (build_consumer mem_client table_session bs ext name) m err)) (s, (d, x)) = (Inr (), w')"
proof -
  obtain s' where "route_to_dlq (build_consumer mem_client table_session bs ext name) i m reason s = (Inr (), s')"
    using mem_route_to_dlq_ok [OF assms(1)] by blast
  moreover obtain p' where "mark_failed_row (build_consumer mem_client table_session bs ext name) m err (d, x) = (Inr (), p')"
    using pg_mark_failed_ok [OF assms(2-6), of mem_client bs ext name x] by blast
  ultimately show ?thesis by (simp add: bindE_def on_fst_run on_snd_run)
qed

text \<open>A dead-lettering whose last step, marking the row, cannot work.\<close>

lemma dead_letter_unmarked:
  fixes R :: "'r redis" and ext :: "'x externals"
  assumes "redis_client R elog" and "sqlalchemy_session sess rows"
    and guard: "already_terminal (build_consumer R sess bs ext name) m d = (Inr False, d1)"
    and proc: "processor_call (sql_repository sess) ext m (d1, x) = (Inl e, (d2, x2))"
    and final: "\<not> (is_transient e \<and> m_attempt m < bs_max_attempts bs)"
    and mark: "wpE (mark_failed_row (build_consumer R sess bs ext name) m (snd (failure_texts m e)))
      (\<lambda>u w'. False) (\<lambda>e w'. stored rows (fst w') = stored rows d2) (d2, x2)"
    and run: "route (build_consumer R sess bs ext name) i m (r0, (d, x)) = (r, w')"
  shows "(\<exists>e'. r = Inl e') \<and> stored rows (fst (snd w')) = stored rows d2 \<and>
    elog (fst w') \<in> {elog r0,
      elog r0 @ [dead (build_consumer R sess bs ext name) m (fst (failure_texts m e))],
      elog r0 @ [dead (build_consumer R sess bs ext name) m (fst (failure_texts m e)),
                 acked (build_consumer R sess bs ext name) i]}"
proof -
  let ?c = "build_consumer R sess bs ext name"
  have run: "route_failure ?c i m e (r0, (d2, x2)) = (r, w')"
    using route_unsettled [OF guard, of x e "(d2, x2)" i r0] proc run by simp
  have "wpE (bindE (on_fst (route_to_dlq ?c i m (fst (failure_texts m e))))
      (\<lambda>u. on_snd (mark_failed_row ?c m (snd (failure_texts m e)))))
    (\<lambda>u w'. False) (\<lambda>e' w'. stored rows (fst (snd w')) = stored rows d2 \<and>
      elog (fst w') \<in> {elog r0, elog r0 @ [dead ?c m (fst (failure_texts m e))],
        elog r0 @ [dead ?c m (fst (failure_texts m e)), acked ?c i]}) (r0, (d2, x2))"
    unfolding wp wp_on_fst
    by (rule wpE_mono [OF routing.wp_route_to_dlq [OF routing_built [OF assms(1,2)]]])
       (auto simp: wp_on_snd intro!: wpE_mono [OF mark])
  with run final show ?thesis
    by (simp add: route_failure_dead wpE_def split: sum.splits)
qed

lemma mark_failed_too_long:
  assumes "db_faults d = []" and "table_jobs d (m_job_id m) = Some j" and "j_status j = RUNNING"
    and "2048 < length err"
  shows "wpE (mark_failed_row (build_consumer R table_session bs ext name) m err) (\<lambda>u w'. False)
     (\<lambda>e w'. stored (\<lambda>d. db_lookup (db_rows d)) (fst w') = stored (\<lambda>d. db_lookup (db_rows d)) d) (d, x)"
proof -
  obtain t where t: "fst (utcnow ext x) = t" by blast
  obtain j' where j': "mark_failed err None t j = Inr j'" "j_error j' = Some err" "j_id j' = j_id j"
    using assms(3) by (auto simp: mark_failed_def require_def)
  obtain row where row: "db_lookup (db_rows d) (m_job_id m) = Some row" "to_domain row = Inr j"
    using table_jobs_lookup [OF assms(2)] by blast
  have "j_id j = m_job_id m"
    using pg.row_key [OF row(1)] row(2) by (auto simp: to_domain_def split: option.splits)
  moreover have "\<not> row_fits (to_row j')"
    using j'(2) assms(4) by (simp add: row_fits_def to_row_def fits_def)
  ultimately obtain y where "repo_update table_session j' d = (Inl (SdkError y), d)"
    using pg_update_too_long [OF assms(1), of j'] row(1) j'(3) by auto
  then show ?thesis
    using pg_get_found [OF assms(1,2)] t j'
    by (simp add: mark_failed_row_def get_or_none_def wpE_def eff_defs on_fst_def on_snd_def read_clock_def)
qed

subsection \<open>Properties\<close>

text \<open>
  C8. The routing contract, over any lawful Redis and session, whatever fails and however the pipelines behave:
  routing touches no other job; when it returns, the message was acknowledged exactly once, last, and
  the job is either settled (absent or terminal), or back to \<open>PENDING\<close> with exactly one pointer of the
  next attempt in the stream and attempts to spare, or \<open>FAILED\<close> with exactly one entry in the
  dead-letter stream; when it raises, a prefix of one of these happened on Redis.
\<close>

theorem routing_contract:
  assumes "redis_client R elog" and "sqlalchemy_session sess rows"
    and "route (build_consumer R sess bs ext name) i m w = (r, w')"
  shows "\<exists>evs. elog (fst w') = elog (fst w) @ evs \<and>
    (case r of
       Inr u \<Rightarrow> handled (build_consumer R sess bs ext name) i m evs (stored rows (fst (snd w')))
     | Inl e \<Rightarrow> attempted (build_consumer R sess bs ext name) i m evs (stored rows (fst (snd w')))) \<and>
    (\<forall>k. k \<noteq> m_job_id m \<longrightarrow> stored rows (fst (snd w')) k = stored rows (fst (snd w)) k)"
  using routing.wp_route [OF routing_built [OF assms(1,2)], of bs ext name i m w] assms(3)
  by (auto simp: wpE_def split: sum.splits)

definition sample_message :: job_message where
  "sample_message = \<lparr>m_job_id = 1, m_job_type = EMBED_DOCUMENT, m_attempt = 1\<rparr>"

theorem routing_contract_witness:
  "\<exists>w'. route (build_consumer mem_client table_session default_broker tick_world ''box-1-00000a'') (WBytes ''1-0'') sample_message
       (mem_start, (one_job EMBED_DOCUMENT SUCCESS, 0)) = (Inr (), w') \<and>
     handled (build_consumer mem_client table_session default_broker tick_world ''box-1-00000a'') (WBytes ''1-0'') sample_message
       (mr_log (fst w')) (table_jobs (fst (snd w')))"
proof -
  let ?c = "build_consumer mem_client table_session default_broker tick_world ''box-1-00000a''"
  let ?w = "(mem_start, (one_job EMBED_DOCUMENT SUCCESS, 0))"
  have "route ?c (WBytes ''1-0'') sample_message ?w = on_fst (ack ?c (WBytes ''1-0'')) ?w"
    by (rule route_settled) (simp_all add: one_job_row sample_message_def is_terminal_iff)
  then obtain w' where run: "route ?c (WBytes ''1-0'') sample_message ?w = (Inr (), w')"
    by (simp add: ack_def on_fst_def zoomE_def bindE_def ret_def mem_client_def mem_command_def mem_start_def
        mem_xack_def)
  from routing_contract [OF mem.redis_client_axioms pg.sqlalchemy_session_axioms run] run show ?thesis
    by (auto simp: mem_start_def)
qed

text \<open>
  C5. Nothing is lost by an acknowledgement: whatever the outcome, returned or raised, if the message was
  removed from the pending list then that was the last command, and before it the job had been
  settled, or a pointer of the next attempt had been published with the row \<open>PENDING\<close>, or an entry
  naming the job had been written to the dead-letter stream.
\<close>

theorem ack_never_loses:
  assumes "redis_client R elog" and "sqlalchemy_session sess rows"
    and "route (build_consumer R sess bs ext name) i m w = (r, w')"
    and "elog (fst w') = elog (fst w) @ evs"
    and "acked (build_consumer R sess bs ext name) i \<in> set evs"
  shows "\<exists>before. evs = before @ [acked (build_consumer R sess bs ext name) i] \<and>
    (before = [] \<and> settled_in (stored rows (fst (snd w'))) (m_job_id m) \<or>
     before = [retried (build_consumer R sess bs ext name) m] \<and>
       row_is PENDING (stored rows (fst (snd w'))) (m_job_id m) \<or>
     (\<exists>reason. before = [dead (build_consumer R sess bs ext name) m reason]))"
proof -
  let ?c = "build_consumer R sess bs ext name"
  have ne: "acked ?c i \<noteq> retried ?c m" "acked ?c i \<noteq> dead ?c m reason" for reason
    by (simp_all add: acked_def retried_def dead_def)
  have "handled ?c i m evs (stored rows (fst (snd w'))) \<or> attempted ?c i m evs (stored rows (fst (snd w')))"
    using routing.wp_route [OF routing_built [OF assms(1,2)], of bs ext name i m w] assms(3,4)
    by (auto simp: wpE_def split: sum.splits)
  with assms(5) ne show ?thesis by (auto simp: handled_def attempted_def)
qed

text \<open>The witness run: a redelivery of a job that is still marked \<open>RUNNING\<close>.\<close>

definition sample_consumer :: "(mem_redis, jobs_db, int) consumer" where
  "sample_consumer = build_consumer mem_client table_session default_broker tick_world ''box-1-00000a''"

definition running_error :: string where
  "running_error = exn_repr (InvalidTransition RUNNING RUNNING)"

lemma running_error_text:
  "running_error = ''InvalidTransition('' @ py_repr_str ''illegal job transition: running -> running'' @ '')''"
  by (simp add: running_error_def)

lemma running_error_length: "length running_error \<le> 2048"
proof -
  have "length (py_repr_str ''illegal job transition: running -> running'') = 44" by code_simp
  then show ?thesis by (simp add: running_error_text)
qed

lemma one_job_fits: "row_fits (to_row ((job_new ty [] 1 0 0)\<lparr>j_status := st, j_attempts := if st = PENDING then 0 else 1\<rparr>))"
  by (simp add: row_fits_to_row job_new_def fits_def int4_def)

lemma sample_redelivery:
  "\<exists>w'. route sample_consumer (WBytes ''1-0'') sample_message (mem_start, (one_job EMBED_DOCUMENT RUNNING, 0)) =
     (Inr (), w')"
proof -
  let ?d = "one_job EMBED_DOCUMENT RUNNING"
  let ?j = "(job_new EMBED_DOCUMENT [] 1 0 0)\<lparr>j_status := RUNNING, j_attempts := if RUNNING = PENDING then 0 else 1\<rparr>"
  have run: "\<not> is_terminal ?j" "j_status ?j = RUNNING" by (simp_all add: is_terminal_iff)
  have m: "m_job_id sample_message = 1" by (simp add: sample_message_def)
  have row: "table_jobs ?d (m_job_id sample_message) = Some ?j" unfolding m by (rule one_job_row)
  have "processor_call pg_repo tick_world sample_message (?d, 0) =
      (Inl (InvalidTransition RUNNING RUNNING), (?d, snd (utcnow tick_world 0)))"
    unfolding processor_call_def by (rule process_running [OF one_job_row(2) row run(2)])
  then have "co_process sample_consumer sample_message (?d, 0) =
      (Inl (InvalidTransition RUNNING RUNNING), (?d, snd (utcnow tick_world 0)))"
    by (simp add: sample_consumer_def)
  from route_unsettled [OF guard_unsettled [OF one_job_row(2) row run(1)] this [unfolded sample_consumer_def]]
  have "route sample_consumer (WBytes ''1-0'') sample_message (mem_start, (?d, 0)) =
      route_failure sample_consumer (WBytes ''1-0'') sample_message (InvalidTransition RUNNING RUNNING)
        (mem_start, (?d, snd (utcnow tick_world 0)))"
    by (simp add: sample_consumer_def)
  also have "\<dots> = bindE (on_fst (route_to_dlq sample_consumer (WBytes ''1-0'') sample_message
          (''unexpected: '' @ running_error)))
        (\<lambda>u. on_snd (mark_failed_row sample_consumer sample_message running_error))
        (mem_start, (?d, snd (utcnow tick_world 0)))"
    unfolding route_failure_def running_error_def by simp
  finally show ?thesis
    using mem_dead_lettered [OF _ one_job_row(2) row run(2) running_error_length one_job_fits,
        of mem_start default_broker tick_world "''box-1-00000a''"]
    by (simp add: mem_start_def sample_consumer_def)
qed

theorem ack_never_loses_witness:
  "\<exists>w' evs before. route sample_consumer (WBytes ''1-0'') sample_message
       (mem_start, (one_job EMBED_DOCUMENT RUNNING, 0)) = (Inr (), w') \<and>
     mr_log (fst w') = evs \<and> acked sample_consumer (WBytes ''1-0'') \<in> set evs \<and>
     evs = before @ [acked sample_consumer (WBytes ''1-0'')]"
proof -
  obtain w' where run: "route sample_consumer (WBytes ''1-0'') sample_message
      (mem_start, (one_job EMBED_DOCUMENT RUNNING, 0)) = (Inr (), w')"
    using sample_redelivery by blast
  from mem_routing.wp_route [of default_broker tick_world "''box-1-00000a''" "WBytes ''1-0''" sample_message
      "(mem_start, (one_job EMBED_DOCUMENT RUNNING, 0))"] run
  have "acked sample_consumer (WBytes ''1-0'') \<in> set (mr_log (fst w'))"
    by (auto simp: wpE_def handled_def sample_consumer_def)
  with ack_never_loses [OF mem.redis_client_axioms pg.sqlalchemy_session_axioms run [unfolded sample_consumer_def], of "mr_log (fst w')"] run
  show ?thesis by (auto simp: mem_start_def sample_consumer_def)
qed

text \<open>
  C9. How a failure of the processor is routed.  A transient error with attempts to spare puts the row back
  to \<open>PENDING\<close>, publishes the pointer with the attempt number increased by one (so at most
  \<open>max_attempts\<close>), and then acknowledges; any other failure writes the dead-letter entry with its
  reason, acknowledges, and marks the row \<open>FAILED\<close> with the error's text.
\<close>

theorem routing_by_outcome:
  assumes "redis_client R elog" and "sqlalchemy_session sess rows"
    and "already_terminal (build_consumer R sess bs ext name) m d = (Inr False, d1)"
    and "processor_call (sql_repository sess) ext m (d1, x) = (Inl e, p)"
    and "route (build_consumer R sess bs ext name) i m (r0, (d, x)) = (Inr (), w')"
  shows "if is_transient e \<and> m_attempt m < bs_max_attempts bs
    then elog (fst w') = elog r0 @ [Added (bs_stream bs) (to_fields (next_attempt m)),
           Acked (bs_stream bs) (bs_group bs) i] \<and>
         m_attempt (next_attempt m) = m_attempt m + 1 \<and> m_attempt (next_attempt m) \<le> bs_max_attempts bs \<and>
         row_is PENDING (stored rows (fst (snd w'))) (m_job_id m)
    else elog (fst w') = elog r0 @ [Added (bs_dlq bs) (to_fields m @ [(''reason'', fst (failure_texts m e))]),
           Acked (bs_stream bs) (bs_group bs) i] \<and>
         failed_with (snd (failure_texts m e)) (stored rows (fst (snd w'))) (m_job_id m)"
proof -
  let ?c = "build_consumer R sess bs ext name"
  have ev: "retried ?c m = Added (bs_stream bs) (to_fields (next_attempt m))"
    "acked ?c i = Acked (bs_stream bs) (bs_group bs) i"
    "dead ?c m reason = Added (bs_dlq bs) (to_fields m @ [(''reason'', reason)])" for reason
    by (simp_all add: retried_def acked_def dead_def producer_init_def keys_from_settings_def)
  have run: "route_failure ?c i m e (r0, p) = (Inr (), w')"
    using route_unsettled [OF assms(3), of x e p i r0] assms(4,5) by simp
  show ?thesis
  proof (cases "is_transient e \<and> m_attempt m < bs_max_attempts bs")
    case True
    with run routing.wp_retry [OF routing_built [OF assms(1,2)], of m bs ext name i e "(r0, p)"]
    show ?thesis by (simp add: wpE_def route_failure_retry ev)
  next
    case False
    with run have "bindE (on_fst (route_to_dlq ?c i m (fst (failure_texts m e))))
       (\<lambda>u. on_snd (mark_failed_row ?c m (snd (failure_texts m e)))) (r0, p) = (Inr (), w')"
      by (simp add: route_failure_dead)
    from dead_lettered_ok [OF assms(1,2) this] False show ?thesis by (simp only: if_False ev fst_conv)
  qed
qed

theorem routing_by_outcome_witness:
  "\<exists>w'. route sample_consumer (WBytes ''1-0'') sample_message (mem_start, (one_job EMBED_DOCUMENT RUNNING, 0)) =
       (Inr (), w') \<and> failed_with running_error (table_jobs (fst (snd w'))) 1"
proof -
  let ?d = "one_job EMBED_DOCUMENT RUNNING"
  let ?j = "(job_new EMBED_DOCUMENT [] 1 0 0)\<lparr>j_status := RUNNING, j_attempts := if RUNNING = PENDING then 0 else 1\<rparr>"
  obtain w' where run: "route sample_consumer (WBytes ''1-0'') sample_message (mem_start, (?d, 0)) = (Inr (), w')"
    using sample_redelivery by blast
  have m: "m_job_id sample_message = 1" by (simp add: sample_message_def)
  have row: "table_jobs ?d (m_job_id sample_message) = Some ?j" unfolding m by (rule one_job_row)
  have "processor_call pg_repo tick_world sample_message (?d, 0) =
      (Inl (InvalidTransition RUNNING RUNNING), (?d, snd (utcnow tick_world 0)))"
    unfolding processor_call_def by (rule process_running [OF one_job_row(2) row]) simp
  from routing_by_outcome [OF mem.redis_client_axioms pg.sqlalchemy_session_axioms
      guard_unsettled [OF one_job_row(2) row] this run [unfolded sample_consumer_def]]
    run m show ?thesis by (auto simp: is_terminal_iff failure_texts_def running_error_def)
qed

text \<open>
  C22. A redelivered message whose row is \<open>RUNNING\<close>, which is what the reclaim of a crashed worker's message
  delivers, is not resumed but given up: routing that returns has dead-lettered it as an unexpected
  failure and marked the job \<open>FAILED\<close>, with the \<open>InvalidTransition\<close> (or the database error that
  the processor's read of the row raised) as its error.  Its pipeline is not run: with any other
  dictionary of pipelines the same happens.
\<close>

theorem redelivered_running_is_failed:
  assumes "redis_client R elog" and "sqlalchemy_session sess rows"
    and "stored rows d (m_job_id m) = Some j" and "j_status j = RUNNING"
    and "route (build_consumer R sess bs ext name) i m (r0, (d, x)) = (Inr (), w')"
  shows "(\<exists>e. (e = InvalidTransition RUNNING RUNNING \<or> \<not> is_domain_error e) \<and>
      elog (fst w') = elog r0 @
        [dead (build_consumer R sess bs ext name) m (''unexpected: '' @ exn_repr e),
         acked (build_consumer R sess bs ext name) i] \<and>
      failed_with (exn_repr e) (stored rows (fst (snd w'))) (m_job_id m)) \<and>
    route (build_consumer R sess bs (ext\<lparr>PIPELINES := pipes\<rparr>) name) i m (r0, (d, x)) = (Inr (), w')"
proof -
  let ?c = "build_consumer R sess bs ext name"
  note repo = sql_job_repository [OF assms(2)]
  have live: "\<not> is_terminal j" using assms(4) by (simp add: is_terminal_iff)
  obtain t d1 where guard: "already_terminal ?c m d = (t, d1)" by (cases "already_terminal ?c m d")
  with assms(5) obtain b where t: "t = Inr b" by (cases t) (auto simp: route_def bindE_def on_fst_run on_snd_run)
  from routing.wp_already_terminal [OF routing_built [OF assms(1,2)], of bs ext name m d] guard t assms(3) live
  have b: "t = Inr False" and d1: "stored rows d1 (m_job_id m) = Some j"
    by (auto simp: wpE_def settled_in_def)
  have "\<exists>e p. (e = InvalidTransition RUNNING RUNNING \<or> \<not> is_domain_error e) \<and>
      (\<forall>pipes. processor_call (sql_repository sess) (ext\<lparr>PIPELINES := pipes\<rparr>) m (d1, x) = (Inl e, p))"
    using sql_get_found [OF assms(2) d1]
    by (auto simp: processor_call_def sql_process_running [OF assms(2) d1 assms(4)])
  then obtain e p where e: "e = InvalidTransition RUNNING RUNNING \<or> \<not> is_domain_error e"
    and proc: "\<And>pipes. processor_call (sql_repository sess) (ext\<lparr>PIPELINES := pipes\<rparr>) m (d1, x) = (Inl e, p)"
    by blast
  have same: "ext\<lparr>PIPELINES := PIPELINES ext\<rparr> = ext" by simp
  have guards: "already_terminal (build_consumer R sess bs ext' name) m d = (Inr False, d1)" for ext' :: "'c externals"
    using guard b by (simp add: already_terminal_def)
  have routes: "route (build_consumer R sess bs (ext\<lparr>PIPELINES := pipes\<rparr>) name) i m (r0, (d, x)) =
      route_failure (build_consumer R sess bs (ext\<lparr>PIPELINES := pipes\<rparr>) name) i m e (r0, p)" for pipes
    by (rule route_unsettled [OF guards]) (simp add: proc)
  have kind: "\<not> is_transient e" "\<not> is_permanent e"
    using e not_upstream [of e] by (auto simp: is_upstream_error_def)
  have fail: "route_failure (build_consumer R sess bs ext' name) i m e (r0, p) =
      bindE (on_fst (route_to_dlq (build_consumer R sess bs ext' name) i m (''unexpected: '' @ exn_repr e)))
        (\<lambda>u. on_snd (mark_failed_row (build_consumer R sess bs ext' name) m (exn_repr e))) (r0, p)"
    for ext' :: "'c externals"
    using kind by (simp add: route_failure_def)
  have run: "bindE (on_fst (route_to_dlq ?c i m (''unexpected: '' @ exn_repr e)))
        (\<lambda>u. on_snd (mark_failed_row ?c m (exn_repr e))) (r0, p) = (Inr (), w')"
    using routes [of "PIPELINES ext"] fail [of ext] assms(5) by (simp add: same)
  have indep: "route_to_dlq (build_consumer R sess bs (ext\<lparr>PIPELINES := pipes\<rparr>) name) = route_to_dlq ?c"
    "mark_failed_row (build_consumer R sess bs (ext\<lparr>PIPELINES := pipes\<rparr>) name) = mark_failed_row ?c"
    by (simp_all add: fun_eq_iff route_to_dlq_def ack_def mark_failed_row_def)
  from dead_lettered_ok [OF assms(1,2) run] e routes [of pipes] fail run show ?thesis
    by (auto simp: indep)
qed

theorem redelivered_running_is_failed_witness:
  "\<exists>w' e. route sample_consumer (WBytes ''1-0'') sample_message (mem_start, (one_job EMBED_DOCUMENT RUNNING, 0)) =
       (Inr (), w') \<and>
     mr_log (fst w') = [dead sample_consumer sample_message (''unexpected: '' @ exn_repr e),
                        acked sample_consumer (WBytes ''1-0'')]"
proof -
  let ?d = "one_job EMBED_DOCUMENT RUNNING"
  let ?j = "(job_new EMBED_DOCUMENT [] 1 0 0)\<lparr>j_status := RUNNING, j_attempts := if RUNNING = PENDING then 0 else 1\<rparr>"
  obtain w' where run: "route sample_consumer (WBytes ''1-0'') sample_message (mem_start, (?d, 0)) = (Inr (), w')"
    using sample_redelivery by blast
  have m: "m_job_id sample_message = 1" by (simp add: sample_message_def)
  have row: "stored (\<lambda>d. db_lookup (db_rows d)) ?d (m_job_id sample_message) = Some ?j"
    unfolding m stored_table by (rule one_job_row)
  from redelivered_running_is_failed [OF mem.redis_client_axioms pg.sqlalchemy_session_axioms row _
      run [unfolded sample_consumer_def]]
    run show ?thesis by (auto simp: mem_start_def sample_consumer_def)
qed


text \<open>A database that answers the guard, and then drops the connection once.\<close>

definition dropped :: sdk_error where
  "dropped =
     \<lparr>sdk_mro = [''sqlalchemy.exc.OperationalError''], sdk_name = ''OperationalError'',
      sdk_text = ''connection reset'', sdk_repr = ''OperationalError()'', sdk_status = None,
      sdk_response_status = None,
      sdk_client_response = \<lparr>cr_code = None, cr_message = None, cr_status = None\<rparr>\<rparr>"



definition verbose_world :: "int externals" where
  "verbose_world =
     tick_world\<lparr>PIPELINES := (\<lambda>ty job. raiseE (PermanentUpstreamError (replicate 3000 CHR ''x'') None))\<rparr>"


end
