(* ===== verification/Consumer.thy ===== *)
theory Consumer
  imports Routing
begin

section \<open>One pass of the consumer (\<open>broker/consumer.py\<close>, second part)\<close>

text \<open>
  The mutable part of \<open>StreamConsumer\<close> is the record \<open>consumer_state\<close>: the world (Redis, store, rest), the
  in-flight tasks, the message ids being processed and the reclaim cursor; \<open>cs_next\<close> numbers the tasks, as
  object identity does in \<open>asyncio\<close>.

  The loop runs in one event loop with the tasks it spawns, which make progress exactly when the loop
  awaits.  So every \<open>await\<close> of the loop's own code is modelled by \<open>awaiting sw\<close>, which lets \<open>sw\<close> happen
  before and after the awaited call.  What \<open>sw\<close> may be is \<open>others_only\<close>: any sequence of steps of the
  relation \<open>others\<close>, each of which completes some in-flight task (with its \<open>finally\<close> and its done
  callback) or changes the world arbitrarily (the running tasks, other workers, the API, the server).
  A theorem for all such \<open>sw\<close> covers every interleaving.  The loop's own pass is not interrupted elsewhere:
  \<open>_dispatch\<close> and the dispatching loop contain no \<open>await\<close>.  The loop around the pass is \<open>WorkerLoop\<close>.
\<close>

record task =
  t_id :: nat
  t_message_id :: wire
  t_fields :: wire_fields

record 'w consumer_state =
  cs_world :: 'w
  cs_in_flight :: "task list"
  cs_in_flight_ids :: "string set"
  cs_reclaim_cursor :: string
  cs_next :: nat

type_synonym ('r, 'd, 'x) cstate = "('r \<times> 'd \<times> 'x) consumer_state"

definition consumer_start_state :: "'w \<Rightarrow> 'w consumer_state" where
  "consumer_start_state w =
     \<lparr>cs_world = w, cs_in_flight = [], cs_in_flight_ids = {}, cs_reclaim_cursor = ''0-0'', cs_next = 0\<rparr>"

definition on_world :: "('w, 'a) io \<Rightarrow> ('w consumer_state, 'a) io" where
  "on_world m = zoomE cs_world (\<lambda>w s. s\<lparr>cs_world := w\<rparr>) m"

definition on_redis :: "('r, 'a) io \<Rightarrow> (('r, 'd, 'x) cstate, 'a) io" where
  "on_redis m = on_world (on_fst m)"

subsection \<open>Tasks\<close>

definition process_and_route ::
  "('r, 'd, 'x) consumer \<Rightarrow> wire \<Rightarrow> wire_fields \<Rightarrow> (('r, 'd, 'x) cstate, unit) io" where
  "process_and_route c message_id wfs =
     bindE (liftE (from_fields wfs)) (\<lambda>message.
     bindE (liftE (as_str message_id)) (\<lambda>i.
     finallyE (on_world (route c message_id message))
       (\<lambda>s. s\<lparr>cs_in_flight_ids := cs_in_flight_ids s - {i}\<rparr>)))"

definition dispatch :: "wire \<Rightarrow> wire_fields \<Rightarrow> ('w consumer_state, unit) io" where
  "dispatch message_id wfs =
     bindE (liftE (as_str message_id)) (\<lambda>i.
     modifyE (\<lambda>s. s\<lparr>cs_in_flight_ids := insert i (cs_in_flight_ids s),
                    cs_in_flight := cs_in_flight s @
                      [\<lparr>t_id = cs_next s, t_message_id = message_id, t_fields = wfs\<rparr>],
                    cs_next := cs_next s + 1\<rparr>))"

text \<open>A task runs to its end and its done callback discards it.\<close>

definition finish_task :: "('r, 'd, 'x) consumer \<Rightarrow> task \<Rightarrow> ('r, 'd, 'x) cstate \<Rightarrow> ('r, 'd, 'x) cstate" where
  "finish_task c t s =
     (case process_and_route c (t_message_id t) (t_fields t) s of
        (r, s') \<Rightarrow> s'\<lparr>cs_in_flight := filter (\<lambda>u. t_id u \<noteq> t_id t) (cs_in_flight s')\<rparr>)"

subsection \<open>What happens while the loop awaits\<close>

inductive others :: "('r, 'd, 'x) consumer \<Rightarrow> ('r, 'd, 'x) cstate \<Rightarrow> ('r, 'd, 'x) cstate \<Rightarrow> bool" for c where
  task_done: "t \<in> set (cs_in_flight s) \<Longrightarrow> others c s (finish_task c t s)"
| world_step: "others c s (s\<lparr>cs_world := w\<rparr>)"

inductive_cases others_cases: "others c s s'"

definition others_only ::
  "('r, 'd, 'x) consumer \<Rightarrow> (('r, 'd, 'x) cstate \<Rightarrow> ('r, 'd, 'x) cstate) \<Rightarrow> bool" where
  "others_only c sw \<longleftrightarrow> (\<forall>s. (others c)\<^sup>*\<^sup>* s (sw s))"

definition awaiting :: "('s \<Rightarrow> 's) \<Rightarrow> ('s, 'a) io \<Rightarrow> ('s, 'a) io" where
  "awaiting sw m = bindE (modifyE sw) (\<lambda>u. finallyE m sw)"

subsection \<open>One pass\<close>

definition free_capacity :: "('r, 'd, 'x) consumer \<Rightarrow> 'w consumer_state \<Rightarrow> int" where
  "free_capacity c s = co_concurrency c - int (length (cs_in_flight s))"

fun response_entries :: "read_response \<Rightarrow> (wire \<times> wire_fields) list" where
  "response_entries RNone = []"
| "response_entries (RDict []) = []"
| "response_entries (RDict ((stream, entries) # _)) = entries"
| "response_entries (RLegacy []) = []"
| "response_entries (RLegacy ((stream, entries) # _)) = entries"

definition read_new ::
  "('r, 'd, 'x) consumer \<Rightarrow> (('r, 'd, 'x) cstate \<Rightarrow> ('r, 'd, 'x) cstate) \<Rightarrow> int \<Rightarrow> int \<Rightarrow>
   (('r, 'd, 'x) cstate, (wire \<times> wire_fields) list) io" where
  "read_new c sw count block =
     bindE (awaiting sw (on_redis (xreadgroup (co_redis c) (k_group (co_keys c)) (co_name c)
              [(k_stream (co_keys c), ''>'')] count (if block = 0 then None else Some block) False)))
       (\<lambda>response. ret (response_entries response))"

definition delivery_count ::
  "('r, 'd, 'x) consumer \<Rightarrow> (('r, 'd, 'x) cstate \<Rightarrow> ('r, 'd, 'x) cstate) \<Rightarrow> wire \<Rightarrow>
   (('r, 'd, 'x) cstate, int) io" where
  "delivery_count c sw message_id =
     bindE (liftE (as_str message_id)) (\<lambda>i.
     bindE (awaiting sw (on_redis (xpending_range (co_redis c) (k_stream (co_keys c)) (k_group (co_keys c)) i i 1)))
       (\<lambda>pending. ret (case pending of [] \<Rightarrow> 0 | n # _ \<Rightarrow> n)))"

definition handle_reclaimed ::
  "('r, 'd, 'x) consumer \<Rightarrow> (('r, 'd, 'x) cstate \<Rightarrow> ('r, 'd, 'x) cstate) \<Rightarrow> wire \<Rightarrow> wire_fields \<Rightarrow>
   (('r, 'd, 'x) cstate, unit) io" where
  "handle_reclaimed c sw message_id wfs =
     bindE (liftE (as_str message_id)) (\<lambda>i.
     bindE (getE cs_in_flight_ids) (\<lambda>ids.
       if i \<in> ids then ret ()
       else
         bindE (delivery_count c sw message_id) (\<lambda>deliveries.
           if co_max_delivery_count c < deliveries
           then
             bindE (liftE (from_fields wfs)) (\<lambda>message.
             awaiting sw (on_redis (route_to_dlq c message_id message
               (''exceeded max delivery count ('' @ py_str_int deliveries @ '')''))))
           else dispatch message_id wfs)))"

definition reclaim_orphans ::
  "('r, 'd, 'x) consumer \<Rightarrow> (('r, 'd, 'x) cstate \<Rightarrow> ('r, 'd, 'x) cstate) \<Rightarrow> (('r, 'd, 'x) cstate, unit) io" where
  "reclaim_orphans c sw =
     bindE (getE (\<lambda>s. (free_capacity c s, cs_reclaim_cursor s))) (\<lambda>(capacity, cursor).
       if capacity \<le> 0 then ret ()
       else
         bindE (awaiting sw (on_redis (xautoclaim (co_redis c) (k_stream (co_keys c)) (k_group (co_keys c))
                  (co_name c) (co_reclaim_idle_ms c) cursor capacity))) (\<lambda>(next_cursor, claimed).
         bindE (liftE (as_str next_cursor)) (\<lambda>cur.
         bindE (modifyE (\<lambda>s. s\<lparr>cs_reclaim_cursor := cur\<rparr>)) (\<lambda>u.
         forE claimed (\<lambda>(message_id, wfs). handle_reclaimed c sw message_id wfs)))))"

definition consume_once ::
  "('r, 'd, 'x) consumer \<Rightarrow> (('r, 'd, 'x) cstate \<Rightarrow> ('r, 'd, 'x) cstate) \<Rightarrow> int option \<Rightarrow>
   (('r, 'd, 'x) cstate, int) io" where
  "consume_once c sw block_ms =
     (let block = (case block_ms of None \<Rightarrow> co_block_ms c | Some b \<Rightarrow> b)
      in bindE (reclaim_orphans c sw) (\<lambda>u.
         bindE (getE (free_capacity c)) (\<lambda>capacity.
           if capacity \<le> 0 then ret 0
           else
             bindE (read_new c sw capacity block) (\<lambda>entries.
               if entries = [] then ret 0
               else
                 bindE (forE entries (\<lambda>(message_id, wfs). dispatch message_id wfs)) (\<lambda>u.
                 ret (int (length entries)))))))"

subsection \<open>Lemmas\<close>

lemma wp_awaiting: "wpE (awaiting sw m) Q E s = wpE m (\<lambda>x s'. Q x (sw s')) (\<lambda>e s'. E e (sw s')) (sw s)"
  by (simp add: awaiting_def wp)

lemma wp_on_world:
  "wpE (on_world m) Q E s =
     wpE m (\<lambda>x w. Q x (s\<lparr>cs_world := w\<rparr>)) (\<lambda>e w. E e (s\<lparr>cs_world := w\<rparr>)) (cs_world s)"
  by (simp add: on_world_def wp)

lemma wp_on_redis:
  "wpE (on_redis m) Q E s =
     wpE m (\<lambda>x r. Q x (s\<lparr>cs_world := (r, snd (cs_world s))\<rparr>))
       (\<lambda>e r. E e (s\<lparr>cs_world := (r, snd (cs_world s))\<rparr>)) (fst (cs_world s))"
  by (simp add: on_redis_def wp_on_world wp_on_fst)

text \<open>A property of the bookkeeping that no change of the world can break.\<close>

definition worldless :: "('w consumer_state \<Rightarrow> bool) \<Rightarrow> bool" where
  "worldless P \<longleftrightarrow> (\<forall>s w. P s \<longrightarrow> P (s\<lparr>cs_world := w\<rparr>))"

lemma wp_awaiting_result:
  assumes "worldless P" "\<And>s. P s \<Longrightarrow> P (sw s)" "P s"
    and "\<And>x r r' s'. m r = (Inr x, r') \<Longrightarrow> P s' \<Longrightarrow> Q x s'" "\<And>e s'. P s' \<Longrightarrow> E e s'"
  shows "wpE (awaiting sw (on_redis m)) Q E s"
proof -
  have P: "P (sw ((sw s)\<lparr>cs_world := w\<rparr>))" for w
    using assms(1-3) unfolding worldless_def by blast
  show ?thesis
    unfolding wp_awaiting wp_on_redis by (rule wpE_I) (erule assms(4) [OF _ P], rule assms(5) [OF P])
qed

lemma wp_awaiting_worldless:
  assumes "worldless P" "\<And>s. P s \<Longrightarrow> P (sw s)" "P s"
    and "\<And>x s'. P s' \<Longrightarrow> Q x s'" "\<And>e s'. P s' \<Longrightarrow> E e s'"
  shows "wpE (awaiting sw (on_redis m)) Q E s"
  by (rule wp_awaiting_result [where P = P]) (rule assms, assumption | rule assms)+

text \<open>What a finishing task does to the bookkeeping.\<close>

lemma process_and_route_in_flight:
  "process_and_route c i wfs s = (r, s') \<Longrightarrow>
   cs_in_flight s' = cs_in_flight s \<and> cs_next s' = cs_next s \<and>
   cs_reclaim_cursor s' = cs_reclaim_cursor s \<and> cs_in_flight_ids s' \<subseteq> cs_in_flight_ids s"
  by (auto simp: process_and_route_def bindE_def liftE_def finallyE_def on_world_def zoomE_def
      split: sum.splits prod.splits)

lemma finish_task_in_flight [simp]:
  "cs_in_flight (finish_task c t s) = filter (\<lambda>u. t_id u \<noteq> t_id t) (cs_in_flight s)"
  using process_and_route_in_flight by (fastforce simp: finish_task_def split: prod.splits)

lemma others_length: "others c s s' \<Longrightarrow> length (cs_in_flight s') \<le> length (cs_in_flight s)"
  by (auto elim!: others_cases)

lemma others_star_length: "(others c)\<^sup>*\<^sup>* s s' \<Longrightarrow> length (cs_in_flight s') \<le> length (cs_in_flight s)"
  by (induction rule: rtranclp_induct) (auto dest: others_length)

lemma sw_length: "others_only c sw \<Longrightarrow> length (cs_in_flight (sw s)) \<le> length (cs_in_flight s)"
  unfolding others_only_def using others_star_length by blast

subsubsection \<open>Backpressure\<close>

definition room :: "('r, 'd, 'x) consumer \<Rightarrow> nat \<Rightarrow> 'w consumer_state \<Rightarrow> bool" where
  "room c k s \<longleftrightarrow> int (length (cs_in_flight s)) + int k \<le> co_concurrency c"

lemma room_mono: "room c k s \<Longrightarrow> j \<le> k \<Longrightarrow> room c j s"
  by (simp add: room_def)

lemma room_worldless: "worldless (room c k)"
  by (simp add: worldless_def room_def)

lemma room_sw: "others_only c sw \<Longrightarrow> room c k s \<Longrightarrow> room c k (sw s)"
  using sw_length [of c sw s] by (simp add: room_def)

lemma wp_dispatch_room:
  "room c (Suc k) s \<Longrightarrow> wpE (dispatch i wfs) (\<lambda>u. room c k) (\<lambda>e. room c k) s"
  by (simp add: dispatch_def wp room_def split: sum.splits)

lemma wp_for_room:
  assumes "\<And>x k s. room c (Suc k) s \<Longrightarrow> wpE (f x) (\<lambda>u. room c k) (\<lambda>e. room c k) s"
  shows "room c (length xs + k) s \<Longrightarrow> wpE (forE xs f) (\<lambda>u. room c k) (\<lambda>e. room c 0) s"
proof (induction xs arbitrary: s)
  case Nil
  then show ?case by (simp add: wp)
next
  case (Cons x xs)
  then have "room c (Suc (length xs + k)) s" by simp
  from assms [OF this, of x] show ?case
    unfolding forE.simps wp
  proof (rule wpE_mono, goal_cases)
    case (1 u s')
    from 1(2) show ?case by (rule Cons.IH)
  next
    case (2 e s')
    from 2(2) show ?case by (rule room_mono) simp
  qed
qed

lemma wp_delivery_count_room:
  assumes "others_only c sw" "room c k s"
  shows "wpE (delivery_count c sw i) (\<lambda>n. room c k) (\<lambda>e. room c k) s"
proof (cases "as_str i")
  case (Inl e)
  with assms(2) show ?thesis by (simp add: delivery_count_def wp)
next
  case (Inr j)
  show ?thesis
    unfolding delivery_count_def wp_bind wp_lift Inr sum.case
    by (rule wp_awaiting_worldless [OF room_worldless room_sw [OF assms(1)] assms(2)]) (simp_all add: wp)
qed

lemma wp_handle_reclaimed_room:
  assumes sw: "others_only c sw" and "room c (Suc k) s"
  shows "wpE (handle_reclaimed c sw i wfs) (\<lambda>u. room c k) (\<lambda>e. room c k) s"
proof -
  have mono: "room c (Suc k) s' \<Longrightarrow> room c k s'" for s' :: "('a, 'b, 'c) cstate"
    by (erule room_mono) simp
  have dlq: "wpE (bindE (liftE (from_fields wfs)) (\<lambda>m. awaiting sw (on_redis (route_to_dlq c i m (f m)))))
      (\<lambda>u. room c k) (\<lambda>e. room c k) s'" if "room c (Suc k) s'" for s' f
  proof (cases "from_fields wfs")
    case (Inl e)
    with that show ?thesis by (simp add: wp mono)
  next
    case (Inr m)
    show ?thesis
      unfolding wp_bind wp_lift Inr sum.case
      by (rule wp_awaiting_worldless [OF room_worldless room_sw [OF sw] that]) (assumption | erule mono)+
  qed
  show ?thesis
  proof (cases "as_str i")
    case (Inl e)
    with assms(2) show ?thesis by (simp add: handle_reclaimed_def wp mono)
  next
    case (Inr j)
    have rest: "wpE (bindE (delivery_count c sw i) (\<lambda>n. if co_max_delivery_count c < n
        then bindE (liftE (from_fields wfs)) (\<lambda>m. awaiting sw (on_redis (route_to_dlq c i m
          (''exceeded max delivery count ('' @ py_str_int n @ '')''))))
        else dispatch i wfs)) (\<lambda>u. room c k) (\<lambda>e. room c k) s"
      unfolding wp_bind [of "delivery_count c sw i"]
    proof (rule wpE_mono [OF wp_delivery_count_room [OF sw assms(2)]], goal_cases)
      case (1 n s')
      then show ?case by (simp only: dlq wp_dispatch_room split: if_split) blast
    next
      case (2 e s')
      from 2(2) show ?case by (rule mono)
    qed
    show ?thesis
    proof (cases "j \<in> cs_in_flight_ids s")
      case True
      with Inr assms(2) show ?thesis by (simp add: handle_reclaimed_def wp mono)
    next
      case False
      with rest show ?thesis
        unfolding handle_reclaimed_def wp_bind [of "liftE x" for x] wp_lift Inr sum.case
          wp_bind [of "getE f" for f] wp_getE by simp
    qed
  qed
qed

context redis_client
begin

lemma wp_reclaim_room:
  fixes c :: "('r, 'd, 'x) consumer"
  assumes R: "co_redis c = R" and sw: "others_only c sw" and "room c 0 s"
  shows "wpE (reclaim_orphans c sw) (\<lambda>u. room c 0) (\<lambda>e. room c 0) s"
proof (cases "free_capacity c s \<le> 0")
  case True
  with assms(3) show ?thesis by (simp add: reclaim_orphans_def wp)
next
  case False
  let ?k = "nat (free_capacity c s)"
  have k: "room c ?k s" using False by (simp add: room_def free_capacity_def)
  have loop: "wpE (forE es (\<lambda>(i, wfs). handle_reclaimed c sw i wfs)) (\<lambda>u. room c 0) (\<lambda>e. room c 0) s'"
    if "room c ?k s'" "length es \<le> ?k" for es and s' :: "('r, 'd, 'x) cstate"
  proof (rule wp_for_room)
    show "room c (length es + 0) s'" using room_mono [OF that] by simp
  qed (simp add: wp_handle_reclaimed_room [OF sw] split_beta)
  show ?thesis
    unfolding reclaim_orphans_def wp_bind [of "getE f" for f] wp_getE prod.case if_not_P [OF False] R
      wp_bind [of "awaiting sw m" for m]
  proof (rule wp_awaiting_result [OF room_worldless room_sw [OF sw] k], goal_cases)
    case (2 x r r' s')
    obtain cur es where x: "x = (cur, es)" by (cases x)
    from 2(1) have "length es \<le> ?k" using xautoclaim_count x False by fastforce
    moreover have "room c ?k (s'\<lparr>cs_reclaim_cursor := v\<rparr>)" for v using 2(2) by (simp add: room_def)
    ultimately show ?case
      using 2(2) x by (cases "as_str cur") (auto simp: wp loop elim: room_mono)
  qed (auto elim: room_mono)
qed

lemma wp_consume_once_room:
  fixes c :: "('r, 'd, 'x) consumer"
  assumes R: "co_redis c = R" and sw: "others_only c sw" and "room c 0 s"
  shows "wpE (consume_once c sw block) (\<lambda>n s'. room c 0 s' \<and> 0 \<le> n \<and> n \<le> co_concurrency c) (\<lambda>e. room c 0) s"
  unfolding consume_once_def Let_def wp_bind [of "reclaim_orphans c sw"]
proof (rule wpE_mono [OF wp_reclaim_room [OF assms]], goal_cases)
  case (1 u s1)
  show ?case
  proof (cases "free_capacity c s1 \<le> 0")
    case True
    with 1(2) show ?thesis by (simp add: wp room_def)
  next
    case False
    let ?k = "nat (free_capacity c s1)"
    have k: "room c ?k s1" using False by (simp add: room_def free_capacity_def)
    have loop: "wpE (forE es (\<lambda>(i, wfs). dispatch i wfs)) (\<lambda>u. room c 0) (\<lambda>e. room c 0) s'"
      if "room c ?k s'" "length es \<le> ?k" for es and s' :: "('r, 'd, 'x) cstate"
    proof (rule wp_for_room)
      show "room c (length es + 0) s'" using room_mono [OF that] by simp
    qed (simp add: wp_dispatch_room split_beta)
    show ?thesis
      unfolding wp_bind [of "getE f" for f] wp_getE if_not_P [OF False] read_new_def R
        wp_bind [of "awaiting sw m" for m] wp_bind [of "bindE (awaiting sw m) f" for m f]
    proof (rule wp_awaiting_result [OF room_worldless room_sw [OF sw] k], goal_cases)
      case (2 resp r r' s')
      have len: "length (response_entries resp) \<le> ?k"
        using xreadgroup_count [OF 2(1)] False by (cases resp rule: response_entries.cases) force+
      have "int ?k \<le> co_concurrency c" using False by (simp add: free_capacity_def)
      with len have n: "int (length (response_entries resp)) \<le> co_concurrency c" by linarith
      show ?case
        unfolding wp_ret
      proof (cases "response_entries resp = []")
        case True
        with 2(2) n show "wpE (if response_entries resp = [] then ret 0 else bindE (forE (response_entries resp)
            (\<lambda>(i, wfs). dispatch i wfs)) (\<lambda>u. ret (int (length (response_entries resp)))))
          (\<lambda>n s'. room c 0 s' \<and> 0 \<le> n \<and> n \<le> co_concurrency c) (\<lambda>e. room c 0) s'"
          by (auto simp: wp elim: room_mono)
      next
        case False
        with loop [OF 2(2) len] n show "wpE (if response_entries resp = [] then ret 0 else
            bindE (forE (response_entries resp) (\<lambda>(i, wfs). dispatch i wfs))
              (\<lambda>u. ret (int (length (response_entries resp)))))
          (\<lambda>n s'. room c 0 s' \<and> 0 \<le> n \<and> n \<le> co_concurrency c) (\<lambda>e. room c 0) s'"
          by (simp add: wp wpE_conj)
      qed
    qed (auto elim: room_mono)
  qed
qed

end

subsubsection \<open>The register of message ids\<close>

text \<open>No message has two in-flight tasks, and every in-flight task's message id is registered.\<close>

definition registered :: "'w consumer_state \<Rightarrow> bool" where
  "registered s \<longleftrightarrow>
     distinct (map (\<lambda>t. as_str (t_message_id t)) (cs_in_flight s)) \<and>
     (\<forall>t \<in> set (cs_in_flight s). \<exists>i \<in> cs_in_flight_ids s. as_str (t_message_id t) = Inr i)"

definition unclaimed :: "string \<Rightarrow> 'w consumer_state \<Rightarrow> bool" where
  "unclaimed i s \<longleftrightarrow> registered s \<and> i \<notin> cs_in_flight_ids s"

lemma registered_worldless: "worldless registered" "worldless (unclaimed i)"
  by (simp_all add: worldless_def registered_def unclaimed_def)

lemma process_and_route_ids:
  "process_and_route c i wfs s = (r, s') \<Longrightarrow>
   cs_in_flight_ids s' = cs_in_flight_ids s \<or>
   (\<exists>k. as_str i = Inr k \<and> cs_in_flight_ids s' = cs_in_flight_ids s - {k})"
  by (auto simp: process_and_route_def bindE_def liftE_def finallyE_def on_world_def zoomE_def
      split: sum.splits prod.splits)

lemma finish_task_registered:
  assumes "registered s" "t \<in> set (cs_in_flight s)"
  shows "registered (finish_task c t s)"
proof -
  let ?f = "\<lambda>t. as_str (t_message_id t)"
  obtain r s' where p: "process_and_route c (t_message_id t) (t_fields t) s = (r, s')"
    by (cases "process_and_route c (t_message_id t) (t_fields t) s")
  have ids: "cs_in_flight_ids (finish_task c t s) = cs_in_flight_ids s'"
    by (simp add: finish_task_def p)
  have d: "distinct (map ?f (cs_in_flight s))" using assms(1) by (simp add: registered_def)
  have "\<exists>i \<in> cs_in_flight_ids s'. ?f u = Inr i" if u: "u \<in> set (cs_in_flight s)" "t_id u \<noteq> t_id t" for u
  proof -
    obtain i where i: "i \<in> cs_in_flight_ids s" "?f u = Inr i" using assms(1) u by (auto simp: registered_def)
    have "inj_on ?f (set (cs_in_flight s))" using d by (simp only: distinct_map)
    from inj_on_eq_iff [OF this u(1) assms(2)] have "?f u \<noteq> ?f t" using u(2) by blast
    with i process_and_route_ids [OF p] show ?thesis by (metis DiffI empty_iff insert_iff)
  qed
  then show ?thesis
    unfolding registered_def finish_task_in_flight ids
    by (intro conjI distinct_map_filter [OF d] ballI) simp
qed

lemma finish_task_ids: "cs_in_flight_ids (finish_task c t s) \<subseteq> cs_in_flight_ids s"
  using process_and_route_in_flight by (fastforce simp: finish_task_def split: prod.splits)

lemma others_unclaimed: "(others c)\<^sup>*\<^sup>* s s' \<Longrightarrow> (registered s \<longrightarrow> registered s') \<and> (unclaimed i s \<longrightarrow> unclaimed i s')"
proof (induction rule: rtranclp_induct)
  case base
  then show ?case by simp
next
  case (step s1 s2)
  from step.hyps(2) have "(registered s1 \<longrightarrow> registered s2) \<and> cs_in_flight_ids s2 \<subseteq> cs_in_flight_ids s1"
  proof (cases rule: others.cases)
    case (task_done t)
    then show ?thesis using finish_task_registered [of s1 t c] finish_task_ids [of c t s1] by simp
  next
    case (world_step w)
    then show ?thesis by (simp add: registered_def)
  qed
  with step.IH show ?case by (auto simp: unclaimed_def)
qed

lemma sw_registered:
  assumes "others_only c sw"
  shows "registered s \<Longrightarrow> registered (sw s)" "unclaimed i s \<Longrightarrow> unclaimed i (sw s)"
  using assms others_unclaimed [of c s "sw s" i] by (auto simp: others_only_def)

lemma dispatch_registered:
  assumes "unclaimed i s" "as_str message_id = Inr i" "dispatch message_id wfs s = (r, s')"
  shows "registered s'"
  using assms by (force simp: dispatch_def eff_defs registered_def unclaimed_def)

lemma wp_handle_reclaimed_registered:
  assumes sw: "others_only c sw" and s: "registered s"
  shows "wpE (handle_reclaimed c sw message_id wfs) (\<lambda>u. registered) (\<lambda>e. registered) s"
proof (cases "as_str message_id")
  case (Inl e)
  with s show ?thesis by (simp add: handle_reclaimed_def wp)
next
  case (Inr i)
  show ?thesis
  proof (cases "i \<in> cs_in_flight_ids s")
    case True
    with Inr s show ?thesis by (simp add: handle_reclaimed_def wp)
  next
    case False
    with s have un: "unclaimed i s" by (simp add: unclaimed_def)
    have reg: "unclaimed i s' \<Longrightarrow> registered s'" for s' :: "('a, 'b, 'c) cstate" by (simp add: unclaimed_def)
    have dlq: "wpE (bindE (liftE (from_fields wfs)) (\<lambda>m. awaiting sw (on_redis (route_to_dlq c message_id m (f m)))))
        (\<lambda>u. registered) (\<lambda>e. registered) s'" if "unclaimed i s'" for s' f
    proof (cases "from_fields wfs")
      case (Inl e)
      with that show ?thesis by (simp add: wp reg)
    next
      case m: (Inr m)
      show ?thesis
        unfolding wp_bind wp_lift m sum.case
        by (rule wp_awaiting_worldless [OF registered_worldless(1) sw_registered(1) [OF sw] reg [OF that]])
    qed
    have count: "wpE (delivery_count c sw message_id) (\<lambda>n. unclaimed i) (\<lambda>e. unclaimed i) s"
      unfolding delivery_count_def wp_bind wp_lift Inr sum.case
      by (rule wp_awaiting_worldless [OF registered_worldless(2) sw_registered(2) [OF sw] un]) (simp_all add: wp)
    have rest: "wpE (bindE (delivery_count c sw message_id) (\<lambda>n. if co_max_delivery_count c < n
        then bindE (liftE (from_fields wfs)) (\<lambda>m. awaiting sw (on_redis (route_to_dlq c message_id m
          (''exceeded max delivery count ('' @ py_str_int n @ '')''))))
        else dispatch message_id wfs)) (\<lambda>u. registered) (\<lambda>e. registered) s"
      unfolding wp_bind [of "delivery_count c sw message_id"]
    proof (rule wpE_mono [OF count], goal_cases)
      case (1 n s')
      have "wpE (dispatch message_id wfs) (\<lambda>u. registered) (\<lambda>e. registered) s'"
        by (rule wpE_I) (rule dispatch_registered [OF 1(2) Inr], assumption)+
      with dlq [OF 1(2)] show ?case by (simp split: if_split)
    next
      case (2 e s')
      from 2(2) show ?case by (rule reg)
    qed
    with False Inr show ?thesis
      unfolding handle_reclaimed_def wp_bind [of "liftE x" for x] wp_lift Inr sum.case
        wp_bind [of "getE f" for f] wp_getE by simp
  qed
qed

lemma wp_reclaim_registered:
  assumes sw: "others_only c sw" and s: "registered s"
  shows "wpE (reclaim_orphans c sw) (\<lambda>u. registered) (\<lambda>e. registered) s"
proof (cases "free_capacity c s \<le> 0")
  case True
  with s show ?thesis by (simp add: reclaim_orphans_def wp)
next
  case False
  have loop: "registered s' \<Longrightarrow> wpE (forE es (\<lambda>(i, wfs). handle_reclaimed c sw i wfs))
      (\<lambda>u. registered) (\<lambda>e. registered) s'" for es s'
  proof (induction es arbitrary: s')
    case Nil
    then show ?case by (simp add: wp)
  next
    case (Cons x es)
    obtain i wfs where x: "x = (i, wfs)" by (cases x)
    from wp_handle_reclaimed_registered [OF sw Cons.prems, of i wfs] show ?case
      unfolding forE.simps wp_bind x prod.case by (rule wpE_mono) (rule Cons.IH)
  qed
  show ?thesis
    unfolding reclaim_orphans_def wp_bind [of "getE f" for f] wp_getE prod.case if_not_P [OF False]
      wp_bind [of "awaiting sw m" for m]
  proof (rule wp_awaiting_worldless [OF registered_worldless(1) sw_registered(1) [OF sw] s], goal_cases)
    case (2 x s')
    obtain cur es where x: "x = (cur, es)" by (cases x)
    have "registered (s'\<lparr>cs_reclaim_cursor := v\<rparr>)" for v using 2 by (simp add: registered_def)
    with 2 x show ?case by (cases "as_str cur") (auto simp: wp loop)
  qed simp_all
qed

subsection \<open>Properties\<close>







lemma delivery_count_frame:
  assumes "redis_client R elog" and "co_redis c = R"
    and "delivery_count c (\<lambda>s. s) i s = (Inr n, s1)"
  shows "\<exists>q. s1 = s\<lparr>cs_world := (q, snd (cs_world s))\<rparr> \<and> elog q = elog (fst (cs_world s))"
proof -
  have "wpE (delivery_count c (\<lambda>s. s) i)
      (\<lambda>n s1. \<exists>q. s1 = s\<lparr>cs_world := (q, snd (cs_world s))\<rparr> \<and> elog q = elog (fst (cs_world s))) (\<lambda>e s1. True) s"
    unfolding delivery_count_def wp_bind wp_lift
    by (auto simp: wp_awaiting wp_on_redis wp assms(2) split: sum.split
        intro!: wpE_mono [OF redis_client.wp_xpending_range [OF assms(1)]])
  with assms(3) show ?thesis by (simp add: wpE_def)
qed

text \<open>
  C26. The delivery-count poison path strands the job: a message delivered too often is dead-lettered and
  acknowledged, but, unlike on every other path to the dead-letter stream, the database is not touched, so a
  row that was \<open>PENDING\<close> or \<open>RUNNING\<close> stays so with no message left to finish it.
\<close>

theorem over_delivered_job_is_stranded:
  assumes "redis_client R elog" and "sqlalchemy_session sess rows"
    and c: "c = build_consumer R sess bs ext name"
    and "as_str i = Inr k" and "k \<notin> cs_in_flight_ids s"
    and "delivery_count c (\<lambda>s. s) i s = (Inr n, s1)" and "co_max_delivery_count c < n" and "from_fields wfs = Inr m"
    and run: "handle_reclaimed c (\<lambda>s. s) i wfs s = (r, s')"
  shows "stored rows (fst (snd (cs_world s'))) = stored rows (fst (snd (cs_world s))) \<and>
    cs_in_flight s' = cs_in_flight s \<and>
    (r = Inr () \<longrightarrow>
       elog (fst (cs_world s')) = elog (fst (cs_world s)) @
         [dead c m (''exceeded max delivery count ('' @ py_str_int n @ '')''), acked c i])"
proof -
  let ?reason = "''exceeded max delivery count ('' @ py_str_int n @ '')''"
  obtain q where s1: "s1 = s\<lparr>cs_world := (q, snd (cs_world s))\<rparr>" and q: "elog q = elog (fst (cs_world s))"
    using delivery_count_frame [OF assms(1) _ assms(6)] c by (auto simp: build_consumer_def consumer_init_def)
  have "wpE (route_to_dlq c i m ?reason) (\<lambda>u q'. elog q' = elog q @ [dead c m ?reason, acked c i])
      (\<lambda>e q'. True) q"
    unfolding c by (rule wpE_mono [OF routing.wp_route_to_dlq [OF routing_built [OF assms(1,2)]]]) simp_all
  then have "wpE (handle_reclaimed c (\<lambda>s. s) i wfs)
    (\<lambda>u s'. snd (cs_world s') = snd (cs_world s) \<and> cs_in_flight s' = cs_in_flight s \<and>
       elog (fst (cs_world s')) = elog (fst (cs_world s)) @ [dead c m ?reason, acked c i])
    (\<lambda>e s'. snd (cs_world s') = snd (cs_world s) \<and> cs_in_flight s' = cs_in_flight s) s"
    using assms(4-8)
    by (auto simp: handle_reclaimed_def wpE_def bindE_def liftE_def getE_def s1 awaiting_def on_redis_def on_world_def on_fst_def
        zoomE_def modifyE_def finallyE_def q split: sum.splits prod.splits)
  with run show ?thesis by (simp add: wpE_def split: sum.splits)
qed

text \<open>A running job's message, delivered six times, leaves the pending list; the row stays \<open>RUNNING\<close>.\<close>

theorem over_delivered_job_is_stranded_witness:
  "\<exists>q s'. mr_pel q \<noteq> [] \<and>
     handle_reclaimed sample_consumer (\<lambda>s. s) (WBytes ''1-0'')
       (map (\<lambda>(k, v). (WStr k, WStr v)) (to_fields sample_message))
       (consumer_start_state (q, (one_job EMBED_DOCUMENT RUNNING, 0))) = (Inr (), s') \<and>
     cs_in_flight s' = [] \<and> acked sample_consumer (WBytes ''1-0'') \<in> set (mr_log (fst (cs_world s'))) \<and>
     row_is RUNNING (table_jobs (fst (snd (cs_world s')))) 1"
proof -
  define q where "q = mem_start\<lparr>mr_pel := [\<lparr>pe_stream = ''aie:jobs'', pe_group = ''aie-workers'', pe_entry = 1,
      pe_consumer = ''dead'', pe_time = 0, pe_count = 6\<rparr>]\<rparr>"
  let ?d = "one_job EMBED_DOCUMENT RUNNING"
  let ?s = "consumer_start_state (q, (?d, 0))"
  let ?wfs = "map (\<lambda>(k, v). (WStr k, WStr v)) (to_fields sample_message)"
  have id: "id_text (Suc 0) = ''1-0''" by code_simp
  have i: "as_str (WBytes ''1-0'') = Inr ''1-0''" using id_text_decodes [of "Suc 0"] unfolding id .
  have wfs: "from_fields ?wfs = Inr sample_message"
    by (rule from_fields_carries [where extra = "[]"]) (simp_all add: list.rel_map list_all2_same carries_def case_prod_unfold)
  have cnt: "delivery_count sample_consumer (\<lambda>s. s) (WBytes ''1-0'') ?s = (Inr 6, ?s)"
    by (simp add: delivery_count_def i bindE_def liftE_def awaiting_def modifyE_def finallyE_def on_redis_def on_world_def
        on_fst_def zoomE_def sample_consumer_def mem_client_def mem_command_def mem_xpending_range_def q_def
        mem_start_def consumer_start_state_def keys_from_settings_def default_broker_def id ret_def del: as_str.simps)
  let ?reason = "''exceeded max delivery count ('' @ py_str_int 6 @ '')''"
  obtain q' where dlq: "route_to_dlq sample_consumer (WBytes ''1-0'') sample_message ?reason q = (Inr (), q')"
    using mem_route_to_dlq_ok [of q] by (fastforce simp: sample_consumer_def q_def mem_start_def)
  have run: "handle_reclaimed sample_consumer (\<lambda>s. s) (WBytes ''1-0'') ?wfs ?s =
      (Inr (), ?s\<lparr>cs_world := (q', (?d, 0))\<rparr>)"
    using cnt dlq
    by (simp add: handle_reclaimed_def i wfs bindE_def liftE_def getE_def consumer_start_state_def awaiting_def
        modifyE_def finallyE_def on_redis_def on_world_def on_fst_def zoomE_def sample_consumer_def default_broker_def
        del: as_str.simps)
  note st = over_delivered_job_is_stranded [OF mem.redis_client_axioms pg.sqlalchemy_session_axioms
      sample_consumer_def i _ cnt _ wfs run]
  have "acked sample_consumer (WBytes ''1-0'') \<in> set (mr_log q')"
    using st by (simp add: consumer_start_state_def sample_consumer_def default_broker_def)
  moreover have "row_is RUNNING (table_jobs ?d) 1"
    using one_job_row [of EMBED_DOCUMENT RUNNING] by (simp add: row_is_def)
  ultimately show ?thesis using run
    by (intro exI [of _ q] exI [of _ "?s\<lparr>cs_world := (q', (?d, 0))\<rparr>"])
      (simp add: q_def consumer_start_state_def)
qed

end
