(* ===== verification/Retry.thy ===== *)
theory Retry
  imports Settings
begin

section \<open>Retry and offloading (\<open>core/retry.py\<close>, \<open>core/concurrency.py\<close>, \<open>ports/offloader.py\<close>)\<close>

text \<open>
  \<open>retrying\<close> builds the policy that it hands to tenacity's \<open>AsyncRetrying\<close>.  Tenacity is
  not part of the repository: the loop that runs a body under a policy is the parameter \<open>run\<close>
  of every definition that retries, and \<open>tenacity_laws run\<close> is what the code relies on of it,
  as tenacity documents it (a success is returned; an exception the predicate does not select is
  raised at once; at the last attempt the last exception is re-raised; otherwise the body is run
  again with one attempt less).  The waits between attempts change no modelled state.

  \<open>adapter_call\<close> is the \<open>_call\<close> helper that \<open>S3ObjectStore\<close>, the two Hugging Face
  adapters, \<open>PineconeVectorStore\<close> and \<open>DdgsSearch\<close> each define: retry outside, offload
  inside, every exception translated by the adapter's classifier.
\<close>

record retry_policy =
  stop_after :: int
  wait_initial :: rat
  wait_max :: rat
  wait_exp_base :: rat
  wait_jitter :: rat
  retry_on :: "exn \<Rightarrow> bool"
  reraise :: bool

definition retrying :: "retry_settings \<Rightarrow> retry_policy" where
  "retrying s =
     \<lparr>stop_after = rs_max_attempts s, wait_initial = rs_base_delay_s s, wait_max = rs_max_delay_s s,
      wait_exp_base = rs_exp_base s, wait_jitter = rs_jitter_s s, retry_on = is_transient,
      reraise = True\<rparr>"

definition translate_upstream_error :: "exn \<Rightarrow> (exn \<Rightarrow> bool) \<Rightarrow> string \<Rightarrow> exn" where
  "translate_upstream_error error is_trans ctxt =
     (if is_trans error then TransientUpstreamError (ctxt @ '': '' @ exn_str error) (Some error)
      else PermanentUpstreamError (ctxt @ '': '' @ exn_str error) (Some error))"

type_synonym ('s, 'a) runner = "retry_policy \<Rightarrow> ('s, 'a) io \<Rightarrow> ('s, 'a) io"

text \<open>What tenacity documents of \<open>AsyncRetrying\<close>, as far as the code relies on it.\<close>

definition tenacity_laws :: "('s, 'a) runner \<Rightarrow> bool" where
  "tenacity_laws run \<longleftrightarrow>
     (\<forall>p body s x s'. body s = (Inr x, s') \<longrightarrow> run p body s = (Inr x, s')) \<and>
     (\<forall>p body s e s'. body s = (Inl e, s') \<longrightarrow> \<not> retry_on p e \<longrightarrow> run p body s = (Inl e, s')) \<and>
     (\<forall>p body s e s'. body s = (Inl e, s') \<longrightarrow> retry_on p e \<longrightarrow> stop_after p \<le> 1 \<longrightarrow> reraise p \<longrightarrow>
        run p body s = (Inl e, s')) \<and>
     (\<forall>p body s e s'. body s = (Inl e, s') \<longrightarrow> retry_on p e \<longrightarrow> 1 < stop_after p \<longrightarrow>
        run p body s = run (p\<lparr>stop_after := stop_after p - 1\<rparr>) body s')"

text \<open>A runner that obeys them, which instantiates the parameter in the witnesses.\<close>

primrec attempt_loop :: "nat \<Rightarrow> (exn \<Rightarrow> bool) \<Rightarrow> ('s, 'a) io \<Rightarrow> ('s, 'a) io" where
  "attempt_loop 0 retry_p body s = body s"
| "attempt_loop (Suc n) retry_p body s =
     (case body s of
        (Inr x, s') \<Rightarrow> (Inr x, s')
      | (Inl e, s') \<Rightarrow> if retry_p e then attempt_loop n retry_p body s' else (Inl e, s'))"

definition loop_runner :: "('s, 'a) runner" where
  "loop_runner p body = attempt_loop (nat (stop_after p - 1)) (retry_on p) body"

subsection \<open>Offloading\<close>

text \<open>
  The \<open>SyncOffloader\<close> port: an implementation runs \<open>fn\<close> exactly once and hands on its
  result, its exception and its effects.
\<close>

type_synonym ('s, 'a) offloader = "('s, 'a) io \<Rightarrow> ('s, 'a) io"

locale sync_offloader =
  fixes off :: "('s, 'a) offloader"
  assumes runs_once: "off fn s = fn s"
begin

lemma off_id: "off = (\<lambda>fn. fn)"
  by (intro ext) (simp add: runs_once)

end

text \<open>\<open>ThreadOffloader.run\<close>: \<open>asyncio.to_thread\<close> runs the callable once in a worker thread.\<close>

definition thread_offloader_run :: "('s, 'a) offloader" where
  "thread_offloader_run fn = bindE fn ret"

interpretation thread_offloader: sync_offloader thread_offloader_run
  by unfold_locales (simp add: thread_offloader_run_def bindE_def ret_def split: prod.splits sum.splits)

text \<open>The \<open>_call\<close> of the adapters.\<close>

definition adapter_call ::
  "('s, 'a) runner \<Rightarrow> ('s, 'a) offloader \<Rightarrow> (exn \<Rightarrow> exn) \<Rightarrow> retry_settings \<Rightarrow> ('s, 'a) io \<Rightarrow> ('s, 'a) io" where
  "adapter_call run off classify rs fn =
     run (retrying rs) (tryE (off fn) (\<lambda>exc. raiseE (classify exc)))"

subsection \<open>Lemmas\<close>

lemma tenacity_success:
  assumes "tenacity_laws run" "body s = (Inr x, s')"
  shows "run p body s = (Inr x, s')"
  using assms(1) [unfolded tenacity_laws_def, THEN conjunct1, THEN spec, of p, THEN spec, of body,
      THEN spec, of s, THEN spec, of x, THEN spec, of s'] assms(2) by (rule mp)

lemma tenacity_not_retried:
  assumes "tenacity_laws run" "body s = (Inl e, s')" "\<not> retry_on p e"
  shows "run p body s = (Inl e, s')"
  using assms(1) [unfolded tenacity_laws_def, THEN conjunct2, THEN conjunct1, THEN spec, of p,
      THEN spec, of body, THEN spec, of s, THEN spec, of e, THEN spec, of s'] assms(2,3)
  by iprover

lemma tenacity_exhausted:
  assumes "tenacity_laws run" "body s = (Inl e, s')" "stop_after p \<le> 1" "reraise p"
  shows "run p body s = (Inl e, s')"
proof (cases "retry_on p e")
  case True
  show ?thesis
    using assms(1) [unfolded tenacity_laws_def, THEN conjunct2, THEN conjunct2, THEN conjunct1,
        THEN spec, of p, THEN spec, of body, THEN spec, of s, THEN spec, of e, THEN spec, of s']
      assms(2) True assms(3,4) by iprover
next
  case False
  show ?thesis by (rule tenacity_not_retried [where body = body and s = s, OF assms(1,2) False])
qed

lemma tenacity_again:
  assumes "tenacity_laws run" "body s = (Inl e, s')" "retry_on p e" "1 < stop_after p"
  shows "run p body s = run (p\<lparr>stop_after := stop_after p - 1\<rparr>) body s'"
  using assms(1) [unfolded tenacity_laws_def, THEN conjunct2, THEN conjunct2, THEN conjunct2,
      THEN spec, of p, THEN spec, of body, THEN spec, of s, THEN spec, of e, THEN spec, of s']
    assms(2-4) by iprover

lemma attempt_loop_raise_not_retried:
  "body s = (Inl e, s') \<Longrightarrow> \<not> retry_p e \<Longrightarrow> attempt_loop n retry_p body s = (Inl e, s')"
  by (cases n) simp_all

lemma loop_runner_laws: "tenacity_laws (loop_runner :: ('s, 'a) runner)"
proof -
  have again: "loop_runner p body s = loop_runner (p\<lparr>stop_after := stop_after p - 1\<rparr>) body s'"
    if "body s = (Inl e, s')" "retry_on p e" "1 < stop_after p" for p :: retry_policy and body :: "('s, 'a) io" and s e s'
  proof -
    from that(3) have "nat (stop_after p - 1) = Suc (nat (stop_after p - 1 - 1))" by simp
    with that show ?thesis by (simp add: loop_runner_def)
  qed
  have ok: "loop_runner p body s = (Inr x, s')" if "body s = (Inr x, s')"
    for p :: retry_policy and body :: "('s, 'a) io" and s x s'
    using that by (cases "nat (stop_after p - 1)") (simp_all add: loop_runner_def)
  have no: "loop_runner p body s = (Inl e, s')" if "body s = (Inl e, s')" "\<not> retry_on p e"
    for p :: retry_policy and body :: "('s, 'a) io" and s e s'
    using that by (simp add: loop_runner_def attempt_loop_raise_not_retried)
  have last: "loop_runner p body s = (Inl e, s')" if "body s = (Inl e, s')" "stop_after p \<le> 1"
    for p :: retry_policy and body :: "('s, 'a) io" and s e s'
    using that by (simp add: loop_runner_def)
  show ?thesis
    unfolding tenacity_laws_def
    by (intro conjI allI impI) (rule ok no last again; assumption)+
qed

text \<open>Under the laws every runner is the attempt loop.\<close>

lemma tenacity_attempt_loop:
  assumes laws: "tenacity_laws run" and "reraise p" and "stop_after p = int n + 1"
  shows "run p body s = attempt_loop n (retry_on p) body s"
  using assms(2,3)
proof (induction n arbitrary: p s)
  case 0
  then show ?case
    using tenacity_success [OF laws, of body s] tenacity_exhausted [OF laws, of body s]
    by (cases "body s"; cases "fst (body s)") auto
next
  case (Suc n)
  obtain r s' where b: "body s = (r, s')" by (cases "body s")
  show ?case
  proof (cases r)
    case (Inr x)
    with b show ?thesis using tenacity_success [OF laws, of body s] by simp
  next
    case (Inl e)
    show ?thesis
    proof (cases "retry_on p e")
      case True
      let ?q = "p\<lparr>stop_after := stop_after p - 1\<rparr>"
      have "run p body s = run ?q body s'"
        using Inl b True Suc.prems by (intro tenacity_again [OF laws]) auto
      also have "\<dots> = attempt_loop n (retry_on ?q) body s'"
        using Suc.prems by (intro Suc.IH) auto
      finally show ?thesis using Inl b True by simp
    next
      case False
      with Inl b show ?thesis using tenacity_not_retried [OF laws, of body s] by simp
    qed
  qed
qed

lemma run_retrying:
  assumes "tenacity_laws run" and "rs_max_attempts rs = int n + 1"
  shows "run (retrying rs) body s = attempt_loop n is_transient body s"
  using tenacity_attempt_loop [OF assms(1), of "retrying rs" n] assms(2) by (simp add: retrying_def)

lemma retry_settings_attempts:
  assumes "retry_settings_ok rs"
  obtains n where "rs_max_attempts rs = int n + 1"
  using assms zero_le_imp_eq_int [of "rs_max_attempts rs - 1"]
  by (auto simp: retry_settings_ok_def algebra_simps)

text \<open>
  A retried run as the list of its attempts: \<open>attempts_ok body s es r s'\<close> says that the body was
  run once per element of \<open>es\<close>, each time raising that transient error, and then once more
  with result \<open>r\<close>, the states being passed along.
\<close>

fun attempts_ok :: "('s, 'a) io \<Rightarrow> 's \<Rightarrow> exn list \<Rightarrow> exn + 'a \<Rightarrow> 's \<Rightarrow> bool" where
  "attempts_ok body s [] r s' = (body s = (r, s'))"
| "attempts_ok body s (e # es) r s' =
     (is_transient e \<and> fst (body s) = Inl e \<and> attempts_ok body (snd (body s)) es r s')"

lemma attempt_loop_trace:
  "attempt_loop n is_transient body s = (r, s') \<Longrightarrow>
   \<exists>es. attempts_ok body s es r s' \<and> length es \<le> n \<and>
        (\<forall>e. r = Inl e \<longrightarrow> is_transient e \<longrightarrow> length es = n)"
proof (induction n arbitrary: s)
  case 0
  then show ?case by (intro exI [of _ "[]"]) simp
next
  case (Suc n)
  obtain r1 s1 where b: "body s = (r1, s1)" by (cases "body s")
  show ?case
  proof (cases "\<exists>e. r1 = Inl e \<and> is_transient e")
    case True
    then obtain e where e: "r1 = Inl e" "is_transient e" by blast
    with Suc.prems b have "attempt_loop n is_transient body s1 = (r, s')" by simp
    from Suc.IH [OF this] obtain es where es: "attempts_ok body s1 es r s'" "length es \<le> n"
      "\<forall>e. r = Inl e \<longrightarrow> is_transient e \<longrightarrow> length es = n" by blast
    with e b show ?thesis by (intro exI [of _ "e # es"]) simp
  next
    case False
    with Suc.prems b have "(r1, s1) = (r, s')" "\<forall>e. r = Inl e \<longrightarrow> \<not> is_transient e"
      by (auto split: sum.splits if_splits)
    with b show ?thesis by (intro exI [of _ "[]"]) simp
  qed
qed

lemma attempts_ok_last: "attempts_ok body s es r s' \<Longrightarrow> \<exists>t. body t = (r, s')"
  by (induction es arbitrary: s) auto

lemma attempts_ok_keeps: "keeps I body \<Longrightarrow> I s \<Longrightarrow> attempts_ok body s es r s' \<Longrightarrow> I s'"
proof (induction es arbitrary: s)
  case Nil
  then show ?case using keepsD by fastforce
next
  case (Cons e es)
  then have "I (snd (body s))" by (simp add: keeps_def)
  with Cons show ?case by simp
qed

lemma retrying_trace:
  assumes "tenacity_laws run" and "retry_settings_ok rs" and "run (retrying rs) body s = (r, s')"
  shows "\<exists>es. attempts_ok body s es r s' \<and> int (length es) + 1 \<le> rs_max_attempts rs \<and>
           (\<forall>e. r = Inl e \<longrightarrow> is_transient e \<longrightarrow> int (length es) + 1 = rs_max_attempts rs)"
proof -
  obtain n where n: "rs_max_attempts rs = int n + 1" using retry_settings_attempts [OF assms(2)] .
  have "attempt_loop n is_transient body s = (r, s')"
    using assms(3) run_retrying [OF assms(1) n, of body s] by simp
  from attempt_loop_trace [OF this] obtain es where "attempts_ok body s es r s'" "length es \<le> n"
    "\<forall>e. r = Inl e \<longrightarrow> is_transient e \<longrightarrow> length es = n" by blast
  with n show ?thesis by (intro exI [of _ es]) auto
qed

subsection \<open>Properties\<close>

text \<open>
  C31. The retry policy: a call under \<open>retrying(settings)\<close> runs its body at least once and at
  most \<open>max_attempts\<close> times, every run but the last having raised a transient upstream error; it ends
  with the result of the last run, and a transient error comes out only after exactly
  \<open>max_attempts\<close> runs.  A permanent or unrelated error is never retried.
\<close>

theorem retry_bounded:
  assumes "tenacity_laws run" and "retry_settings_ok rs" and "run (retrying rs) body s = (r, s')"
  shows "\<exists>es. attempts_ok body s es r s' \<and> int (length es) + 1 \<le> rs_max_attempts rs \<and>
           (\<forall>e. r = Inl e \<longrightarrow> is_transient e \<longrightarrow> int (length es) + 1 = rs_max_attempts rs)"
  using assms by (rule retrying_trace)

text \<open>A body that fails transiently twice and then returns the number of its runs.\<close>

definition flaky :: "(nat, nat) io" where
  "flaky n = (if n < 2 then (Inl (TransientUpstreamError ''blip'' None), Suc n) else (Inr (Suc n), Suc n))"

theorem retry_bounded_witness:
  "loop_runner (retrying default_retry) flaky 0 = (Inr 3, 3) \<and>
   (\<exists>es. attempts_ok flaky 0 es (Inr 3) 3 \<and> int (length es) + 1 \<le> 3)"
proof -
  have run: "loop_runner (retrying default_retry) flaky 0 = (Inr 3, 3)"
    by (simp add: loop_runner_def retrying_def default_retry_def flaky_def numeral_2_eq_2)
  have ok: "retry_settings_ok default_retry" by (simp add: retry_settings_ok_def default_retry_def)
  have m: "rs_max_attempts default_retry = 3" by (simp add: default_retry_def)
  from retry_bounded [OF loop_runner_laws ok run] run m show ?thesis by auto
qed

text \<open>
  No raw SDK exception leaves an adapter: if its classifier only builds upstream errors, then
  every exception that \<open>_call\<close> raises is one, and it is the translation of an exception that the
  offloaded call raised.
\<close>

theorem adapter_errors_classified:
  assumes "tenacity_laws run" and "retry_settings_ok rs"
    and "\<And>e. is_upstream_error (classify e)"
    and "adapter_call run thread_offloader_run classify rs fn s = (Inl e, s')"
  shows "is_upstream_error e \<and> (\<exists>raw t. fn t = (Inl raw, s') \<and> e = classify raw)"
proof -
  let ?body = "tryE (thread_offloader_run fn) (\<lambda>exc. raiseE (classify exc))"
  have "run (retrying rs) ?body s = (Inl e, s')" using assms(4) by (simp add: adapter_call_def)
  from retrying_trace [OF assms(1,2) this] obtain es where "attempts_ok ?body s es (Inl e) s'" by blast
  from attempts_ok_last [OF this] obtain t where "?body t = (Inl e, s')" by blast
  then obtain raw where "fn t = (Inl raw, s')" "e = classify raw"
    by (auto simp: tryE_def raiseE_def thread_offloader.off_id split: prod.splits sum.splits)
  with assms(3) show ?thesis by auto
qed

theorem adapter_errors_classified_witness:
  "adapter_call loop_runner thread_offloader_run (\<lambda>e. PermanentUpstreamError (exn_str e) (Some e))
     default_retry (raiseE (ValueError ''bad'')) (0 :: nat) =
     (Inl (PermanentUpstreamError ''bad'' (Some (ValueError ''bad''))), 0) \<and>
   is_upstream_error (PermanentUpstreamError ''bad'' (Some (ValueError ''bad'')))"
proof -
  let ?c = "\<lambda>e. PermanentUpstreamError (exn_str e) (Some e)"
  let ?fn = "raiseE (ValueError ''bad'') :: (nat, unit) io"
  have run: "adapter_call loop_runner thread_offloader_run ?c default_retry (raiseE (ValueError ''bad'')) 0 =
      (Inl (PermanentUpstreamError ''bad'' (Some (ValueError ''bad''))), 0)"
    by (simp add: adapter_call_def loop_runner_def retrying_def default_retry_def
        thread_offloader.off_id eff_defs numeral_2_eq_2)
  have ok: "retry_settings_ok default_retry" by (simp add: retry_settings_ok_def default_retry_def)
  have c: "is_upstream_error (?c e)" for e by (simp add: is_upstream_error_def)
  from adapter_errors_classified [OF loop_runner_laws ok c run] run show ?thesis by blast
qed

end
