(* ===== verification/Ingestion.thy ===== *)
theory Ingestion
  imports Repository Producer Retry
begin

section \<open>The write path (\<open>services/ingestion.py\<close>)\<close>

text \<open>
  \<open>IngestionService.submit\<close> over the pair of the job store and the queue: it stores the new job, then
  publishes its pointer under the retry policy.  The fresh identifier and the two clock readings of
  \<open>InferenceJob.new\<close> are arguments.  The locale \<open>ingestion\<close> puts the port \<open>JobRepository\<close>, the port
  \<open>JobQueue\<close> and a lawful \<open>tenacity\<close> together; it is interpreted on the table, on \<open>StreamProducer\<close> over
  the in-memory Redis, and on the attempt loop.
\<close>

definition submit ::
  "'d repository \<Rightarrow> 'q publish_port \<Rightarrow> ('d \<times> 'q, unit) runner \<Rightarrow> retry_settings \<Rightarrow>
   job_type \<Rightarrow> pydict \<Rightarrow> uuid \<Rightarrow> int \<Rightarrow> int \<Rightarrow> ('d \<times> 'q, uuid) io" where
  "submit repo pub run retry_settings ty payload fresh created updated =
     (let job = job_new ty payload fresh created updated
      in bindE (on_fst (rp_add repo job)) (\<lambda>u.
         bindE (run (retrying retry_settings) (on_snd (pub job))) (\<lambda>u.
         ret (j_id job))))"

subsection \<open>Lemmas\<close>

locale ingestion =
  job_repository "rp_add repo" "rp_get repo" "rp_update repo" jobs + job_queue pub sent
  for repo :: "'d repository" and jobs :: "'d \<Rightarrow> uuid \<rightharpoonup> inference_job"
    and pub :: "'q publish_port" and sent :: "'q \<Rightarrow> (string \<times> string) list list" +
  fixes run :: "('d \<times> 'q, unit) runner"
  assumes tenacity: "tenacity_laws run"
begin

text \<open>Retrying \<open>publish\<close>: every attempt may have left a copy of the pointer.\<close>

lemma publish_attempts:
  "attempts_ok (on_snd (pub job)) w es r w' \<Longrightarrow>
   \<exists>k \<le> length es + 1. fst w' = fst w \<and>
     sent (snd w') = sent (snd w) @ replicate k (to_fields (first_delivery job)) \<and> (r = Inr () \<longrightarrow> 1 \<le> k)"
proof (induction es arbitrary: w)
  case Nil
  obtain r1 q where p: "pub job (snd w) = (r1, q)" by (cases "pub job (snd w)")
  with Nil have "r1 = r" "w' = (fst w, q)" by (auto simp: on_snd_run)
  with publish_law [OF p] show ?case
    by (auto split: sum.splits intro: exI [of _ "0 :: nat"] exI [of _ "1 :: nat"])
next
  case (Cons e es)
  obtain r1 q where p: "pub job (snd w) = (r1, q)" by (cases "pub job (snd w)")
  with Cons.prems have r1: "r1 = Inl e" and more: "attempts_ok (on_snd (pub job)) (fst w, q) es r w'"
    using on_snd_run [of "pub job" w, OF p] by auto
  from Cons.IH [OF more] obtain k where k: "k \<le> length es + 1" "fst w' = fst w"
    "sent (snd w') = sent q @ replicate k (to_fields (first_delivery job))" "r = Inr () \<longrightarrow> 1 \<le> k" by auto
  from publish_law [OF p] r1
  have "sent q = sent (snd w) \<or> sent q = sent (snd w) @ [to_fields (first_delivery job)]" by simp
  then show ?case
  proof
    assume "sent q = sent (snd w)"
    with k show ?thesis by (intro exI [of _ k]) simp
  next
    assume "sent q = sent (snd w) @ [to_fields (first_delivery job)]"
    with k show ?thesis by (intro exI [of _ "Suc k"]) simp
  qed
qed

lemma wp_submit:
  assumes "retry_settings_ok rs"
    and job_def: "job = job_new ty payload fresh created updated"
  shows "wpE (submit repo pub run rs ty payload fresh created updated)
     (\<lambda>i w'. i = fresh \<and> jobs (fst w) fresh = None \<and> jobs (fst w') = (jobs (fst w))(fresh \<mapsto> job) \<and>
        (\<exists>k. 1 \<le> k \<and> int k \<le> rs_max_attempts rs \<and>
          sent (snd w') = sent (snd w) @ replicate k (to_fields (first_delivery job))))
     (\<lambda>e w'. \<not> is_domain_error e \<and> jobs (fst w') = jobs (fst w) \<and> snd w' = snd w \<or>
        jobs (fst w) fresh = None \<and> jobs (fst w') = (jobs (fst w))(fresh \<mapsto> job) \<and>
        (\<exists>k. int k \<le> rs_max_attempts rs \<and>
          sent (snd w') = sent (snd w) @ replicate k (to_fields (first_delivery job)))) w"
  unfolding submit_def Let_def wp wp_on_fst job_def [symmetric]
proof (rule wp_add, goal_cases)
  case (1 d')
  have id: "j_id job = fresh" by (simp add: job_def job_new_def)
  show ?case
  proof (rule wpE_I)
    fix x w' assume "run (retrying rs) (on_snd (pub job)) (d', snd w) = (Inr x, w')"
    from retrying_trace [OF tenacity assms(1) this] obtain es where
      "attempts_ok (on_snd (pub job)) (d', snd w) es (Inr x) w'" "int (length es) + 1 \<le> rs_max_attempts rs"
      by blast
    with publish_attempts [OF this(1)] 1 id show "j_id job = fresh \<and> jobs (fst w) fresh = None \<and>
        jobs (fst w') = (jobs (fst w))(fresh \<mapsto> job) \<and> (\<exists>k\<ge>1. int k \<le> rs_max_attempts rs \<and>
          sent (snd w') = sent (snd w) @ replicate k (to_fields (first_delivery job)))"
      by auto
  next
    fix e w' assume "run (retrying rs) (on_snd (pub job)) (d', snd w) = (Inl e, w')"
    from retrying_trace [OF tenacity assms(1) this] obtain es where
      "attempts_ok (on_snd (pub job)) (d', snd w) es (Inl e) w'" "int (length es) + 1 \<le> rs_max_attempts rs"
      by blast
    with publish_attempts [OF this(1)] 1 id
    show "\<not> is_domain_error e \<and> jobs (fst w') = jobs (fst w) \<and> snd w' = snd w \<or>
        jobs (fst w) fresh = None \<and> jobs (fst w') = (jobs (fst w))(fresh \<mapsto> job) \<and>
        (\<exists>k. int k \<le> rs_max_attempts rs \<and>
          sent (snd w') = sent (snd w) @ replicate k (to_fields (first_delivery job)))"
      by auto
  qed
qed simp

end

interpretation pg_ingestion: ingestion pg_repo table_jobs "publish (producer_init mem_client keys settings)"
    "\<lambda>s. sent_to (k_stream keys) (mr_log s)" loop_runner for keys settings
  by unfold_locales (rule loop_runner_laws)

subsection \<open>Properties\<close>

text \<open>
  C15. Submitting a job, over any lawful Redis and session and whatever fails: on return the job is stored
  \<open>PENDING\<close> under a fresh id, nothing else in the store changed, and its pointer is in the stream at
  least once and at most \<open>max_attempts\<close> times.  On an exception either the insert failed and nothing
  happened at all, or the row stays \<open>PENDING\<close>; in that case the stream may nevertheless hold the
  pointer, since a publish that timed out may have been executed.
\<close>

theorem submit_outcomes:
  assumes "redis_client R elog" and "sqlalchemy_session sess rows" and "tenacity_laws run" and "retry_settings_ok rs"
    and "submit (sql_repository sess) (publish (producer_init R keys settings)) run rs ty payload fresh
      created updated w = (r, w')"
  shows "let job = job_new ty payload fresh created updated;
      pointers = (\<lambda>k. sent_to (k_stream keys) (elog (snd w')) =
        sent_to (k_stream keys) (elog (snd w)) @ replicate k (to_fields (first_delivery job)));
      inserted = (stored rows (fst w) fresh = None \<and> stored rows (fst w') = (stored rows (fst w))(fresh \<mapsto> job))
    in j_status job = PENDING \<and>
      (case r of
         Inr i \<Rightarrow> i = fresh \<and> inserted \<and> (\<exists>k. 1 \<le> k \<and> int k \<le> rs_max_attempts rs \<and> pointers k)
       | Inl e \<Rightarrow> \<not> is_domain_error e \<and> stored rows (fst w') = stored rows (fst w) \<and> snd w' = snd w \<or>
           inserted \<and> (\<exists>k. int k \<le> rs_max_attempts rs \<and> pointers k))"
proof -
  have ing: "ingestion (sql_repository sess) (stored rows) (publish (producer_init R keys settings))
      (\<lambda>s. sent_to (k_stream keys) (elog s)) run"
    by (intro ingestion.intro ingestion_axioms.intro sql_job_repository
        redis_client.publish_queue assms)
  from ingestion.wp_submit [OF ing assms(4) refl, of ty payload fresh created updated w] assms(5)
  show ?thesis by (simp add: wpE_def Let_def job_new_def split: sum.splits)
qed

text \<open>The counter-intuitive branch: three executed time-outs give the client an error and the stream three pointers.\<close>

definition redis_timeout :: sdk_error where
  "redis_timeout =
     \<lparr>sdk_mro = [''redis.exceptions.TimeoutError'', ''redis.exceptions.RedisError''],
      sdk_name = ''TimeoutError'', sdk_text = ''Timeout reading from socket'',
      sdk_repr = ''TimeoutError()'', sdk_status = None, sdk_response_status = None,
      sdk_client_response = \<lparr>cr_code = None, cr_message = None, cr_status = None\<rparr>\<rparr>"

definition lossy_redis :: mem_redis where
  "lossy_redis = mem_start\<lparr>mr_faults := [Some (redis_timeout, True), Some (redis_timeout, True),
                                        Some (redis_timeout, True)]\<rparr>"

definition default_keys :: broker_keys where
  "default_keys = keys_from_settings default_broker"

theorem submit_outcomes_witness:
  "\<exists>e w'. submit pg_repo (publish (producer_init mem_client default_keys default_broker)) loop_runner default_retry
       RAG_QUERY [] 1 0 0 (\<lparr>db_rows = [], db_faults = []\<rparr>, lossy_redis) = (Inl e, w') \<and>
     is_transient e \<and> table_jobs (fst w') 1 = Some (job_new RAG_QUERY [] 1 0 0) \<and>
     length (sent_to ''aie:jobs'' (mr_log (snd w'))) = 3"
proof -
  let ?pub = "publish (producer_init mem_client default_keys default_broker)"
  let ?job = "job_new RAG_QUERY [] 1 0 0"
  let ?ev = "Added ''aie:jobs'' (to_fields (first_delivery ?job))"
  have pub: "\<exists>s'. ?pub ?job s = (Inl (classify_redis_error (SdkError redis_timeout)), s') \<and>
      mr_log s' = mr_log s @ [?ev] \<and> mr_faults s' = fs"
    if "mr_faults s = Some (redis_timeout, True) # fs" for s fs
    using that by (simp add: publish_def prod_xadd_def producer_init_def mem_client_def mem_command_def
        default_keys_def keys_from_settings_def default_broker_def eff_defs mem_xadd_def redis_timeout_def)
  have t: "is_transient (classify_redis_error (SdkError redis_timeout))"
    by (simp add: classify_redis_error_def redis_timeout_def PERMANENT_REDIS_TYPES_def
        TRANSIENT_REDIS_TYPES_def transient_def)
  obtain d where d: "repo_add table_session ?job \<lparr>db_rows = [], db_faults = []\<rparr> = (Inr (), d)"
    by (simp add: repo_add_def transaction_def table_defs bindE_def ret_def db_lookup_def row_fits_def
        to_row_def job_new_def fits_def int4_def)
  have row: "table_jobs d 1 = Some ?job"
    using pg_repo.add_law [of ?job _ "Inr ()" d] d by (simp add: job_new_def)
  obtain s1 where s1: "?pub ?job lossy_redis = (Inl (classify_redis_error (SdkError redis_timeout)), s1)"
    "mr_log s1 = [?ev]" "mr_faults s1 = [Some (redis_timeout, True), Some (redis_timeout, True)]"
    using pub [of lossy_redis] by (auto simp: lossy_redis_def mem_start_def)
  obtain s2 where s2: "?pub ?job s1 = (Inl (classify_redis_error (SdkError redis_timeout)), s2)"
    "mr_log s2 = [?ev, ?ev]" "mr_faults s2 = [Some (redis_timeout, True)]"
    using pub [OF s1(3)] s1(2) by auto
  obtain s3 where s3: "?pub ?job s2 = (Inl (classify_redis_error (SdkError redis_timeout)), s3)"
    "mr_log s3 = [?ev, ?ev, ?ev]"
    using pub [OF s2(3)] s2(2) by auto
  have run: "submit pg_repo ?pub loop_runner default_retry RAG_QUERY [] 1 0 0
      (\<lparr>db_rows = [], db_faults = []\<rparr>, lossy_redis) =
      (Inl (classify_redis_error (SdkError redis_timeout)), (d, s3))"
    using d s1(1) s2(1) s3(1) t
    by (simp add: submit_def Let_def loop_runner_def retrying_def default_retry_def numeral_2_eq_2 bindE_def
        on_fst_run on_snd_run del: One_nat_def)
  have ok: "retry_settings_ok default_retry" by (simp add: retry_settings_ok_def default_retry_def)
  have "k_stream default_keys = ''aie:jobs''"
    by (simp add: default_keys_def keys_from_settings_def default_broker_def)
  with submit_outcomes [OF mem.redis_client_axioms pg.sqlalchemy_session_axioms loop_runner_laws ok run] run t row s3(2) show ?thesis
    by (intro exI [of _ "classify_redis_error (SdkError redis_timeout)"] exI [of _ "(d, s3)"] conjI)
       (simp_all add: Let_def)
qed

end
