(* ===== verification/Delivery.thy ===== *)
theory Delivery
  imports Consumer Ingestion
begin

section \<open>What a consumer group can deliver (\<open>ensure_group\<close> against \<open>publish\<close>)\<close>

text \<open>
  \<open>ensure_group\<close> creates the group with the id \<open>$\<close>, and only a worker calls it.  This theory follows the
  group over time: the relation \<open>broker_step\<close> is any command that any process of the system can send to
  Redis, and the locale \<open>group_view\<close> states what Redis documents of a group: it exists once created, the
  entries it can hand out (\<open>view s\<close>) start empty for the id \<open>$\<close> and grow by the entries added to its stream,
  and \<open>XREADGROUP\<close> and \<open>XAUTOCLAIM\<close> hand out nothing else, and nothing at all without a group.  The
  in-memory Redis satisfies this along its runs (\<open>mem_ok\<close>).
\<close>

subsection \<open>Commands and deliveries\<close>

inductive broker_step :: "'r redis \<Rightarrow> broker_keys \<Rightarrow> 'r \<Rightarrow> 'r \<Rightarrow> bool" for R keys where
  boot: "broker_step R keys s (snd (ensure_group R keys s))"
| add: "broker_step R keys s (snd (xadd R stream fs n ap s))"
| acknowledge: "broker_step R keys s (snd (xack R (k_stream keys) (k_group keys) i s))"
| read: "broker_step R keys s (snd (xreadgroup R (k_group keys) name [(k_stream keys, ''>'')] n b na s))"
| claim: "broker_step R keys s (snd (xautoclaim R (k_stream keys) (k_group keys) name idle start n s))"
| pending: "broker_step R keys s (snd (xpending_range R (k_stream keys) (k_group keys) lo hi n s))"

text \<open>A read or a claim of some worker hands out this entry.\<close>

definition delivers :: "'r redis \<Rightarrow> broker_keys \<Rightarrow> 'r \<Rightarrow> wire \<times> wire_fields \<Rightarrow> bool" where
  "delivers R keys s entry \<longleftrightarrow>
     (\<exists>name n b na resp s'. xreadgroup R (k_group keys) name [(k_stream keys, ''>'')] n b na s = (Inr resp, s') \<and>
        entry \<in> set (response_entries resp)) \<or>
     (\<exists>name idle start n cur es s'. xautoclaim R (k_stream keys) (k_group keys) name idle start n s =
        (Inr (cur, es), s') \<and> entry \<in> set es)"

definition wire_of :: "wire_fields \<Rightarrow> (string \<times> string) list \<Rightarrow> bool" where
  "wire_of wfs fs = list_all2 (\<lambda>(k, v) (k', v'). carries k k' \<and> carries v v') wfs fs"

subsection \<open>What Redis documents of a group\<close>

locale group_view = redis_client R elog
  for R :: "'r redis" and elog +
  fixes keys :: broker_keys
    and good :: "'r \<Rightarrow> bool"
    and view :: "'r \<Rightarrow> (wire \<times> wire_fields) list option"
  assumes good_step: "good s \<Longrightarrow> broker_step R keys s s' \<Longrightarrow> good s'"
    and create_view: "good s \<Longrightarrow> xgroup_create R (k_stream keys) (k_group keys) ''$'' mk s = (made, s') \<Longrightarrow>
      view s' = view s \<or> view s = None \<and> view s' = Some []"
    and add_view: "good s \<Longrightarrow> xadd R stream fs n ap s = (added, s') \<Longrightarrow>
      view s' = view s \<or>
      stream = k_stream keys \<and> elog s' = elog s @ [Added stream fs] \<and>
        (\<exists>es es'. view s = Some es \<and> view s' = Some es' \<and> (\<forall>e \<in> set es'. e \<in> set es \<or> wire_of (snd e) fs))"
    and ack_view: "good s \<Longrightarrow> xack R (k_stream keys) (k_group keys) i s = (hit, s') \<Longrightarrow> view s' = view s"
    and read_view: "good s \<Longrightarrow>
      xreadgroup R (k_group keys) name [(k_stream keys, ''>'')] c b na s = (resp, s') \<Longrightarrow>
      view s' = view s \<and>
      (\<forall>x. resp = Inr x \<longrightarrow> (\<exists>es. view s = Some es \<and> set (response_entries x) \<subseteq> set es))"
    and claim_view: "good s \<Longrightarrow>
      xautoclaim R (k_stream keys) (k_group keys) name idle start c s = (claimed, s') \<Longrightarrow>
      view s' = view s \<and>
      (\<forall>cur xs. claimed = Inr (cur, xs) \<longrightarrow> (\<exists>es. view s = Some es \<and> set xs \<subseteq> set es))"
    and pending_view: "good s \<Longrightarrow>
      xpending_range R (k_stream keys) (k_group keys) lo hi c s = (ns, s') \<Longrightarrow> view s' = view s"
begin

text \<open>
  Seen from a state in which the entries of \<open>base\<close> are visible, every visible entry is one of them or was added since, and
  a pointer added since is what it carries.
\<close>

definition since :: "redis_event list \<Rightarrow> (wire \<times> wire_fields) set \<Rightarrow> 'r \<Rightarrow> bool" where
  "since evs base s \<longleftrightarrow>
     (\<exists>new. elog s = evs @ new \<and>
        (\<forall>es. view s = Some es \<longrightarrow>
           (\<forall>e \<in> set es. e \<in> base \<or> (\<exists>fs. Added (k_stream keys) fs \<in> set new \<and> wire_of (snd e) fs))))"

lemma since_grow:
  assumes "since evs base s" and "elog s' = elog s @ evs2" and "view s' = view s \<or> view s' = Some []"
  shows "since evs base s'"
  using assms by (fastforce simp: since_def)

lemma since_add:
  assumes "since evs base s" and "elog s' = elog s @ [Added (k_stream keys) fs]"
    and "view s = Some es" and "view s' = Some es'" and "\<forall>e \<in> set es'. e \<in> set es \<or> wire_of (snd e) fs"
  shows "since evs base s'"
  using assms by (fastforce simp: since_def)

lemma log_grows:
  assumes "writes elog evs m"
  shows "\<exists>evs2. elog (snd (m s)) = elog s @ evs2"
proof -
  obtain r t where m: "m s = (r, t)" by (cases "m s")
  with assms have "case r of Inl e \<Rightarrow> redis_raises e \<and> (elog t = elog s \<or> elog t = elog s @ evs)
    | Inr x \<Rightarrow> elog t = elog s @ evs" unfolding writes_def by blast
  with m show ?thesis by (auto split: sum.splits)
qed

lemma since_step:
  assumes "broker_step R keys s s'" and "good s" and "since evs base s"
  shows "since evs base s'"
  using assms(1)
proof cases
  case boot
  have e: "snd (ensure_group R keys s) = snd (xgroup_create R (k_stream keys) (k_group keys) ''$'' True s)"
    by (simp add: ensure_group_def tryE_def ret_def raiseE_def split: prod.splits sum.splits)
  obtain r t where c: "xgroup_create R (k_stream keys) (k_group keys) ''$'' True s = (r, t)" by (cases "xgroup_create R (k_stream keys) (k_group keys) ''$'' True s")
  from log_grows [OF xgroup_create_writes, of "k_stream keys" "k_group keys" "''$''" True s]
    create_view [OF assms(2) c] c e boot assms(3) show ?thesis
    by (auto intro: since_grow)
next
  case (add stream fs n ap)
  obtain r t where c: "xadd R stream fs n ap s = (r, t)" by (cases "xadd R stream fs n ap s")
  from log_grows [OF xadd_writes, of stream fs n ap s] add_view [OF assms(2) c] c add assms(3) show ?thesis
    by (auto intro: since_grow since_add)
next
  case (acknowledge i)
  obtain r t where c: "xack R (k_stream keys) (k_group keys) i s = (r, t)"
    by (cases "xack R (k_stream keys) (k_group keys) i s")
  from log_grows [OF xack_writes, of "k_stream keys" "k_group keys" i s] ack_view [OF assms(2) c] c acknowledge
    assms(3) show ?thesis by (auto intro: since_grow)
next
  case (read name n b na)
  obtain r t where c: "xreadgroup R (k_group keys) name [(k_stream keys, ''>'')] n b na s = (r, t)"
    by (cases "xreadgroup R (k_group keys) name [(k_stream keys, ''>'')] n b na s")
  from log_grows [OF xreadgroup_writes, of "k_group keys" name "[(k_stream keys, ''>'')]" n b na s]
    read_view [OF assms(2) c] c read assms(3) show ?thesis by (auto intro: since_grow)
next
  case (claim name idle start n)
  obtain r t where c: "xautoclaim R (k_stream keys) (k_group keys) name idle start n s = (r, t)"
    by (cases "xautoclaim R (k_stream keys) (k_group keys) name idle start n s")
  from log_grows [OF xautoclaim_writes, of "k_stream keys" "k_group keys" name idle start n s]
    claim_view [OF assms(2) c] c claim assms(3) show ?thesis by (auto intro: since_grow)
next
  case (pending lo hi n)
  obtain r t where c: "xpending_range R (k_stream keys) (k_group keys) lo hi n s = (r, t)"
    by (cases "xpending_range R (k_stream keys) (k_group keys) lo hi n s")
  from log_grows [OF xpending_range_writes, of "k_stream keys" "k_group keys" lo hi n s]
    pending_view [OF assms(2) c] c pending assms(3) show ?thesis by (auto intro: since_grow)
qed

lemma since_steps:
  assumes "(broker_step R keys)\<^sup>*\<^sup>* s s'" and "good s" and "since evs base s"
  shows "good s' \<and> since evs base s'"
  using assms(1) by (induction rule: rtranclp_induct) (auto simp: assms(2,3) intro: good_step since_step)

lemma delivered_since:
  assumes "good s" and "since evs base s" and "delivers R keys s (i, wfs)" and "(i, wfs) \<notin> base"
  obtains fs where "Added (k_stream keys) fs \<in> set (drop (length evs) (elog s))" and "wire_of wfs fs"
proof -
  have "\<exists>es. view s = Some es \<and> (i, wfs) \<in> set es"
    using assms(3) unfolding delivers_def
  proof (elim disjE exE conjE)
    fix name n b na resp s'
    assume "xreadgroup R (k_group keys) name [(k_stream keys, ''>'')] n b na s = (Inr resp, s')"
      and "(i, wfs) \<in> set (response_entries resp)"
    with read_view [OF assms(1) this(1)] show ?thesis by blast
  next
    fix name idle start n cur es s'
    assume "xautoclaim R (k_stream keys) (k_group keys) name idle start n s = (Inr (cur, es), s')"
      and "(i, wfs) \<in> set es"
    with claim_view [OF assms(1) this(1)] show ?thesis by blast
  qed
  with assms(2,4) that show ?thesis by (fastforce simp: since_def)
qed

end

subsection \<open>The in-memory Redis is such a Redis\<close>

text \<open>The oldest binding of a group is the position it was created at; later ones are its reads.\<close>

definition mem_born :: "mem_redis \<Rightarrow> string \<times> string \<Rightarrow> nat option" where
  "mem_born s = map_of (rev (mr_groups s))"

definition mem_ok :: "mem_redis \<Rightarrow> bool" where
  "mem_ok s \<longleftrightarrow>
     distinct (map se_id (mr_entries s)) \<and> (\<forall>e \<in> set (mr_entries s). se_id e \<le> mr_last s) \<and>
     (\<forall>(k, n) \<in> set (mr_groups s). \<exists>b. mem_born s k = Some b \<and> b \<le> n) \<and>
     (\<forall>k b. mem_born s k = Some b \<longrightarrow> b \<le> mr_last s) \<and>
     (\<forall>p \<in> set (mr_pel s). (\<exists>b. mem_born s (pe_stream p, pe_group p) = Some b \<and> b < pe_entry p) \<and> pe_entry p \<le> mr_last s \<and>
        (\<forall>e \<in> set (mr_entries s). se_id e = pe_entry p \<longrightarrow> se_stream e = pe_stream p))"

lemma mem_okI:
  assumes "distinct (map se_id (mr_entries s))" and "\<And>e. e \<in> set (mr_entries s) \<Longrightarrow> se_id e \<le> mr_last s"
    and "\<And>k n. (k, n) \<in> set (mr_groups s) \<Longrightarrow> \<exists>b. mem_born s k = Some b \<and> b \<le> n"
    and "\<And>k b. mem_born s k = Some b \<Longrightarrow> b \<le> mr_last s"
    and "\<And>p. p \<in> set (mr_pel s) \<Longrightarrow> (\<exists>b. mem_born s (pe_stream p, pe_group p) = Some b \<and> b < pe_entry p) \<and> pe_entry p \<le> mr_last s \<and>
        (\<forall>e \<in> set (mr_entries s). se_id e = pe_entry p \<longrightarrow> se_stream e = pe_stream p)"
  shows "mem_ok s"
  unfolding mem_ok_def using assms by blast

lemma mem_okD:
  assumes "mem_ok s"
  shows "distinct (map se_id (mr_entries s))" and "e \<in> set (mr_entries s) \<Longrightarrow> se_id e \<le> mr_last s"
    and "(k, n) \<in> set (mr_groups s) \<Longrightarrow> \<exists>b. mem_born s k = Some b \<and> b \<le> n"
    and "mem_born s k = Some b \<Longrightarrow> b \<le> mr_last s"
    and "p \<in> set (mr_pel s) \<Longrightarrow> (\<exists>b. mem_born s (pe_stream p, pe_group p) = Some b \<and> b < pe_entry p) \<and> pe_entry p \<le> mr_last s \<and>
        (\<forall>e \<in> set (mr_entries s). se_id e = pe_entry p \<longrightarrow> se_stream e = pe_stream p)"
  using assms unfolding mem_ok_def by blast+

definition wire_entry :: "stream_entry \<Rightarrow> wire \<times> wire_fields" where
  "wire_entry e =
     (WBytes (id_text (se_id e)), map (\<lambda>(k, v). (WBytes (utf8_encode k), WBytes (utf8_encode v))) (se_fields e))"

definition mem_view :: "broker_keys \<Rightarrow> mem_redis \<Rightarrow> (wire \<times> wire_fields) list option" where
  "mem_view keys s =
     (case mem_born s (k_stream keys, k_group keys) of
        None \<Rightarrow> None
      | Some b \<Rightarrow> Some (map wire_entry
          (filter (\<lambda>e. se_stream e = k_stream keys \<and> b < se_id e) (mr_entries s))))"

lemma mem_frame [simp]:
  "mem_ok (s\<lparr>mr_faults := fs\<rparr>) = mem_ok s" "mem_ok (s\<lparr>mr_log := evs\<rparr>) = mem_ok s"
  "mem_view keys (s\<lparr>mr_faults := fs\<rparr>) = mem_view keys s" "mem_view keys (s\<lparr>mr_log := evs\<rparr>) = mem_view keys s"
  by (simp_all add: mem_ok_def mem_view_def mem_born_def cong: option.case_cong)

lemma mem_command_split:
  assumes "mem_command evs m s = (r, s')"
  obtains (skipped) e fs where "r = Inl (SdkError e)" "s' = s\<lparr>mr_faults := fs\<rparr>"
  | (ran) fs r0 t where "m (s\<lparr>mr_faults := fs\<rparr>) = (r0, t)" "s' = t\<lparr>mr_log := mr_log s @ evs\<rparr>"
      "r = r0 \<or> (\<exists>e. r = Inl e)"
proof (cases "mr_faults s")
  case Nil
  then have "s\<lparr>mr_faults := []\<rparr> = s" by simp
  with Nil assms ran [of "[]"] show ?thesis by (auto simp: mem_command_def split: prod.splits)
next
  case (Cons f fs)
  obtain r0 t where m: "m (s\<lparr>mr_faults := fs\<rparr>) = (r0, t)" by (cases "m (s\<lparr>mr_faults := fs\<rparr>)")
  with Cons assms skipped ran [OF m] show ?thesis
    by (auto simp: mem_command_def split: option.splits if_splits)
qed

lemma born_Cons: "map_of (rev (((st, g), n) # gs)) = (map_of (rev gs))(
    (st, g) \<mapsto> (case map_of (rev gs) (st, g) of None \<Rightarrow> n | Some b \<Rightarrow> b))"
  by (auto simp: fun_eq_iff map_add_def split: option.splits)

lemma born_bound: "map_of (mr_groups s) k = None \<longleftrightarrow> mem_born s k = None"
  by (auto simp: mem_born_def map_of_eq_None_iff)

lemma filter_unique:
  "distinct (map f xs) \<Longrightarrow> e \<in> set xs \<Longrightarrow> filter (\<lambda>x. f x = f e) xs = [e]"
  by (induction xs) (auto simp: filter_empty_conv image_iff)

lemma entry_with_view:
  assumes "mem_ok s" and "e \<in> set (mr_entries s)"
  shows "entry_with s (se_id e) = [wire_entry e]"
proof -
  from filter_unique [OF mem_okD(1) [OF assms(1)] assms(2)] show ?thesis by (simp add: entry_with_def wire_entry_def)
qed

text \<open>What is read or claimed is visible, provided its ids are those of visible entries.\<close>

lemma entries_visible:
  assumes ok: "mem_ok s" and born: "mem_born s (k_stream keys, k_group keys) = Some b"
    and ids: "\<And>n. n \<in> set ns \<Longrightarrow> b < n \<and> (\<forall>e \<in> set (mr_entries s). se_id e = n \<longrightarrow> se_stream e = k_stream keys)"
    and x: "x \<in> set (concat (map (entry_with s) ns))"
  shows "\<exists>es. mem_view keys s = Some es \<and> x \<in> set es"
proof -
  from x obtain n where n: "n \<in> set ns" "x \<in> set (entry_with s n)" by auto
  from n(2) obtain e where "e \<in> set (mr_entries s)" "se_id e = n" by (auto simp: entry_with_def)
  with ids [OF n(1)] have e: "b < se_id e" "e \<in> set (mr_entries s)" "se_id e = n" "se_stream e = k_stream keys" by auto
  with entry_with_view [OF ok e(2)] n(2) have "x = wire_entry e" by simp
  with e born show ?thesis by (auto simp: mem_view_def)
qed

text \<open>The commands keep the state in order; only a creation and an addition change a view.\<close>

lemma create_ok:
  assumes ok: "mem_ok s" and run: "mem_xgroup_create st g i s = (r, t)"
  shows "mem_ok t"
proof (cases "mem_born s (st, g)")
  case (Some b)
  with run born_bound [of s "(st, g)"] ok show ?thesis by (auto simp: mem_xgroup_create_def split: if_splits)
next
  case None
  define n where "n = (if i = ''$'' then mr_last s else 0)"
  from None run have t: "t = s\<lparr>mr_groups := ((st, g), n) # mr_groups s\<rparr>"
    by (simp add: mem_xgroup_create_def born_bound n_def)
  have born: "mem_born t = (mem_born s)((st, g) \<mapsto> n)"
    using None by (simp add: t mem_born_def born_Cons del: rev.simps)
  have n: "n \<le> mr_last s" by (simp add: n_def)
  have fs: "mr_groups t = ((st, g), n) # mr_groups s" "mr_entries t = mr_entries s" "mr_pel t = mr_pel s" "mr_last t = mr_last s"
    by (simp_all add: t)
  show ?thesis
  proof (rule mem_okI, unfold fs)
    show "distinct (map se_id (mr_entries s))" by (rule mem_okD(1) [OF ok])
    show "se_id e \<le> mr_last s" if "e \<in> set (mr_entries s)" for e by (rule mem_okD(2) [OF ok that])
    show "\<exists>b. mem_born t k = Some b \<and> b \<le> m" if "(k, m) \<in> set (((st, g), n) # mr_groups s)" for k m
      using that mem_okD(3) [OF ok, of k m] None by (auto simp: born split: if_splits)
    show "b \<le> mr_last s" if "mem_born t k = Some b" for k b
      using that mem_okD(4) [OF ok, of k b] n by (auto simp: born split: if_splits)
    show "(\<exists>b. mem_born t (pe_stream p, pe_group p) = Some b \<and> b < pe_entry p) \<and> pe_entry p \<le> mr_last s \<and>
        (\<forall>e \<in> set (mr_entries s). se_id e = pe_entry p \<longrightarrow> se_stream e = pe_stream p)"
      if "p \<in> set (mr_pel s)" for p
      using mem_okD(5) [OF ok that] None by (auto simp: born)
  qed
qed

lemma create_visible:
  assumes ok: "mem_ok s" and run: "mem_xgroup_create (k_stream keys) (k_group keys) ''$'' s = (r, t)"
  shows "mem_view keys t = mem_view keys s \<or> mem_view keys s = None \<and> mem_view keys t = Some []"
proof (cases "mem_born s (k_stream keys, k_group keys)")
  case (Some b)
  with run born_bound [of s "(k_stream keys, k_group keys)"] show ?thesis
    by (auto simp: mem_xgroup_create_def split: if_splits)
next
  case None
  then have t: "t = s\<lparr>mr_groups := ((k_stream keys, k_group keys), mr_last s) # mr_groups s\<rparr>"
    using run by (simp add: mem_xgroup_create_def born_bound)
  have "mem_born t (k_stream keys, k_group keys) = Some (mr_last s)"
    using None by (simp add: t mem_born_def born_Cons del: rev.simps)
  moreover have "filter (\<lambda>e. se_stream e = k_stream keys \<and> mr_last s < se_id e) (mr_entries s) = []"
    by (auto simp: filter_empty_conv not_less dest: mem_okD(2) [OF ok])
  ultimately show ?thesis using None by (simp add: mem_view_def t)
qed

lemma add_state:
  assumes "mem_xadd st fs n s = (r, t)"
  obtains e where "e = \<lparr>se_stream = st, se_id = Suc (mr_last s), se_fields = fs\<rparr>" and "mr_groups t = mr_groups s"
    and "mr_pel t = mr_pel s" and "mr_last t = Suc (mr_last s)" and "mr_entries t = trim_stream st (nat n) (mr_entries s @ [e])"
    and "mem_born t = mem_born s"
  using assms by (auto simp: mem_xadd_def next_id_def mem_born_def)

lemma add_ok:
  assumes ok: "mem_ok s" and run: "mem_xadd st fs n s = (r, t)"
  shows "mem_ok t"
  using run
proof (cases rule: add_state)
  case (1 e)
  note old = mem_okD [OF ok]
  have sub: "f \<in> set (mr_entries s) \<or> f = e" if "f \<in> set (mr_entries t)" for f
    using that trim_stream_subset [of st "nat n" "mr_entries s @ [e]"] 1(5) by auto
  show ?thesis
  proof (rule mem_okI, unfold 1(2,3,4,6))
    have "distinct (map se_id (mr_entries s @ [e]))" using old(1,2) 1(1) by fastforce
    then show "distinct (map se_id (mr_entries t))" unfolding 1(5) by (rule trim_stream_distinct)
    show "f \<in> set (mr_entries t) \<Longrightarrow> se_id f \<le> Suc (mr_last s)" for f using sub old(2) 1(1) by fastforce
    show "(k, m) \<in> set (mr_groups s) \<Longrightarrow> \<exists>b. mem_born s k = Some b \<and> b \<le> m" for k m by (rule old(3))
    show "mem_born s k = Some b \<Longrightarrow> b \<le> Suc (mr_last s)" for k b using old(4) by fastforce
    show "(\<exists>b. mem_born s (pe_stream p, pe_group p) = Some b \<and> b < pe_entry p) \<and> pe_entry p \<le> Suc (mr_last s) \<and>
        (\<forall>f \<in> set (mr_entries t). se_id f = pe_entry p \<longrightarrow> se_stream f = pe_stream p)" if "p \<in> set (mr_pel s)" for p
      using old(5) [OF that] sub 1(1) by fastforce
  qed
qed

lemma add_visible:
  assumes ok: "mem_ok s" and run: "mem_xadd st fs n s = (r, t)"
  shows "mem_view keys t = mem_view keys s \<or>
    st = k_stream keys \<and> (\<exists>es es'. mem_view keys s = Some es \<and> mem_view keys t = Some es' \<and>
      (\<forall>e \<in> set es'. e \<in> set es \<or> wire_of (snd e) fs))"
  using run
proof (cases rule: add_state)
  case (1 e)
  have w: "wire_of (snd (wire_entry e)) fs"
    by (auto simp: 1(1) wire_of_def wire_entry_def carries_def list_all2_map1 intro!: list.rel_refl)
  show ?thesis
  proof (cases "mem_born s (k_stream keys, k_group keys)")
    case None
    then show ?thesis by (simp add: mem_view_def 1(6))
  next
    case (Some b)
    show ?thesis
    proof (cases "st = k_stream keys")
      case True
      have "x \<in> set (mr_entries s) \<or> x = e" if "x \<in> set (mr_entries t)" for x
        using that trim_stream_subset [of st "nat n" "mr_entries s @ [e]"] 1(5) by auto
      with True Some w show ?thesis by (auto simp: mem_view_def 1(6))
    next
      case False
      then show ?thesis using Some trim_stream_other [of "k_stream keys" st] 1(1) by (simp add: mem_view_def 1(5,6))
    qed
  qed
qed

lemma add_trims:
  assumes "mem_xadd (k_stream keys) fs n s = (r, t)" and "mem_view keys t = Some es"
  shows "int (length es) \<le> max 0 n"
  using assms(1)
proof (cases rule: add_state)
  case (1 e)
  let ?all = "filter (\<lambda>e. se_stream e = k_stream keys) (mr_entries t)"
  have "length (filter (\<lambda>e. se_stream e = k_stream keys \<and> b < se_id e) xs) \<le>
      length (filter (\<lambda>e. se_stream e = k_stream keys) xs)" for b xs by (induction xs) auto
  then have "length es \<le> length ?all" using assms(2) by (auto simp: mem_view_def split: option.splits)
  also have "length ?all \<le> nat n" using trim_stream_length [of "k_stream keys" "nat n" "mr_entries s @ [e]"] by (simp add: 1(5))
  finally show ?thesis by simp
qed

lemma ack_ok:
  assumes "mem_ok s" and "mem_xack st g i s = (r, t)"
  shows "mem_ok t \<and> mem_view keys t = mem_view keys s"
  using assms by (auto simp: mem_xack_def Let_def mem_ok_def mem_view_def mem_born_def cong: option.case_cong)

text \<open>A read hands out unread entries of its stream and moves the group forward.\<close>

lemma read_cases:
  assumes ok: "mem_ok s" and run: "mem_xreadgroup g c [(st, x)] n s = (r, t)"
  obtains (missing) "t = s" "r = Inl (SdkError nogroup)"
  | (empty) "t = s" "r = Inr RNone"
  | (some) b ids where "mem_born s (st, g) = Some b" "ids \<noteq> []"
      "\<And>k. k \<in> set ids \<Longrightarrow> b < k \<and> k \<le> mr_last s \<and> (\<forall>e \<in> set (mr_entries s). se_id e = k \<longrightarrow> se_stream e = st)"
      "t = s\<lparr>mr_groups := ((st, g), last ids) # mr_groups s, mr_pel := mr_pel s @
         map (\<lambda>k. \<lparr>pe_stream = st, pe_group = g, pe_entry = k, pe_consumer = c, pe_time = mr_now s, pe_count = 1\<rparr>) ids\<rparr>"
      "r = Inr (RLegacy [(WBytes (utf8_encode st), take (nat n) (concat (map (entry_with s) ids)))])"
proof (cases "map_of (mr_groups s) (st, g)")
  case None
  with run missing show ?thesis by (simp add: mem_xreadgroup_def)
next
  case (Some seen)
  define ids where "ids = take (nat n) (map se_id (filter (\<lambda>e. se_stream e = st \<and> seen < se_id e) (mr_entries s)))"
  from mem_okD(3) [OF ok map_of_SomeD [OF Some]] obtain b where b: "mem_born s (st, g) = Some b" "b \<le> seen"
    by blast
  have in_ids: "b < k \<and> k \<le> mr_last s \<and> (\<forall>e \<in> set (mr_entries s). se_id e = k \<longrightarrow> se_stream e = st)" if "k \<in> set ids" for k
  proof -
    from in_set_takeD [OF that [unfolded ids_def]] obtain e where e: "e \<in> set (mr_entries s)" "se_id e = k" "se_stream e = st" "seen < k"
      by auto
    have "f = e" if "f \<in> set (mr_entries s)" "se_id f = k" for f
      using mem_okD(1) [OF ok] that e(1,2) by (metis distinct_map inj_onD)
    with e b(2) mem_okD(2) [OF ok e(1)] show ?thesis by fastforce
  qed
  show ?thesis
  proof (cases "ids = []")
    case True
    with run Some empty show ?thesis by (simp add: mem_xreadgroup_def Let_def ids_def)
  next
    case False
    with run Some some [OF b(1) False in_ids] show ?thesis by (simp add: mem_xreadgroup_def Let_def ids_def)
  qed
qed

lemma read_ok:
  assumes ok: "mem_ok s" and run: "mem_xreadgroup g c [(st, x)] n s = (r, t)"
  shows "mem_ok t \<and> mem_view keys t = mem_view keys s"
  using ok run
proof (cases rule: read_cases)
  case (some b ids)
  then have fs: "mr_groups t = ((st, g), last ids) # mr_groups s" "mr_entries t = mr_entries s" "mr_last t = mr_last s"
    "mr_pel t = mr_pel s @ map (\<lambda>k. \<lparr>pe_stream = st, pe_group = g, pe_entry = k, pe_consumer = c,
       pe_time = mr_now s, pe_count = 1\<rparr>) ids" by simp_all
  have born: "mem_born t = mem_born s"
    using some(1) by (simp add: mem_born_def fs(1) born_Cons fun_upd_idem del: rev.simps)
  have last: "b < last ids" using some(2,3) last_in_set by blast
  have "mem_ok t"
  proof (rule mem_okI, unfold born fs(2,3))
    show "distinct (map se_id (mr_entries s))" by (rule mem_okD(1) [OF ok])
    show "e \<in> set (mr_entries s) \<Longrightarrow> se_id e \<le> mr_last s" for e by (rule mem_okD(2) [OF ok])
    show "\<exists>b. mem_born s k = Some b \<and> b \<le> m" if "(k, m) \<in> set (mr_groups t)" for k m
      using that mem_okD(3) [OF ok, of k m] some(1) last by (auto simp: fs(1))
    show "mem_born s k = Some b \<Longrightarrow> b \<le> mr_last s" for k b by (rule mem_okD(4) [OF ok])
    show "(\<exists>b. mem_born s (pe_stream p, pe_group p) = Some b \<and> b < pe_entry p) \<and> pe_entry p \<le> mr_last s \<and>
        (\<forall>e \<in> set (mr_entries s). se_id e = pe_entry p \<longrightarrow> se_stream e = pe_stream p)" if "p \<in> set (mr_pel t)" for p
      using that mem_okD(5) [OF ok, of p] some(1,3) by (auto simp: fs(4))
  qed
  then show ?thesis by (simp add: mem_view_def born fs cong: option.case_cong)
qed (use ok in auto)

lemma read_visible:
  assumes ok: "mem_ok s" and run: "mem_xreadgroup (k_group keys) c [(k_stream keys, x)] n s = (Inr resp, t)"
  shows "\<exists>es. mem_view keys s = Some es \<and> set (response_entries resp) \<subseteq> set es"
  using ok run
proof (cases rule: read_cases)
  case empty
  then have "map_of (mr_groups s) (k_stream keys, k_group keys) \<noteq> None"
    using run by (auto simp: mem_xreadgroup_def split: if_splits)
  with empty show ?thesis by (auto simp: mem_view_def born_bound)
next
  case (some b ids)
  obtain es where es: "mem_view keys s = Some es"
    using some(1) by (simp add: mem_view_def)
  have "x \<in> set es" if "x \<in> set (concat (map (entry_with s) ids))" for x
    using entries_visible [OF ok some(1) _ that] some(3) es by auto
  with some(5) es show ?thesis by (auto dest!: in_set_takeD)
qed simp

lemma claim_ok:
  assumes ok: "mem_ok s" and run: "mem_xautoclaim (k_stream keys) (k_group keys) c idle n s = (r, t)"
  shows "mem_ok t \<and> mem_view keys t = mem_view keys s \<and>
    (\<forall>cur xs. r = Inr (cur, xs) \<longrightarrow> (\<exists>es. mem_view keys s = Some es \<and> set xs \<subseteq> set es))"
proof (cases "map_of (mr_groups s) (k_stream keys, k_group keys)")
  case None
  with run ok show ?thesis by (auto simp: mem_xautoclaim_def)
next
  case (Some seen)
  then obtain b where b: "mem_born s (k_stream keys, k_group keys) = Some b"
    using born_bound [of s "(k_stream keys, k_group keys)"] by auto
  define old where "old = (\<lambda>p :: pel_entry. pe_stream p = k_stream keys \<and> pe_group p = k_group keys \<and> idle \<le> mr_now s - pe_time p)"
  define ids where "ids = take (nat n) (map pe_entry (filter old (mr_pel s)))"
  define claim where "claim = (\<lambda>p. if old p \<and> pe_entry p \<in> set ids
    then p\<lparr>pe_consumer := c, pe_time := mr_now s, pe_count := pe_count p + 1\<rparr> else p)"
  have r: "r = Inr (WBytes ''0-0'', take (nat n) (concat (map (entry_with s) ids)))"
    and fs: "mr_groups t = mr_groups s" "mr_entries t = mr_entries s" "mr_last t = mr_last s" "mr_pel t = map claim (mr_pel s)"
    using run Some by (auto simp: mem_xautoclaim_def Let_def ids_def claim_def old_def)
  have born: "mem_born t = mem_born s" by (simp add: mem_born_def fs)
  have in_ids: "b < k \<and> (\<forall>e \<in> set (mr_entries s). se_id e = k \<longrightarrow> se_stream e = k_stream keys)" if "k \<in> set ids" for k
  proof -
    from in_set_takeD [OF that [unfolded ids_def]] obtain p where p: "p \<in> set (mr_pel s)" "old p" "k = pe_entry p"
      by auto
    with mem_okD(5) [OF ok p(1)] b show ?thesis by (auto simp: old_def)
  qed
  have same: "pe_stream (claim p) = pe_stream p" "pe_group (claim p) = pe_group p" "pe_entry (claim p) = pe_entry p" for p
    by (simp_all add: claim_def)
  have "mem_ok t"
  proof (rule mem_okI, unfold born fs(1-3))
    show "distinct (map se_id (mr_entries s))" by (rule mem_okD(1) [OF ok])
    show "e \<in> set (mr_entries s) \<Longrightarrow> se_id e \<le> mr_last s" for e by (rule mem_okD(2) [OF ok])
    show "(k, m) \<in> set (mr_groups s) \<Longrightarrow> \<exists>b. mem_born s k = Some b \<and> b \<le> m" for k m by (rule mem_okD(3) [OF ok])
    show "mem_born s k = Some b \<Longrightarrow> b \<le> mr_last s" for k b by (rule mem_okD(4) [OF ok])
    show "(\<exists>b. mem_born s (pe_stream p, pe_group p) = Some b \<and> b < pe_entry p) \<and> pe_entry p \<le> mr_last s \<and>
        (\<forall>e \<in> set (mr_entries s). se_id e = pe_entry p \<longrightarrow> se_stream e = pe_stream p)" if "p \<in> set (mr_pel t)" for p
    proof -
      from that obtain q where "q \<in> set (mr_pel s)" "p = claim q" by (auto simp: fs(4))
      with mem_okD(5) [OF ok, of q] show ?thesis by (simp add: same)
    qed
  qed
  moreover have "mem_view keys t = mem_view keys s" by (simp add: mem_view_def born fs cong: option.case_cong)
  moreover obtain es where es: "mem_view keys s = Some es" using b by (simp add: mem_view_def)
  moreover have "x \<in> set es" if "x \<in> set (concat (map (entry_with s) ids))" for x
    using entries_visible [OF ok b in_ids that] es by auto
  ultimately show ?thesis using r by (auto dest!: in_set_takeD)
qed

text \<open>The laws of a client of the in-memory Redis, with its faults.\<close>

lemma mem_command_ok:
  assumes ok: "mem_ok s" and run: "mem_command evs m s = (r, s')"
    and step: "\<And>s0 r0 t. mem_ok s0 \<Longrightarrow> m s0 = (r0, t) \<Longrightarrow> mem_ok t"
  shows "mem_ok s'"
  using run
proof (cases rule: mem_command_split)
  case (ran fs r0 t)
  with ok step [of "s\<lparr>mr_faults := fs\<rparr>"] show ?thesis by simp
qed (use ok in simp)

lemma mem_command_view:
  assumes ok: "mem_ok s" and run: "mem_command evs m s = (r, s')"
    and step: "\<And>s0 r0 t. mem_ok s0 \<Longrightarrow> m s0 = (r0, t) \<Longrightarrow> mem_view keys t = mem_view keys s0"
  shows "mem_view keys s' = mem_view keys s"
  using run
proof (cases rule: mem_command_split)
  case (ran fs r0 t)
  with ok step [of "s\<lparr>mr_faults := fs\<rparr>"] show ?thesis by simp
qed simp

lemma mem_command_value:
  assumes ok: "mem_ok s" and run: "mem_command evs m s = (Inr x, s')"
    and step: "\<And>s0 t. mem_ok s0 \<Longrightarrow> m s0 = (Inr x, t) \<Longrightarrow> P (mem_view keys s0)"
  shows "P (mem_view keys s)"
  using run
proof (cases rule: mem_command_split)
  case (ran fs r0 t)
  with ok step [of "s\<lparr>mr_faults := fs\<rparr>" t] show ?thesis by simp
qed simp

lemma pending_same: "mem_xpending_range st g i n s = (r, t) \<Longrightarrow> t = s"
  by (simp add: mem_xpending_range_def)

lemma mem_step_ok:
  assumes "broker_step mem_client keys s s'" and ok: "mem_ok s"
  shows "mem_ok s'"
  using assms(1)
proof cases
  case boot
  have "snd (ensure_group mem_client keys s) =
      snd (mem_command [] (mem_xgroup_create (k_stream keys) (k_group keys) ''$'') s)"
    by (simp add: ensure_group_def tryE_def ret_def raiseE_def mem_client_def split: prod.splits sum.splits)
  with boot show ?thesis
    by (cases "mem_command [] (mem_xgroup_create (k_stream keys) (k_group keys) ''$'') s")
       (auto intro: mem_command_ok [OF ok] create_ok)
next
  case (add stream fs n ap)
  then show ?thesis
    by (cases "mem_command [Added stream fs] (mem_xadd stream fs n) s")
       (auto simp: mem_client_def intro: mem_command_ok [OF ok] add_ok)
next
  case (acknowledge i)
  then show ?thesis
    by (cases "mem_command [Acked (k_stream keys) (k_group keys) i] (mem_xack (k_stream keys) (k_group keys) i) s")
       (auto simp: mem_client_def intro: mem_command_ok [OF ok] dest: ack_ok)
next
  case (read name n b na)
  then show ?thesis
    by (cases "mem_command [] (mem_xreadgroup (k_group keys) name [(k_stream keys, ''>'')] (max 0 n)) s")
       (auto simp: mem_client_def intro: mem_command_ok [OF ok] dest: read_ok)
next
  case (claim name idle start n)
  then show ?thesis
    by (cases "mem_command [] (mem_xautoclaim (k_stream keys) (k_group keys) name idle (max 0 n)) s")
       (auto simp: mem_client_def intro: mem_command_ok [OF ok] dest: claim_ok)
next
  case (pending lo hi n)
  then show ?thesis
    by (cases "mem_command [] (mem_xpending_range (k_stream keys) (k_group keys) lo n) s")
       (auto simp: mem_client_def intro: mem_command_ok [OF ok] dest: pending_same)
qed

interpretation mem_group: group_view mem_client mr_log keys mem_ok "mem_view keys" for keys
proof unfold_locales
  fix s s' assume ok: "mem_ok s"
  show "mem_ok s'" if "broker_step mem_client keys s s'" using mem_step_ok [OF that ok] .
  show "mem_view keys s' = mem_view keys s \<or> mem_view keys s = None \<and> mem_view keys s' = Some []"
    if "xgroup_create mem_client (k_stream keys) (k_group keys) ''$'' mk s = (r, s')" for mk r
  proof -
    from that have "mem_command [] (mem_xgroup_create (k_stream keys) (k_group keys) ''$'') s = (r, s')"
      by (simp add: mem_client_def)
    then show ?thesis
    proof (cases rule: mem_command_split)
      case (ran fs r0 t)
      with create_visible [of "s\<lparr>mr_faults := fs\<rparr>" keys r0 t] ok show ?thesis by simp
    qed simp
  qed
  show "mem_view keys s' = mem_view keys s \<or>
      stream = k_stream keys \<and> mr_log s' = mr_log s @ [Added stream fs] \<and>
        (\<exists>es es'. mem_view keys s = Some es \<and> mem_view keys s' = Some es' \<and> (\<forall>e \<in> set es'. e \<in> set es \<or> wire_of (snd e) fs))"
    if "xadd mem_client stream fs n ap s = (added, s')" for stream fs n ap added
  proof -
    from that have "mem_command [Added stream fs] (mem_xadd stream fs n) s = (added, s')" by (simp add: mem_client_def)
    then show ?thesis
    proof (cases rule: mem_command_split)
      case (ran gs r0 t)
      with add_visible [of "s\<lparr>mr_faults := gs\<rparr>" stream fs n r0 t keys] ok show ?thesis by auto
    qed simp
  qed
  show "mem_view keys s' = mem_view keys s"
    if "xack mem_client (k_stream keys) (k_group keys) i s = (hit, s')" for i hit
    using that mem_command_view [OF ok] ack_ok by (simp add: mem_client_def) blast
  show "mem_view keys s' = mem_view keys s \<and>
      (\<forall>x. resp = Inr x \<longrightarrow> (\<exists>es. mem_view keys s = Some es \<and> set (response_entries x) \<subseteq> set es))"
    if "xreadgroup mem_client (k_group keys) name [(k_stream keys, ''>'')] c b na s = (resp, s')"
    for name c b na resp
  proof -
    from that have run: "mem_command [] (mem_xreadgroup (k_group keys) name [(k_stream keys, ''>'')] (max 0 c)) s = (resp, s')"
      by (simp add: mem_client_def)
    have "mem_view keys s' = mem_view keys s" by (rule mem_command_view [OF ok run]) (use read_ok in blast)
    moreover have "\<exists>es. mem_view keys s = Some es \<and> set (response_entries x) \<subseteq> set es" if "resp = Inr x" for x
      by (rule mem_command_value [OF ok run [unfolded that], where P = "\<lambda>v. \<exists>es. v = Some es \<and> _ es"])
         (rule read_visible)
    ultimately show ?thesis by blast
  qed
  show "mem_view keys s' = mem_view keys s \<and>
      (\<forall>cur xs. claimed = Inr (cur, xs) \<longrightarrow> (\<exists>es. mem_view keys s = Some es \<and> set xs \<subseteq> set es))"
    if "xautoclaim mem_client (k_stream keys) (k_group keys) name idle start c s = (claimed, s')"
    for name idle start c claimed
  proof -
    from that have run: "mem_command [] (mem_xautoclaim (k_stream keys) (k_group keys) name idle (max 0 c)) s = (claimed, s')"
      by (simp add: mem_client_def)
    have "mem_view keys s' = mem_view keys s" by (rule mem_command_view [OF ok run]) (use claim_ok in blast)
    moreover have "\<exists>es. mem_view keys s = Some es \<and> set xs \<subseteq> set es" if "claimed = Inr (cur, xs)" for cur xs
      by (rule mem_command_value [OF ok run [unfolded that], where P = "\<lambda>v. \<exists>es. v = Some es \<and> _ es"])
         (use claim_ok in blast)
    ultimately show ?thesis by blast
  qed
  show "mem_view keys s' = mem_view keys s"
    if "xpending_range mem_client (k_stream keys) (k_group keys) lo hi c s = (ns, s')" for lo hi c ns
    using that mem_command_view [OF ok] pending_same by (simp add: mem_client_def) blast
qed

subsection \<open>Properties\<close>

lemma publish_state:
  "snd (publish p job q) = snd (xadd (p_redis p) (k_stream (p_keys p)) (to_fields (first_delivery job)) (p_maxlen p) True q)"
  by (auto simp: publish_def prod_xadd_def eff_defs split: prod.split sum.split)

text \<open>
  C28. A job published before any worker has started is never delivered.  Let the group not exist yet when the
  pointer of a job is published.  Whatever commands any processes send to Redis from then on, the creation of the
  group by the first worker included, and as long as nobody publishes another pointer of that job: no entry
  that a read or a reclaim hands out is a pointer of the job.
\<close>

theorem job_before_group_never_delivered:
  assumes "group_view R elog keys good view" and "good q" and "view q = None"
    and "publish (producer_init R keys settings) job q = (r, q1)"
    and "(broker_step R keys)\<^sup>*\<^sup>* q1 q2"
    and "\<forall>fs. Added (k_stream keys) fs \<in> set (drop (length (elog q1)) (elog q2)) \<longrightarrow>
      (\<exists>m. fs = to_fields m \<and> m_job_id m \<noteq> j_id job)"
    and "delivers R keys q2 (i, wfs)"
  shows "\<exists>m. from_fields wfs = Inr m \<and> m_job_id m \<noteq> j_id job"
proof -
  let ?p = "producer_init R keys settings"
  obtain w where x: "xadd R (k_stream keys) (to_fields (first_delivery job)) (p_maxlen ?p) True q = (w, q1)"
    using publish_state [of ?p job q] assms(4)
    by (cases "xadd R (k_stream keys) (to_fields (first_delivery job)) (p_maxlen ?p) True q")
       (simp add: producer_init_def)
  then have "broker_step R keys q q1" using broker_step.add [of R keys q] by (metis snd_conv)
  then have good: "good q1" by (rule group_view.good_step [OF assms(1,2)])
  have "view q1 = None" using group_view.add_view [OF assms(1,2) x] assms(3) by auto
  then have "group_view.since elog keys view (elog q1) {} q1" by (simp add: group_view.since_def [OF assms(1)])
  from group_view.since_steps [OF assms(1,5) good this]
  have "good q2" and "group_view.since elog keys view (elog q1) {} q2" by auto
  then obtain fs where "Added (k_stream keys) fs \<in> set (drop (length (elog q1)) (elog q2))" and wfs: "wire_of wfs fs"
    by (rule group_view.delivered_since [OF assms(1) _ _ assms(7)]) simp_all
  with assms(6) obtain m where m: "fs = to_fields m" "m_job_id m \<noteq> j_id job" by blast
  have "from_fields wfs = Inr m"
    by (rule from_fields_carries [where extra = "[]"]) (use wfs m in \<open>simp_all add: wire_of_def\<close>)
  with m show ?thesis by blast
qed

text \<open>A job is accepted, the first worker starts, a second job is accepted: only the second is read.\<close>

theorem job_before_group_never_delivered_witness:
  "let first = job_new RAG_QUERY [] 1 0 0;
       q1 = snd (publish (producer_init mem_client default_keys default_broker) first mem_start);
       q2 = snd (ensure_group mem_client default_keys q1);
       later = \<lparr>m_job_id = 2, m_job_type = EMBED_DOCUMENT, m_attempt = 1\<rparr>;
       q3 = snd (xadd mem_client (k_stream default_keys) (to_fields later) 10000 True q2)
   in (\<exists>e. delivers mem_client default_keys q3 e) \<and>
      (\<forall>i wfs. delivers mem_client default_keys q3 (i, wfs) \<longrightarrow> from_fields wfs \<noteq> Inr (first_delivery first))"
proof -
  define first where "first = job_new RAG_QUERY [] 1 0 0"
  define later where "later = \<lparr>m_job_id = 2, m_job_type = EMBED_DOCUMENT, m_attempt = 1\<rparr>"
  define p where "p = producer_init mem_client default_keys default_broker"
  obtain r q1 where q1: "publish p first mem_start = (r, q1)" by (cases "publish p first mem_start")
  define q2 where "q2 = snd (ensure_group mem_client default_keys q1)"
  define q3 where "q3 = snd (xadd mem_client (k_stream default_keys) (to_fields later) 10000 True q2)"
  have k: "k_stream default_keys = ''aie:jobs''"
    by (simp add: default_keys_def keys_from_settings_def default_broker_def)
  have max: "bs_maxlen default_broker = 10000" by (simp add: default_broker_def)
  have e1: "q1 = mem_start\<lparr>mr_log := [Added ''aie:jobs'' (to_fields (first_delivery first))],
      mr_last := 1, mr_entries := [\<lparr>se_stream = ''aie:jobs'', se_id = 1, se_fields = to_fields (first_delivery first)\<rparr>]\<rparr>"
    using publish_state [of p first mem_start] q1
    by (simp add: p_def producer_init_def mem_client_def mem_command_def mem_xadd_def next_id_def mem_start_def k max)
  have e2: "q2 = q1\<lparr>mr_groups := [((''aie:jobs'', k_group default_keys), 1)]\<rparr>"
    by (simp add: q2_def e1 ensure_group_def mem_client_def mem_command_def mem_xgroup_create_def tryE_def k
        mem_start_def)
  have e3: "q3 = q2\<lparr>mr_log := mr_log q2 @ [Added ''aie:jobs'' (to_fields later)],
      mr_last := 2, mr_entries := mr_entries q2 @ [\<lparr>se_stream = ''aie:jobs'', se_id = 2, se_fields = to_fields later\<rparr>]\<rparr>"
    by (simp add: q3_def e2 e1 mem_client_def mem_command_def mem_xadd_def next_id_def mem_start_def k)
  have "\<exists>resp s'. xreadgroup mem_client (k_group default_keys) [] [(k_stream default_keys, ''>'')] 1 None False q3 =
      (Inr resp, s') \<and> response_entries resp \<noteq> []"
    by (simp add: e3 e2 e1 k mem_start_def mem_client_def mem_command_def mem_xreadgroup_def entry_with_def Let_def)
  then have some: "\<exists>e. delivers mem_client default_keys q3 e"
    unfolding delivers_def by (metis list.set_intros(1) neq_Nil_conv)
  have steps: "(broker_step mem_client default_keys)\<^sup>*\<^sup>* q1 q3"
    using broker_step.boot [of mem_client default_keys q1]
      broker_step.add [of mem_client default_keys q2 "k_stream default_keys" "to_fields later" 10000 True]
    by (auto simp: q2_def q3_def intro: rtranclp.rtrancl_into_rtrancl)
  have new: "drop (length (mr_log q1)) (mr_log q3) = [Added ''aie:jobs'' (to_fields later)]"
    by (simp add: e3 e2 e1)
  have start: "mem_ok mem_start" "mem_view default_keys mem_start = None"
    by (simp_all add: mem_ok_def mem_view_def mem_born_def mem_start_def)
  have ids: "m_job_id later \<noteq> j_id first" by (simp add: later_def first_def job_new_def)
  have "from_fields wfs \<noteq> Inr (first_delivery first)" if "delivers mem_client default_keys q3 (i, wfs)" for i wfs
  proof -
    have "\<exists>m. from_fields wfs = Inr m \<and> m_job_id m \<noteq> j_id first"
      by (rule job_before_group_never_delivered [OF mem_group.group_view_axioms start q1 [unfolded p_def] steps _ that])
         (use new ids k in auto)
    then show ?thesis by (auto simp: first_delivery_def)
  qed
  with some q1 show ?thesis
    by (simp add: Let_def q2_def q3_def flip: first_def later_def p_def)
qed

end
