(* ===== verification/Pipelines.thy ===== *)
theory Pipelines
  imports Chunking Processor
begin

section \<open>The pipelines (\<open>services/pipelines.py\<close>, \<open>ports/providers.py\<close>)\<close>

text \<open>
  The two pipelines over the five ports of \<open>PipelineContext\<close>, which are the fields of the record
  \<open>pipeline_ctx\<close>: functions over the rest of the world \<open>'x\<close>, with vectors of an arbitrary type
  \<open>'v\<close>.  \<open>pc_str\<close> is Python's \<open>str\<close> on the values that the model does not print itself (floats, lists
  and dictionaries in a metadata field).  \<open>json_dumps\<close> is \<open>json.dumps(_, indent=2, sort_keys=True)\<close> on the
  values the pipelines write, which are strings, integers, lists and dictionaries.
\<close>

record search_result =
  sr_title :: string
  sr_url :: string
  sr_snippet :: string

record vector_match =
  vm_id :: string
  vm_score :: pyfloat
  vm_metadata :: pydict

text \<open>The methods of the ports, by their signatures; what they promise is stated by the locales of the components that provide them.\<close>

type_synonym 'x search_port = "string \<Rightarrow> int \<Rightarrow> ('x, search_result list) io"
type_synonym ('x, 'v) embed_port = "string list \<Rightarrow> ('x, 'v list) io"
type_synonym ('x, 'v) upsert_port = "(string \<times> 'v \<times> pydict) list \<Rightarrow> string \<Rightarrow> ('x, unit) io"
type_synonym ('x, 'v) query_port = "'v \<Rightarrow> int \<Rightarrow> string \<Rightarrow> ('x, vector_match list) io"
type_synonym 'x complete_port = "string \<Rightarrow> int \<Rightarrow> ('x, string) io"
type_synonym 'x put_bytes_port = "string \<Rightarrow> string \<Rightarrow> string \<Rightarrow> ('x, string) io"

record ('x, 'v) pipeline_ctx =
  pc_search :: "'x search_port"
  pc_embed :: "('x, 'v) embed_port"
  pc_upsert :: "('x, 'v) upsert_port"
  pc_query :: "('x, 'v) query_port"
  pc_complete :: "'x complete_port"
  pc_put_bytes :: "'x put_bytes_port"
  pc_str :: "pyval \<Rightarrow> string"

type_synonym ('x, 'v) pipeline_run = "('x, 'v) pipeline_ctx \<Rightarrow> inference_job \<Rightarrow> ('x, string) io"

subsection \<open>JSON\<close>

datatype json = JStr string | JInt int | JList "json list" | JDict "(string \<times> json) list"

definition json_char :: "char \<Rightarrow> string" where
  "json_char c =
     (let n = char_code c in
      if n = 34 \<or> n = 92 then [CHR 0x5C, c]
      else if n = 10 then [CHR 0x5C, CHR ''n'']
      else if n = 13 then [CHR 0x5C, CHR ''r'']
      else if n = 9 then [CHR 0x5C, CHR ''t'']
      else if n = 8 then [CHR 0x5C, CHR ''b'']
      else if n = 12 then [CHR 0x5C, CHR ''f'']
      else if n < 32 \<or> 126 < n then [CHR 0x5C, CHR ''u''] @ hex_pad 4 n
      else [c])"

definition json_str :: "string \<Rightarrow> string" where
  "json_str s = [CHR 0x22] @ concat (map json_char s) @ [CHR 0x22]"

fun str_less :: "string \<Rightarrow> string \<Rightarrow> bool" where
  "str_less [] t = (t \<noteq> [])"
| "str_less (a # s) [] = False"
| "str_less (a # s) (b # t) = (char_code a < char_code b \<or> a = b \<and> str_less s t)"

fun insert_item :: "string \<times> 'a \<Rightarrow> (string \<times> 'a) list \<Rightarrow> (string \<times> 'a) list" where
  "insert_item p [] = [p]"
| "insert_item p (q # qs) = (if str_less (fst q) (fst p) then q # insert_item p qs else p # q # qs)"

definition sort_items :: "(string \<times> 'a) list \<Rightarrow> (string \<times> 'a) list" where
  "sort_items kvs = foldr insert_item kvs []"

definition sort_texts :: "(string \<times> string) list \<Rightarrow> string list" where
  "sort_texts kvs = map snd (sort_items kvs)"

definition json_newline :: "nat \<Rightarrow> string" where
  "json_newline level = CHR 0x0A # replicate (2 * level) (CHR '' '')"

fun json_dump :: "nat \<Rightarrow> json \<Rightarrow> string" where
  "json_dump level (JStr s) = json_str s"
| "json_dump level (JInt n) = py_str_int n"
| "json_dump level (JList xs) =
     (if xs = [] then ''[]''
      else ''['' @ json_newline (level + 1) @
           py_join ('','' @ json_newline (level + 1)) (map (json_dump (level + 1)) xs) @
           json_newline level @ '']'')"
| "json_dump level (JDict kvs) =
     (if kvs = [] then ''{}''
      else ''{'' @ json_newline (level + 1) @
           py_join ('','' @ json_newline (level + 1))
             (sort_texts (map (\<lambda>(k, v). (k, json_str k @ '': '' @ json_dump (level + 1) v)) kvs)) @
           json_newline level @ ''}'')"

definition json_dumps :: "json \<Rightarrow> string" where
  "json_dumps j = json_dump 0 j"

subsection \<open>Helpers\<close>

definition result_key :: "inference_job \<Rightarrow> string \<Rightarrow> string" where
  "result_key job suffix = ''results/'' @ type_value (j_type job) @ ''/'' @ uuid_str (j_id job) @ suffix"

text \<open>\<open>payload.get(key)\<close> is \<open>None\<close>, the Python value, when the key is missing.\<close>

definition payload_get :: "pydict \<Rightarrow> string \<Rightarrow> pyval \<Rightarrow> pyval" where
  "payload_get payload key dflt = (case map_of payload key of None \<Rightarrow> dflt | Some v \<Rightarrow> v)"

definition require_str :: "pydict \<Rightarrow> string \<Rightarrow> exn + string" where
  "require_str payload key =
     (case payload_get payload key PNone of
        PStr s \<Rightarrow> Inr s
      | v \<Rightarrow> Inl (PermanentUpstreamError (''payload field '' @ py_repr_str key @
               '' must be a string, got '' @ type_name v) None))"

definition optional_int :: "pydict \<Rightarrow> string \<Rightarrow> int \<Rightarrow> exn + int" where
  "optional_int payload key dflt =
     (case payload_get payload key (PInt dflt) of
        PBool b \<Rightarrow> Inl (PermanentUpstreamError (''payload field '' @ py_repr_str key @
                     '' must be an int, got bool'') None)
      | PInt n \<Rightarrow> Inr n
      | PFloat (FFin q) \<Rightarrow>
          if float_is_integer (FFin q) then Inr \<lfloor>q\<rfloor>
          else Inl (PermanentUpstreamError (''payload field '' @ py_repr_str key @
                 '' must be an int, got float'') None)
      | v \<Rightarrow> Inl (PermanentUpstreamError (''payload field '' @ py_repr_str key @
               '' must be an int, got '' @ type_name v) None))"

definition rag_prompt :: "string \<Rightarrow> string list \<Rightarrow> string" where
  "rag_prompt query ctxt =
     (if ctxt = [] then query
      else ''Context:'' @ [CHR 0x0A] @ py_join [CHR 0x0A, CHR 0x0A] ctxt @ [CHR 0x0A, CHR 0x0A] @
           ''Question: '' @ query @ [CHR 0x0A, CHR 0x0A] @ ''Answer:'')"

text \<open>\<open>zip(xs, ys, strict=True)\<close> and the unpacking \<open>(x,) = xs\<close>.\<close>

definition zip_strict :: "'a list \<Rightarrow> 'b list \<Rightarrow> exn + ('a \<times> 'b) list" where
  "zip_strict xs ys =
     (if length xs = length ys then Inr (zip xs ys)
      else Inl (ValueError (''zip() argument 2 is '' @
             (if length ys < length xs then ''shorter'' else ''longer'') @ '' than argument 1'')))"

fun unpack_one :: "'a list \<Rightarrow> exn + 'a" where
  "unpack_one [] = Inl (ValueError ''not enough values to unpack (expected 1, got 0)'')"
| "unpack_one [x] = Inr x"
| "unpack_one (x # y # xs) = Inl (ValueError ''too many values to unpack (expected 1)'')"

text \<open>\<open>str(v)\<close>.\<close>

definition value_str :: "('x, 'v) pipeline_ctx \<Rightarrow> pyval \<Rightarrow> string" where
  "value_str ctx v =
     (case v of
        PStr s \<Rightarrow> s
      | PInt n \<Rightarrow> py_str_int n
      | PBool b \<Rightarrow> if b then ''True'' else ''False''
      | PNone \<Rightarrow> ''None''
      | _ \<Rightarrow> pc_str ctx v)"

subsection \<open>\<open>RagQueryPipeline\<close>\<close>

definition rag_records :: "('v \<times> string) list \<Rightarrow> (string \<times> 'v \<times> pydict) list" where
  "rag_records vts =
     map (\<lambda>(i, vec, txt). (''snip:'' @ py_str_int (int i), vec, [(''text'', PStr txt)]))
       (zip [0..<length vts] vts)"

definition context_texts :: "('x, 'v) pipeline_ctx \<Rightarrow> vector_match list \<Rightarrow> string list" where
  "context_texts ctx matches =
     concat (map (\<lambda>m. case map_of (vm_metadata m) ''text'' of None \<Rightarrow> [] | Some v \<Rightarrow> [value_str ctx v]) matches)"

definition rag_result :: "inference_job \<Rightarrow> string \<Rightarrow> string \<Rightarrow> string list \<Rightarrow> vector_match list \<Rightarrow> json" where
  "rag_result job query answer ctxt matches =
     JDict [(''job_id'', JStr (uuid_str (j_id job))), (''query'', JStr query), (''answer'', JStr answer),
            (''context'', JList (map JStr ctxt)), (''retrieved_ids'', JList (map (\<lambda>m. JStr (vm_id m)) matches))]"

definition rag_run :: "('x, 'v) pipeline_run" where
  "rag_run ctx job =
     bindE (liftE (require_str (j_payload job) ''query'')) (\<lambda>query.
     bindE (liftE (optional_int (j_payload job) ''top_k'' 3)) (\<lambda>top_k.
     bindE (pc_search ctx query (top_k * 2)) (\<lambda>snippets.
     let snippet_texts = map sr_snippet snippets in
     bindE (if snippet_texts \<noteq> [] then pc_embed ctx snippet_texts else ret []) (\<lambda>snippet_vectors.
     let namespace = ''job:'' @ uuid_str (j_id job) in
     bindE (liftE (zip_strict snippet_vectors snippet_texts)) (\<lambda>vts.
     let records = rag_records vts in
     bindE (if records \<noteq> [] then pc_upsert ctx records namespace else ret ()) (\<lambda>u.
     bindE (pc_embed ctx [query]) (\<lambda>query_vectors.
     bindE (liftE (unpack_one query_vectors)) (\<lambda>query_vector.
     bindE (if records \<noteq> [] then pc_query ctx query_vector top_k namespace else ret []) (\<lambda>matches.
     let ctxt = context_texts ctx matches in
     bindE (pc_complete ctx (rag_prompt query ctxt) 512) (\<lambda>answer.
     pc_put_bytes ctx (result_key job ''.json'')
       (utf8_encode (json_dumps (rag_result job query answer ctxt matches))) ''application/json''))))))))))"

subsection \<open>\<open>EmbedDocumentPipeline\<close>\<close>

definition chunk_records :: "string \<Rightarrow> (chunk \<times> 'v) list \<Rightarrow> (string \<times> 'v \<times> pydict) list" where
  "chunk_records doc_id cvs =
     map (\<lambda>(c, vec). (doc_id @ '':chunk:'' @ py_str_int (c_index c), vec,
            [(''chunk_index'', PInt (c_index c)), (''start'', PInt (c_start c)), (''end'', PInt (c_end c))])) cvs"

definition manifest :: "inference_job \<Rightarrow> string \<Rightarrow> chunk list \<Rightarrow> json" where
  "manifest job doc_id chunks =
     JDict [(''job_id'', JStr (uuid_str (j_id job))), (''document_id'', JStr doc_id),
            (''chunk_count'', JInt (int (length chunks))), (''namespace'', JStr (''doc:'' @ doc_id)),
            (''chunks'', JList (map (\<lambda>c. JDict [(''index'', JInt (c_index c)), (''start'', JInt (c_start c)),
                                                 (''end'', JInt (c_end c))]) chunks))]"

definition embed_run :: "('x, 'v) pipeline_run" where
  "embed_run ctx job =
     bindE (liftE (require_str (j_payload job) ''text'')) (\<lambda>document.
     let doc_id = value_str ctx (payload_get (j_payload job) ''document_id'' (PStr (uuid_str (j_id job)))) in
     bindE (liftE (optional_int (j_payload job) ''chunk_size'' 512)) (\<lambda>sz.
     bindE (liftE (optional_int (j_payload job) ''chunk_overlap'' 64)) (\<lambda>overlap.
     bindE (liftE (chunk_text document sz overlap)) (\<lambda>chunks.
     bindE (if chunks \<noteq> [] then pc_embed ctx (map c_text chunks) else ret []) (\<lambda>vectors.
     bindE (liftE (zip_strict chunks vectors)) (\<lambda>cvs.
     let records = chunk_records doc_id cvs in
     bindE (if records \<noteq> [] then pc_upsert ctx records (''doc:'' @ doc_id) else ret ()) (\<lambda>u.
     pc_put_bytes ctx (result_key job ''-manifest.json'')
       (utf8_encode (json_dumps (manifest job doc_id chunks))) ''application/json'')))))))"

text \<open>The registry \<open>PIPELINES\<close>.\<close>

fun pipeline_for :: "('x, 'v) pipeline_ctx \<Rightarrow> job_type \<Rightarrow> inference_job \<Rightarrow> ('x, string) io" where
  "pipeline_for ctx RAG_QUERY job = rag_run ctx job"
| "pipeline_for ctx EMBED_DOCUMENT job = embed_run ctx job"

definition pipeline_externals ::
  "('x \<Rightarrow> int \<times> 'x) \<Rightarrow> ('x \<Rightarrow> rat \<times> 'x) \<Rightarrow> ('x, 'v) pipeline_ctx \<Rightarrow> 'x externals" where
  "pipeline_externals now mon ctx = \<lparr>utcnow = now, monotonic = mon, PIPELINES = pipeline_for ctx\<rparr>"

subsection \<open>Lemmas\<close>

text \<open>What a pipeline accepts as its payload.\<close>

definition int_field :: "pydict \<Rightarrow> string \<Rightarrow> bool" where
  "int_field payload key =
     (case map_of payload key of
        None \<Rightarrow> True
      | Some (PInt n) \<Rightarrow> True
      | Some (PFloat f) \<Rightarrow> float_is_integer f
      | _ \<Rightarrow> False)"

definition str_field :: "pydict \<Rightarrow> string \<Rightarrow> bool" where
  "str_field payload key = (case map_of payload key of Some (PStr s) \<Rightarrow> True | _ \<Rightarrow> False)"

fun payload_ok :: "job_type \<Rightarrow> pydict \<Rightarrow> bool" where
  "payload_ok RAG_QUERY p \<longleftrightarrow> str_field p ''query'' \<and> int_field p ''top_k''"
| "payload_ok EMBED_DOCUMENT p \<longleftrightarrow>
     str_field p ''text'' \<and> int_field p ''chunk_size'' \<and> int_field p ''chunk_overlap''"

lemma require_str_cases:
  "(\<exists>s. require_str p k = Inr s) \<and> str_field p k \<or>
   (\<exists>m. require_str p k = Inl (PermanentUpstreamError m None)) \<and> \<not> str_field p k"
  by (simp add: require_str_def str_field_def payload_get_def split: option.split pyval.split)

lemma optional_int_cases:
  "(\<exists>n. optional_int p k d = Inr n) \<and> int_field p k \<or>
   (\<exists>m. optional_int p k d = Inl (PermanentUpstreamError m None)) \<and> \<not> int_field p k"
  by (auto simp: optional_int_def int_field_def payload_get_def split: option.split pyval.split pyfloat.split)

lemma zip_strict_Inr: "zip_strict xs ys = Inr zs \<longleftrightarrow> length xs = length ys \<and> zs = zip xs ys"
  by (auto simp: zip_strict_def)

text \<open>Taking a run that returned apart, step by step.\<close>

lemma bind_lift_InrE:
  assumes "bindE (liftE r) f s = (Inr x, s')" obtains a where "r = Inr a"
  using assms by (cases r) (auto simp: bindE_def liftE_def)

lemma bind_lift_Inr: "bindE (liftE r) f s = (Inr x, s') \<Longrightarrow> r = Inr a \<Longrightarrow> f a s = (Inr x, s')"
  by (simp add: bindE_def liftE_def)

lemma bind_InrE:
  assumes "bindE m f s = (Inr x, s')" obtains a t where "m s = (Inr a, t)" "f a t = (Inr x, s')"
  using assms by (auto simp: bindE_def split: prod.splits sum.splits)

lemma bind_unit_InrE:
  assumes "bindE m f s = (Inr x, s')" obtains t where "m s = (Inr (), t)" "f () t = (Inr x, s')"
  using assms by (auto simp: bindE_def split: prod.splits sum.splits)

text \<open>Numbers print differently, and a chunk's index is its position.\<close>

lemma py_str_int_inj: "py_str_int a = py_str_int b \<Longrightarrow> a = b"
  by (metis option.inject py_int_str_int)

lemma chunk_text_indices: "chunk_text doc sz ov = Inr chunks \<Longrightarrow> map c_index chunks = map int [0..<length chunks]"
  using chunk_loop_indices [of "sz - ov" sz 0 "py_strip doc" 0] by (auto simp: chunk_text_Inr split: if_splits)

lemma chunk_records_Nil: "chunk_records d cvs = [] \<longleftrightarrow> cvs = []"
  by (simp add: chunk_records_def)

lemma chunk_record_ids_distinct:
  assumes "chunk_text doc sz ov = Inr chunks" "length vs = length chunks"
  shows "distinct (map fst (chunk_records doc_id (zip chunks vs)))"
proof -
  have "distinct (map c_index chunks)" by (simp add: chunk_text_indices [OF assms(1)] distinct_map)
  moreover have "map fst (chunk_records doc_id (zip chunks vs)) =
      map (\<lambda>n. doc_id @ '':chunk:'' @ py_str_int n) (map c_index chunks)"
    using assms(2) by (intro nth_equalityI) (simp_all add: chunk_records_def split_beta)
  moreover have "inj_on (\<lambda>n. doc_id @ '':chunk:'' @ py_str_int n) A" for A
    by (rule inj_onI) (simp add: py_str_int_inj)
  ultimately show ?thesis by (simp only: distinct_map)
qed

subsection \<open>Properties\<close>

text \<open>
  A malformed payload is a permanent failure with no side effect: when a required field is missing or
  not a string, or a number is not an integer (a boolean is not one), the pipeline raises
  \<open>PermanentUpstreamError\<close> before it has called any port.
\<close>

theorem malformed_payload_is_permanent:
  assumes "\<not> payload_ok ty (j_payload job)"
  shows "\<exists>m. pipeline_for ctx ty job x = (Inl (PermanentUpstreamError m None), x)"
proof (cases ty)
  case RAG_QUERY
  with assms require_str_cases [of "j_payload job" "''query''"] optional_int_cases [of "j_payload job" "''top_k''" 3]
  show ?thesis by (auto simp: rag_run_def bindE_def liftE_def)
next
  case EMBED_DOCUMENT
  with assms require_str_cases [of "j_payload job" "''text''"]
    optional_int_cases [of "j_payload job" "''chunk_size''" 512]
    optional_int_cases [of "j_payload job" "''chunk_overlap''" 64]
  show ?thesis by (auto simp: embed_run_def bindE_def liftE_def Let_def)
qed

text \<open>Ports that only count their calls.\<close>

definition counting_ctx :: "(nat, unit) pipeline_ctx" where
  "counting_ctx =
     \<lparr>pc_search = (\<lambda>q n x. (Inr [], x + 1)), pc_embed = (\<lambda>ts x. (Inr (map (\<lambda>t. ()) ts), x + 1)),
      pc_upsert = (\<lambda>rs ns x. (Inr (), x + 1)), pc_query = (\<lambda>v k ns x. (Inr [], x + 1)),
      pc_complete = (\<lambda>p n x. (Inr ''answer'', x + 1)), pc_put_bytes = (\<lambda>k d t x. (Inr (''s3://b/'' @ k), x + 1)),
      pc_str = (\<lambda>v. [])\<rparr>"

theorem malformed_payload_is_permanent_witness:
  "\<exists>m. pipeline_for counting_ctx RAG_QUERY (job_new RAG_QUERY [(''query'', PStr ''q''), (''top_k'', PBool True)] 1 0 0) 0 =
     (Inl (PermanentUpstreamError m None), 0)"
  by (rule malformed_payload_is_permanent) (simp add: job_new_def str_field_def int_field_def)



end
