(* ===== verification/Api.thy ===== *)
theory Api
  imports Ingestion Pipelines
begin

section \<open>The ingestion API (\<open>api/auth.py\<close>, \<open>api/schemas.py\<close>, \<open>api/routes\<close>, \<open>api/app.py\<close>)\<close>

text \<open>
  Authentication, the two job routes with the exception handlers that \<open>create_app\<close> registers, the readiness
  probe, and the request payloads.  FastAPI, Starlette and pydantic are not modelled: a request body is a
  payload that validation accepted (\<open>valid_payload\<close> is what the \<open>Field\<close> constraints accept), a
  response is its status code with its body, and an exception without a registered handler leaves the
  route (the framework turns it into a 500).
\<close>

record response =
  rsp_status :: int
  rsp_body :: pydict

datatype job_payload =
    RagQueryPayload string int
  | EmbedDocumentPayload string string

subsection \<open>Authentication\<close>

definition is_known_key :: "string \<Rightarrow> string list \<Rightarrow> bool" where
  "is_known_key presented configured =
     (let presented_b = utf8_encode presented
      in fold (\<lambda>candidate ok. ok \<or> presented_b = utf8_encode candidate) configured False)"

definition UNAUTHORIZED :: response where
  "UNAUTHORIZED = \<lparr>rsp_status = 401, rsp_body = [(''detail'', PStr ''Invalid or missing API key.'')]\<rparr>"

definition require_api_key :: "settings \<Rightarrow> string option \<Rightarrow> response + string" where
  "require_api_key s presented =
     (if st_api_keys s = [] then Inl UNAUTHORIZED
      else case presented of
        None \<Rightarrow> Inl UNAUTHORIZED
      | Some p \<Rightarrow> if \<not> is_known_key p (st_api_keys s) then Inl UNAUTHORIZED else Inr p)"

subsection \<open>Payloads\<close>

fun payload_type :: "job_payload \<Rightarrow> job_type" where
  "payload_type (RagQueryPayload query top_k) = RAG_QUERY"
| "payload_type (EmbedDocumentPayload document_id txt) = EMBED_DOCUMENT"

fun valid_payload :: "job_payload \<Rightarrow> bool" where
  "valid_payload (RagQueryPayload query top_k) \<longleftrightarrow>
     1 \<le> length query \<and> length query \<le> 4000 \<and> 1 \<le> top_k \<and> top_k \<le> 50"
| "valid_payload (EmbedDocumentPayload document_id txt) \<longleftrightarrow>
     1 \<le> length document_id \<and> length document_id \<le> 256 \<and> 1 \<le> length txt \<and> length txt \<le> 200000"

text \<open>\<open>payload.model_dump(mode="json")\<close>, in the order of the fields.\<close>

fun model_dump :: "job_payload \<Rightarrow> pydict" where
  "model_dump (RagQueryPayload query top_k) =
     [(''job_type'', PStr (type_value RAG_QUERY)), (''query'', PStr query), (''top_k'', PInt top_k)]"
| "model_dump (EmbedDocumentPayload document_id txt) =
     [(''job_type'', PStr (type_value EMBED_DOCUMENT)), (''document_id'', PStr document_id),
      (''text'', PStr txt)]"

subsection \<open>Responses and exception handlers\<close>

definition job_accepted :: "uuid \<Rightarrow> response" where
  "job_accepted i =
     \<lparr>rsp_status = 202,
      rsp_body = [(''job_id'', PStr (uuid_str i)), (''status'', PStr (status_value PENDING)),
                  (''status_url'', PStr (''/v1/jobs/'' @ uuid_str i))]\<rparr>"

definition opt_str :: "string option \<Rightarrow> pyval" where
  "opt_str v = (case v of None \<Rightarrow> PNone | Some s \<Rightarrow> PStr s)"

text \<open>The timestamps are given as the numbers of the model's clock.\<close>

definition job_status_response :: "inference_job \<Rightarrow> response" where
  "job_status_response j =
     \<lparr>rsp_status = 200,
      rsp_body = [(''job_id'', PStr (uuid_str (j_id j))), (''job_type'', PStr (type_value (j_type j))),
                  (''status'', PStr (status_value (j_status j))), (''attempts'', PInt (j_attempts j)),
                  (''result_ref'', opt_str (j_result_ref j)), (''error'', opt_str (j_error j)),
                  (''created_at'', PInt (j_created_at j)), (''updated_at'', PInt (j_updated_at j)),
                  (''duration_ms'', case j_duration_ms j of None \<Rightarrow> PNone | Some n \<Rightarrow> PInt n)]\<rparr>"

definition error_response :: "int \<Rightarrow> string \<Rightarrow> response" where
  "error_response code detail = \<lparr>rsp_status = code, rsp_body = [(''detail'', PStr detail)]\<rparr>"

fun exception_handler :: "exn \<Rightarrow> response option" where
  "exception_handler (JobNotFound i) = Some (error_response 404 (exn_str (JobNotFound i)))"
| "exception_handler (InvalidTransition a b) = Some (error_response 409 (exn_str (InvalidTransition a b)))"
| "exception_handler (PermanentUpstreamError m cause) = Some (error_response 502 ''Upstream dependency failed.'')"
| "exception_handler _ = None"

definition handled_by :: "(exn \<Rightarrow> response option) \<Rightarrow> ('s, response) io \<Rightarrow> ('s, response) io" where
  "handled_by h m = tryE m (\<lambda>exc. case h exc of Some r \<Rightarrow> ret r | None \<Rightarrow> raiseE exc)"

subsection \<open>Routes\<close>

definition submit_job ::
  "settings \<Rightarrow> string option \<Rightarrow> job_payload \<Rightarrow> 'd repository \<Rightarrow> 'q publish_port \<Rightarrow>
   ('d \<times> 'q, unit) runner \<Rightarrow> uuid \<Rightarrow> int \<Rightarrow> int \<Rightarrow> ('d \<times> 'q, response) io" where
  "submit_job s presented payload repo pub run fresh created updated =
     (case require_api_key s presented of
        Inl unauthorized \<Rightarrow> ret unauthorized
      | Inr key \<Rightarrow>
          handled_by exception_handler
            (bindE (submit repo pub run (st_retry s) (payload_type payload) (model_dump payload)
                      fresh created updated)
               (\<lambda>job_id. ret (job_accepted job_id))))"

definition get_job ::
  "settings \<Rightarrow> string option \<Rightarrow> 'd repository \<Rightarrow> uuid \<Rightarrow> ('d, response) io" where
  "get_job s presented repo job_id =
     (case require_api_key s presented of
        Inl unauthorized \<Rightarrow> ret unauthorized
      | Inr key \<Rightarrow>
          handled_by exception_handler (bindE (rp_get repo job_id) (\<lambda>job. ret (job_status_response job))))"

text \<open>The body of a 422, for the errors that validation reports, and liveness, which checks nothing.\<close>

definition on_validation_error :: "pyval list \<Rightarrow> response" where
  "on_validation_error errors =
     \<lparr>rsp_status = 422, rsp_body = [(''detail'', PStr ''Request validation failed.''), (''errors'', PList errors)]\<rparr>"

record health_status =
  hs_status :: string

definition HealthStatus :: health_status where
  "HealthStatus = \<lparr>hs_status = ''ok''\<rparr>"

definition health :: response where
  "health = \<lparr>rsp_status = 200, rsp_body = [(''status'', PStr (hs_status HealthStatus))]\<rparr>"

text \<open>
  \<open>readiness\<close>: each probe is caught on its own; the result of \<open>bucket_exists\<close> is not looked at.
\<close>

record probe_result =
  pr_name :: string
  pr_ok :: bool
  pr_detail :: "string option"

record readiness_status =
  rs_status :: string
  rs_checks :: "probe_result list"

definition probe :: "string \<Rightarrow> ('s, 'a) io \<Rightarrow> ('s, probe_result) io" where
  "probe name m =
     tryElse m (\<lambda>exc. ret \<lparr>pr_name = name, pr_ok = False, pr_detail = Some (class_name exc)\<rparr>)
       (\<lambda>x. ret \<lparr>pr_name = name, pr_ok = True, pr_detail = None\<rparr>)"

definition readiness ::
  "('s, unit) io \<Rightarrow> ('s, unit) io \<Rightarrow> ('s, bool) io \<Rightarrow> ('s, int \<times> readiness_status) io" where
  "readiness select_1 ping bucket =
     bindE (probe ''postgres'' select_1) (\<lambda>p.
     bindE (probe ''redis'' ping) (\<lambda>r.
     bindE (probe ''object_store'' bucket) (\<lambda>b.
     let checks = [p, r, b]; all_ok = list_all pr_ok checks
     in ret (if all_ok then 200 else 503,
             \<lparr>rs_status = if all_ok then ''ready'' else ''not_ready'', rs_checks = checks\<rparr>))))"

subsection \<open>Lemmas\<close>

lemma is_known_key_iff: "is_known_key p ks \<longleftrightarrow> p \<in> set ks"
proof -
  have "fold (\<lambda>c ok. ok \<or> utf8_encode p = utf8_encode c) ks b \<longleftrightarrow> b \<or> p \<in> set ks" for b
    by (induction ks arbitrary: b) (auto simp: utf8_encode_inj)
  then show ?thesis by (simp add: is_known_key_def)
qed

lemma require_api_key_iff:
  "require_api_key s presented = (case presented of
     Some p \<Rightarrow> if p \<in> set (st_api_keys s) then Inr p else Inl UNAUTHORIZED | None \<Rightarrow> Inl UNAUTHORIZED)"
  by (auto simp: require_api_key_def is_known_key_iff split: option.split)

lemma wp_handled_by:
  "wpE (handled_by h m) Q E s =
     wpE m Q (\<lambda>e s'. case h e of Some r \<Rightarrow> Q r s' | None \<Rightarrow> E e s') s"
  by (auto simp: handled_by_def wp wpE_def ret_def raiseE_def split: prod.splits sum.splits option.splits)

text \<open>What a submission with a configured key can answer.\<close>

lemma submit_job_with_key:
  assumes "redis_client R elog" and "sqlalchemy_session sess rows" and "tenacity_laws run" and "retry_settings_ok (st_retry s)"
    and "presented = Some k" and "k \<in> set (st_api_keys s)"
    and "submit_job s presented payload (sql_repository sess) (publish (producer_init R keys bs)) run
      fresh created updated w = (Inr rsp, w')"
    and "job = job_new (payload_type payload) (model_dump payload) fresh created updated"
  shows "rsp_status rsp \<noteq> 401 \<and> (rsp_status rsp = 202 \<longrightarrow>
    rsp = job_accepted fresh \<and> stored rows (fst w') = (stored rows (fst w))(fresh \<mapsto> job) \<and>
    (\<exists>n\<ge>1. sent_to (k_stream keys) (elog (snd w')) =
      sent_to (k_stream keys) (elog (snd w)) @ replicate n (to_fields (first_delivery job))))"
proof -
  let ?submit = "submit (sql_repository sess) (publish (producer_init R keys bs)) run (st_retry s) (payload_type payload)
    (model_dump payload) fresh created updated"
  have run: "handled_by exception_handler (bindE ?submit (\<lambda>i. ret (job_accepted i))) w = (Inr rsp, w')"
    using assms(5-7) by (simp add: submit_job_def require_api_key_iff)
  have ing: "ingestion (sql_repository sess) (stored rows) (publish (producer_init R keys bs))
      (\<lambda>q. sent_to (k_stream keys) (elog q)) run"
    by (intro ingestion.intro ingestion_axioms.intro sql_job_repository redis_client.publish_queue assms)
  have "wpE (handled_by exception_handler (bindE ?submit (\<lambda>i. ret (job_accepted i))))
    (\<lambda>rsp w'. rsp_status rsp \<noteq> 401 \<and> (rsp_status rsp = 202 \<longrightarrow>
        rsp = job_accepted fresh \<and> stored rows (fst w') = (stored rows (fst w))(fresh \<mapsto> job) \<and>
        (\<exists>n\<ge>1. sent_to (k_stream keys) (elog (snd w')) =
          sent_to (k_stream keys) (elog (snd w)) @ replicate n (to_fields (first_delivery job)))))
    (\<lambda>e w'. True) w"
    unfolding wp_handled_by wp
  proof (rule wpE_mono [OF ingestion.wp_submit [OF ing assms(4) refl]], goal_cases)
    case (1 i w1)
    then show ?case by (auto simp: wp job_accepted_def assms(8))
  next
    case (2 e w1)
    show ?case by (cases e) (simp_all add: error_response_def)
  qed
  from wpE_Inr [OF this run] show ?thesis .
qed

subsection \<open>Properties\<close>

text \<open>
  C19. \<open>POST /v1/jobs\<close>, over any lawful Redis and session: without a configured key the answer is 401 and nothing is
  stored or published.  With one, 202 is answered only when the job is stored \<open>PENDING\<close> with its payload and
  its pointer has been published, and the body names that job; every other answer comes from an exception.
  The stored payload is one that its pipeline accepts.
\<close>

theorem submit_job_spec:
  assumes "redis_client R elog" and "sqlalchemy_session sess rows" and "tenacity_laws run" and "retry_settings_ok (st_retry s)"
    and "submit_job s presented payload (sql_repository sess) (publish (producer_init R keys bs)) run
      fresh created updated w =
      (Inr rsp, w')"
  shows "let job = job_new (payload_type payload) (model_dump payload) fresh created updated in
    payload_ok (j_type job) (j_payload job) \<and>
    (if (\<forall>k. presented = Some k \<longrightarrow> k \<notin> set (st_api_keys s)) then rsp = UNAUTHORIZED \<and> w' = w
     else rsp \<noteq> UNAUTHORIZED \<and>
       (rsp_status rsp = 202 \<longrightarrow>
          rsp = job_accepted fresh \<and> stored rows (fst w') = (stored rows (fst w))(fresh \<mapsto> job) \<and>
          to_fields (first_delivery job) \<in>
            set (drop (length (sent_to (k_stream keys) (elog (snd w)))) (sent_to (k_stream keys) (elog (snd w'))))))"
proof -
  let ?job = "job_new (payload_type payload) (model_dump payload) fresh created updated"
  have ok: "payload_ok (j_type ?job) (j_payload ?job)"
    by (cases payload) (simp_all add: job_new_def str_field_def int_field_def)
  show ?thesis
  proof (cases "\<exists>k. presented = Some k \<and> k \<in> set (st_api_keys s)")
    case False
    then have "require_api_key s presented = Inl UNAUTHORIZED"
      by (auto simp: require_api_key_iff split: option.split)
    with assms(5) False ok show ?thesis by (auto simp: submit_job_def ret_def Let_def)
  next
    case True
    then obtain k where k: "presented = Some k" "k \<in> set (st_api_keys s)" by blast
    from submit_job_with_key [OF assms(1-4) k assms(5) refl] k ok show ?thesis
      by (auto simp: Let_def UNAUTHORIZED_def)
  qed
qed

theorem submit_job_spec_witness:
  "\<exists>w'. submit_job (default_settings\<lparr>st_api_keys := [''key-one'']\<rparr>) (Some ''key-two'') (RagQueryPayload ''q'' 5)
       pg_repo (publish (producer_init mem_client default_keys default_broker)) loop_runner 1 0 0
       (\<lparr>db_rows = [], db_faults = []\<rparr>, mem_start) = (Inr UNAUTHORIZED, w') \<and>
     w' = (\<lparr>db_rows = [], db_faults = []\<rparr>, mem_start)"
proof -
  let ?s = "default_settings\<lparr>st_api_keys := [''key-one'']\<rparr>"
  have run: "submit_job ?s (Some ''key-two'') (RagQueryPayload ''q'' 5)
       pg_repo (publish (producer_init mem_client default_keys default_broker)) loop_runner 1 0 0
       (\<lparr>db_rows = [], db_faults = []\<rparr>, mem_start) =
      (Inr UNAUTHORIZED, (\<lparr>db_rows = [], db_faults = []\<rparr>, mem_start))"
    by (simp add: submit_job_def require_api_key_iff ret_def)
  have ok: "retry_settings_ok (st_retry ?s)"
    by (simp add: retry_settings_ok_def default_settings_def default_retry_def)
  from submit_job_spec [OF mem.redis_client_axioms pg.sqlalchemy_session_axioms loop_runner_laws ok run] run show ?thesis
    by (simp add: Let_def)
qed

text \<open>
  The readiness probe reports each dependency by whether its call returned: it always answers, with 200 and
  \<open>ready\<close> exactly if none of the three calls raised, and otherwise 503 with the failing ones marked; what
  \<open>bucket_exists\<close> returned does not matter, so a service whose bucket is missing is reported as ready.
\<close>

theorem readiness_ignores_missing_bucket:
  assumes "select_1 w = (p, w1)" and "ping w1 = (q, w2)" and "bucket w2 = (b, w3)"
  shows "\<exists>code rs. readiness select_1 ping bucket w = (Inr (code, rs), w3) \<and>
    (code, rs_status rs) = (if \<not> isl p \<and> \<not> isl q \<and> \<not> isl b then (200, ''ready'') else (503, ''not_ready'')) \<and>
    map pr_name (rs_checks rs) = [''postgres'', ''redis'', ''object_store''] \<and>
    map pr_ok (rs_checks rs) = [\<not> isl p, \<not> isl q, \<not> isl b] \<and>
    (b = Inr False \<longrightarrow> pr_detail (last (rs_checks rs)) = None)"
  using assms by (cases p; cases q; cases b) (auto simp: readiness_def probe_def eff_defs Let_def)

theorem readiness_ignores_missing_bucket_witness:
  "\<exists>rs. readiness (ret ()) (ret ()) (ret False) (0::nat) = (Inr (200, rs), 0) \<and> rs_status rs = ''ready'' \<and>
     pr_ok (last (rs_checks rs))"
  using readiness_ignores_missing_bucket [of "ret ()" "0::nat" "Inr ()" 0 "ret ()" "Inr ()" 0 "ret False" "Inr False" 0]
  by (auto simp: ret_def readiness_def probe_def eff_defs Let_def)

end
