(* ===== verification/Lifecycle.thy ===== *)
theory Lifecycle
  imports Delivery Api
begin

section \<open>The life of a job across the whole system\<close>

text \<open>
  The API, the queue, the workers and the store together.  \<open>system_step\<close> is one step of the system over Redis,
  the job store and the rest of the world: an accepted or failed submission, a worker handling one delivery of
  any message whatever its outcome, or anything that leaves the store's jobs alone (Redis, clocks, providers,
  database faults, processes that crash and start).  Along its runs the store evolves by the transition
  methods of the entity alone (\<open>evolves\<close>), which lifts the theorems of \<open>Jobs\<close> from one entity in memory to
  the rows of the table.

  A worker's handling of a delivery is one step here, as in \<open>Consumer\<close>: two workers that hold the same job at
  the same time are outside of it, and \<open>concurrent_start_reverts_success\<close> shows what the unconditional
  \<open>update\<close> of the repository does to them.  \<open>Interleaving\<close> refines the step to its awaits.
\<close>

subsection \<open>Histories of the store\<close>

definition evolves :: "(uuid \<rightharpoonup> inference_job) \<Rightarrow> (uuid \<rightharpoonup> inference_job) \<Rightarrow> bool" where
  "evolves js js' \<longleftrightarrow> (\<forall>i j. js i = Some j \<longrightarrow> (\<exists>ops. js' i = Some (run_ops ops j)))"

definition created :: "(uuid \<rightharpoonup> inference_job) \<Rightarrow> (uuid \<rightharpoonup> inference_job) \<Rightarrow> bool" where
  "created js js' \<longleftrightarrow>
     (\<forall>i j. js i = None \<longrightarrow> js' i = Some j \<longrightarrow>
        (\<exists>ty payload c u ops. j = run_ops ops (job_new ty payload i c u)))"

lemma evolvesD: "evolves js js' \<Longrightarrow> js i = Some j \<Longrightarrow> \<exists>ops. js' i = Some (run_ops ops j)"
  unfolding evolves_def by blast

lemma createdD:
  "created js js' \<Longrightarrow> js i = None \<Longrightarrow> js' i = Some j \<Longrightarrow>
   \<exists>ty payload c u ops. j = run_ops ops (job_new ty payload i c u)"
  unfolding created_def by blast

lemma run_ops_append: "run_ops (xs @ ys) j = run_ops ys (run_ops xs j)"
  by (induction xs arbitrary: j) auto

lemma run_ops_id: "j_id (run_ops ops j) = j_id j"
proof (induction ops arbitrary: j)
  case (Cons op ops)
  have "j_id (after_op op j) = j_id j" by (cases "apply_op op j") (simp_all add: after_op_def apply_op_frame)
  with Cons show ?case by simp
qed simp

lemma run_ops_frame: "j_type (run_ops ops j) = j_type j \<and> j_payload (run_ops ops j) = j_payload j"
proof (induction ops arbitrary: j)
  case (Cons op ops)
  have "j_type (after_op op j) = j_type j \<and> j_payload (after_op op j) = j_payload j"
    by (cases "apply_op op j") (simp_all add: after_op_def apply_op_frame)
  with Cons show ?case by simp
qed simp

lemma run_ops_terminal: "is_terminal j \<Longrightarrow> run_ops ops j = j"
  by (induction ops) (simp_all add: terminal_after_op)

lemma evolves_refl [simp, intro]: "evolves js js"
  unfolding evolves_def by (metis run_ops.simps(1))

lemma evolves_trans: "evolves a b \<Longrightarrow> evolves b c \<Longrightarrow> evolves a c"
  unfolding evolves_def by (metis run_ops_append)

lemma evolves_created: "evolves js js' \<Longrightarrow> dom js' = dom js \<Longrightarrow> created js js'"
  unfolding created_def by (metis domI domIff option.distinct(1))

lemma created_trans:
  assumes "created a b" and "evolves b c" and "created b c" and "evolves a b"
  shows "created a c"
  unfolding created_def
proof (intro allI impI)
  fix i j assume i: "a i = None" "c i = Some j"
  show "\<exists>ty payload cr u ops. j = run_ops ops (job_new ty payload i cr u)"
  proof (cases "b i")
    case None
    with assms(3) i(2) show ?thesis by (simp add: created_def)
  next
    case (Some x)
    with assms(1) i(1) obtain ty payload cr u ops where x: "x = run_ops ops (job_new ty payload i cr u)"
      unfolding created_def by blast
    from assms(2) Some obtain more where "c i = Some (run_ops more x)" unfolding evolves_def by blast
    with x i(2) show ?thesis by (metis run_ops_append option.inject)
  qed
qed

lemma succeeded_ops: "succeeded ext j j' \<Longrightarrow> \<exists>ops. j' = run_ops ops j"
  unfolding succeeded_def
proof (elim exE conjE)
  fix t1 j1 x ref y ms t2
  assume "mark_running t1 j = Inr j1" "mark_success ref (Some ms) t2 j1 = Inr j'"
  then have "j' = run_ops [MarkRunning t1, MarkSuccess ref (Some ms) t2] j" by (simp add: after_op_def)
  then show ?thesis by blast
qed

lemma evolves_upd:
  assumes "js i = Some j" and "j' = run_ops ops j"
  shows "evolves js (js(i \<mapsto> j'))"
  unfolding evolves_def
proof (intro allI impI)
  fix k x assume "js k = Some x"
  with assms show "\<exists>more. (js(i \<mapsto> j')) k = Some (run_ops more x)"
    by (cases "k = i") (auto intro: exI [of _ "[]"])
qed

subsection \<open>A delivery changes the store by transitions only\<close>

text \<open>The store's change as one relation: transitions of stored jobs, no job added or removed.\<close>

definition moves :: "(uuid \<rightharpoonup> inference_job) \<Rightarrow> (uuid \<rightharpoonup> inference_job) \<Rightarrow> bool" where
  "moves js js' \<longleftrightarrow> evolves js js' \<and> dom js' = dom js"

lemma moves_refl [simp, intro]: "moves js js"
  by (simp add: moves_def)

lemma moves_trans: "moves a b \<Longrightarrow> moves b c \<Longrightarrow> moves a c"
  by (auto simp: moves_def intro: evolves_trans)

lemma moves_upd: "js i = Some j \<Longrightarrow> j' = run_ops ops j \<Longrightarrow> moves js (js(i \<mapsto> j'))"
  by (auto simp: moves_def evolves_upd)

lemma moves_op:
  assumes "js i = Some j" and "apply_op op j = Inr j'"
  shows "moves js (js(i \<mapsto> j'))"
proof -
  have "j' = run_ops [op] j" using assms(2) by (simp add: after_op_def)
  with assms(1) show ?thesis by (rule moves_upd)
qed

lemma moves_succeeded: "js i = Some j \<Longrightarrow> succeeded ext j j' \<Longrightarrow> moves js (js(i \<mapsto> j'))"
  using succeeded_ops moves_upd by metis

context routing
begin

lemma wp_requeue_row_moves:
  "wpE (requeue_row c m) (\<lambda>u w'. moves (jobs (fst w)) (jobs (fst w'))) (\<lambda>e w'. jobs (fst w') = jobs (fst w)) w"
  unfolding requeue_row_def wp_world wired
proof (rule wp_load [OF refl], goal_cases)
  case (2 j d')
  show ?case
  proof (cases "requeue (fst (co_utcnow c (snd w))) j")
    case (Inl e)
    with 2 show ?thesis by (simp add: wp_world)
  next
    case (Inr j')
    then have "j_id j' = m_job_id m" using 2 by (auto simp: requeue_Inr)
    with Inr 2 moves_op [of "jobs (fst w)" "m_job_id m" j "Requeue (fst (co_utcnow c (snd w)))" j'] show ?thesis
      by (auto simp: wp_world intro!: wp_update)
  qed
qed (auto simp: wp)

lemma wp_mark_failed_row_moves:
  "wpE (mark_failed_row c m err) (\<lambda>u w'. moves (jobs (fst w)) (jobs (fst w'))) (\<lambda>e w'. jobs (fst w') = jobs (fst w)) w"
  unfolding mark_failed_row_def wp_world wired
proof (rule wp_load [OF refl], goal_cases)
  case (2 j d')
  show ?case
  proof (cases "mark_failed err None (fst (co_utcnow c (snd w))) j")
    case (Inl e)
    with 2 show ?thesis by (simp add: wp_world)
  next
    case (Inr j')
    then have "j_id j' = m_job_id m" using 2 by (auto simp: mark_failed_Inr)
    with Inr 2 moves_op [of "jobs (fst w)" "m_job_id m" j "MarkFailed err None (fst (co_utcnow c (snd w)))" j'] show ?thesis
      by (auto simp: wp_world intro!: wp_update)
  qed
qed (auto simp: wp)

lemma wp_dead_lettered_moves:
  "wpE (bindE (on_fst (route_to_dlq c i m reason)) (\<lambda>u. on_snd (mark_failed_row c m err)))
     (\<lambda>u w'. moves (jobs (fst (snd w))) (jobs (fst (snd w'))))
     (\<lambda>e w'. moves (jobs (fst (snd w))) (jobs (fst (snd w')))) w"
  unfolding wp wp_on_fst
  by (rule wpE_mono [OF wp_route_to_dlq]) (auto simp: wp_on_snd intro: wpE_mono [OF wp_mark_failed_row_moves])

lemma wp_route_failure_moves:
  "wpE (route_failure c i m exc) (\<lambda>u w'. moves (jobs (fst (snd w))) (jobs (fst (snd w'))))
     (\<lambda>e w'. moves (jobs (fst (snd w))) (jobs (fst (snd w')))) w"
proof (cases "is_transient exc \<and> m_attempt m < co_max_attempts c")
  case False
  from wp_dead_lettered_moves show ?thesis by (simp only: route_failure_dead [OF False])
next
  case True
  then have room: "\<not> co_max_attempts c \<le> m_attempt m" by simp
  show ?thesis
    unfolding route_failure_retry [OF conjunct1 [OF True]] on_transient_def wp if_not_P [OF room]
      wp_on_snd [of "requeue_row c m"]
    by (rule wpE_mono [OF wp_requeue_row_moves])
       (auto simp: wp_on_fst intro!: wpE_mono [OF wp_republish] wpE_mono [OF wp_ack])
qed

end

text \<open>With a processor that moves the store too, so does the handling of a delivery.\<close>

locale job_lifecycle = routing R elog repo jobs proc c
  for R :: "'r redis" and elog and repo :: "'d repository" and jobs
    and proc :: "job_message \<Rightarrow> ('d \<times> 'x, unit) io" and c :: "('r, 'd, 'x) consumer" +
  assumes proc_moves: "proc m w = (r, w') \<Longrightarrow> moves (jobs (fst w)) (jobs (fst w'))"
begin

lemma wp_proc_moves:
  "wpE (proc m) (\<lambda>u w'. moves (jobs (fst w)) (jobs (fst w'))) (\<lambda>e w'. moves (jobs (fst w)) (jobs (fst w'))) w"
  by (rule wpE_I) (rule proc_moves, assumption)+

lemma wp_ack_fst:
  "wpE (on_fst (ack c i)) (\<lambda>u w'. snd w' = snd w) (\<lambda>e w'. snd w' = snd w) w"
  unfolding wp_on_fst by (rule wpE_mono [OF wpE_total]) auto

lemma wp_route_moves:
  "wpE (route c i m) (\<lambda>u w'. moves (jobs (fst (snd w))) (jobs (fst (snd w'))))
     (\<lambda>e w'. moves (jobs (fst (snd w))) (jobs (fst (snd w')))) w"
  unfolding route_def wp wp_on_snd [of "on_fst m" for m] wp_on_fst [of "already_terminal c m"]
proof (rule wpE_mono [OF wp_already_terminal], goal_cases)
  case (1 t d')
  show ?case
  proof (cases t)
    case True
    with 1 show ?thesis by (auto intro!: wpE_mono [OF wp_ack_fst])
  next
    case False
    with 1 show ?thesis
      unfolding if_not_P [OF False] wp wp_on_snd wired
    proof (intro wpE_mono [OF wp_proc_moves], goal_cases)
      case (1 u p)
      then show ?case by (auto intro!: wpE_mono [OF wp_ack_fst])
    next
      case (2 e p)
      show ?case
        by (rule wpE_mono [OF wp_route_failure_moves]) (use 2 in \<open>auto intro: moves_trans\<close>)
    qed
  qed
qed auto

end

lemma sql_processor_moves:
  assumes "sqlalchemy_session sess rows" and "processor_call (sql_repository sess) ext m w = (r, w')"
  shows "moves (stored rows (fst w)) (stored rows (fst w'))"
proof -
  have run: "mark_running t j = Inr j' \<Longrightarrow> apply_op (MarkRunning t) j = Inr j'" for t j j' by simp
  from job_repository.wp_process [OF sql_job_repository [OF assms(1)], of "sql_repository sess" ext "m_job_id m"
      "m_attempt m" w] assms(2)
  show ?thesis
    by (cases r) (auto simp: processor_call_def wpE_def intro: moves_succeeded moves_op [OF _ run])
qed

lemma lifecycle_built:
  assumes "redis_client R elog" and "sqlalchemy_session sess rows"
  shows "job_lifecycle R elog (sql_repository sess) (stored rows) (processor_call (sql_repository sess) ext)
    (build_consumer R sess bs ext name)"
  by (intro job_lifecycle.intro job_lifecycle_axioms.intro routing_built [OF assms] sql_processor_moves [OF assms(2)])

interpretation mem_lifecycle: job_lifecycle mem_client mr_log pg_repo table_jobs "processor_call pg_repo ext"
    "build_consumer mem_client table_session bs ext name" for bs ext name
  using lifecycle_built [OF mem.redis_client_axioms pg.sqlalchemy_session_axioms] by simp

subsection \<open>The system\<close>

inductive system_step ::
  "'r redis \<Rightarrow> 'd session \<Rightarrow> ('d \<Rightarrow> uuid \<rightharpoonup> job_row) \<Rightarrow> broker_settings \<Rightarrow> ('d \<times> 'r, unit) runner \<Rightarrow> retry_settings \<Rightarrow>
   'r \<times> 'd \<times> 'x \<Rightarrow> 'r \<times> 'd \<times> 'x \<Rightarrow> bool" for R sess rows bs run rs where
  submission:
    "submit (sql_repository sess) (publish (producer_init R (keys_from_settings bs) bs)) run rs
       ty payload fresh created_at updated_at (d, q) = (r, (d', q')) \<Longrightarrow>
     system_step R sess rows bs run rs (q, (d, x)) (q', (d', x))"
| delivery:
    "route (build_consumer R sess bs ext name) i m w = (r, w') \<Longrightarrow> system_step R sess rows bs run rs w w'"
| elsewhere:
    "stored rows (fst (snd w')) = stored rows (fst (snd w)) \<Longrightarrow> system_step R sess rows bs run rs w w'"

inductive_cases system_stepE: "system_step R sess rows bs run rs w w'"

lemma moves_history: "moves js js' \<Longrightarrow> evolves js js' \<and> created js js'"
  by (auto simp: moves_def evolves_created)

lemma insert_history:
  assumes "js fresh = None" and "js' = js(fresh \<mapsto> job_new ty payload fresh c u)"
  shows "evolves js js' \<and> created js js'"
proof
  show "evolves js js'"
    unfolding evolves_def by (metis assms fun_upd_other option.distinct(1) run_ops.simps(1))
  show "created js js'"
    unfolding created_def by (metis assms(2) fun_upd_other fun_upd_same option.distinct(1) option.inject run_ops.simps(1))
qed

lemma system_step_history:
  assumes lawful: "redis_client R elog" "sqlalchemy_session sess rows" "tenacity_laws run" "retry_settings_ok rs"
    and step: "system_step R sess rows bs run rs w w'"
  shows "evolves (stored rows (fst (snd w))) (stored rows (fst (snd w'))) \<and>
    created (stored rows (fst (snd w))) (stored rows (fst (snd w')))"
  using step
proof cases
  case (submission ty payload fresh created_at updated_at d q r d' q' x)
  have ing: "ingestion (sql_repository sess) (stored rows) (publish (producer_init R (keys_from_settings bs) bs))
      (\<lambda>s. sent_to (k_stream (keys_from_settings bs)) (elog s)) run"
    by (intro ingestion.intro ingestion_axioms.intro sql_job_repository redis_client.publish_queue lawful)
  from ingestion.wp_submit [OF ing lawful(4) refl, of ty payload fresh created_at updated_at "(d, q)"] submission(3)
  have "stored rows d' = stored rows d \<or> stored rows d fresh = None \<and>
      stored rows d' = (stored rows d)(fresh \<mapsto> job_new ty payload fresh created_at updated_at)"
    by (auto simp: wpE_def split: sum.splits)
  with submission(1,2) show ?thesis using insert_history moves_history moves_refl by fastforce
next
  case (delivery ext name i m r)
  from job_lifecycle.wp_route_moves [OF lifecycle_built [OF lawful(1,2)], of bs ext name i m w] delivery
  have "moves (stored rows (fst (snd w))) (stored rows (fst (snd w')))" by (auto simp: wpE_def split: sum.splits)
  then show ?thesis by (rule moves_history)
next
  case elsewhere
  then show ?thesis using moves_history moves_refl by metis
qed

lemma system_history:
  assumes lawful: "redis_client R elog" "sqlalchemy_session sess rows" "tenacity_laws run" "retry_settings_ok rs"
    and run: "(system_step R sess rows bs run rs)\<^sup>*\<^sup>* w w'"
  shows "evolves (stored rows (fst (snd w))) (stored rows (fst (snd w'))) \<and>
    created (stored rows (fst (snd w))) (stored rows (fst (snd w')))"
  using run
proof (induction rule: rtranclp_induct)
  case base
  then show ?case using moves_history moves_refl by metis
next
  case (step y z)
  with system_step_history [OF lawful step(2)] show ?case
    by (blast intro: evolves_trans created_trans)
qed

lemma system_history_split:
  assumes "redis_client R elog" and "sqlalchemy_session sess rows" and "tenacity_laws run" and "retry_settings_ok rs"
    and "(system_step R sess rows bs run rs)\<^sup>*\<^sup>* (q, (d, x)) (q', (d', x'))"
  shows "evolves (stored rows d) (stored rows d')" and "created (stored rows d) (stored rows d')"
  using system_history [OF assms] by simp_all

subsection \<open>A run of the system\<close>

text \<open>A job is submitted, and a worker handles its first delivery: for the witnesses.\<close>

definition empty_db :: jobs_db where
  "empty_db = \<lparr>db_rows = [], db_faults = []\<rparr>"

definition first_pointer :: job_message where
  "first_pointer = \<lparr>m_job_id = 1, m_job_type = RAG_QUERY, m_attempt = 1\<rparr>"

lemma pending_new: "(job_new ty [] 1 0 0)\<lparr>j_status := PENDING, j_attempts := if PENDING = PENDING then 0 else 1\<rparr> =
    job_new ty [] 1 0 0"
  by (simp add: job_new_def)

lemma sample_success:
  "\<exists>d' j'. processor_call pg_repo tick_world first_pointer (one_job RAG_QUERY PENDING, 0) = (Inr (), (d', 4)) \<and>
     db_faults d' = [] \<and> table_jobs d' 1 = Some j' \<and> j_status j' = SUCCESS"
proof -
  let ?d = "one_job RAG_QUERY PENDING" and ?j = "job_new RAG_QUERY [] 1 0 0"
  let ?r = "''s3://b/results/'' @ uuid_str 1 @ ''.json''"
  let ?j1 = "?j\<lparr>j_status := RUNNING, j_updated_at := 0, j_attempts := 1\<rparr>"
  let ?j2 = "?j1\<lparr>j_status := SUCCESS, j_updated_at := 3, j_result_ref := Some ?r, j_duration_ms := Some 1000\<rparr>"
  have j: "table_jobs ?d 1 = Some ?j" using one_job_row(1) [of RAG_QUERY PENDING] by (simp only: pending_new)
  have len: "length (uuid_str u) = 36" for u by (simp add: uuid_str_def Let_def)
  have fit: "row_fits (to_row ?j1)" "row_fits (to_row ?j2)"
    by (simp_all add: row_fits_to_row fits_def int4_def job_new_def len)
  obtain d1 where d1: "repo_update table_session ?j1 ?d = (Inr (), d1)" "db_faults d1 = []"
    "table_jobs d1 = (table_jobs ?d)(1 \<mapsto> ?j1)"
    using pg_update_ok [of ?d ?j1, OF one_job_row(2) _ fit(1)] one_job_row(3) by (auto simp: job_new_def)
  obtain d2 where d2: "repo_update table_session ?j2 d1 = (Inr (), d2)" "table_jobs d2 = (table_jobs d1)(1 \<mapsto> ?j2)"
    "db_faults d2 = []"
    using pg_update_ok [of d1 ?j2, OF d1(2) _ fit(2)] table_jobs_lookup [of d1 1 ?j1] d1(3)
    by (auto simp: job_new_def)
  have m: "mark_running 0 ?j = Inr ?j1" "mark_success ?r (Some 1000) 3 ?j1 = Inr ?j2"
    by (simp_all add: mark_running_Inr mark_success_Inr job_new_def)
  have ms: "elapsed_ms 1 2 = 1000" by (simp add: elapsed_ms_def)
  have pipe: "PIPELINES tick_world RAG_QUERY job x = (Inr (''s3://b/results/'' @ uuid_str (j_id job) @ ''.json''), x)"
    for job x by (simp add: tick_world_def ret_def)
  have clocks: "utcnow tick_world x = (x, x + 1)" "monotonic tick_world x = (of_int x, x + 1)" for x
    by (simp_all add: tick_world_def)
  have ty: "j_type ?j1 = RAG_QUERY" "j_id ?j1 = 1" by (simp_all add: job_new_def)
  have "processor_call pg_repo tick_world first_pointer (?d, 0) = (Inr (), (d2, 4))"
    using pg_get_found [OF one_job_row(2) j] m d1(1) d2(1)
    by (simp add: processor_call_def first_pointer_def process_def get_or_none_def start_job_def finish_job_def
        run_pipeline_def eff_defs on_fst_def on_snd_def read_clock_def is_terminal_iff clocks pipe ty ms job_new_def)
  then show ?thesis using d2(2,3) by auto
qed

abbreviation sample_step :: "mem_redis \<times> jobs_db \<times> int \<Rightarrow> mem_redis \<times> jobs_db \<times> int \<Rightarrow> bool" where
  "sample_step \<equiv> system_step mem_client table_session (\<lambda>d. db_lookup (db_rows d)) default_broker loop_runner default_retry"

lemma default_retry_ok: "retry_settings_ok default_retry"
  by (simp add: retry_settings_ok_def default_retry_def)

lemmas sample_lawful = mem.redis_client_axioms pg.sqlalchemy_session_axioms loop_runner_laws default_retry_ok

lemma sample_submission:
  "\<exists>d q. submit pg_repo (publish (producer_init mem_client (keys_from_settings default_broker) default_broker)) loop_runner
       default_retry RAG_QUERY payload 1 0 0 (empty_db, mem_start) = (Inr 1, (d, q)) \<and>
     d = \<lparr>db_rows = [to_row (job_new RAG_QUERY payload 1 0 0)], db_faults = []\<rparr> \<and> mr_faults q = []"
proof -
  let ?p = "producer_init mem_client (keys_from_settings default_broker) default_broker"
  let ?j = "job_new RAG_QUERY payload 1 0 0"
  have row: "row_fits (to_row ?j)" by (simp add: row_fits_to_row fits_def int4_def job_new_def)
  have add: "repo_add table_session ?j empty_db = (Inr (), \<lparr>db_rows = [to_row ?j], db_faults = []\<rparr>)"
    using row by (simp add: repo_add_def transaction_def table_defs bindE_def ret_def db_lookup_def empty_db_def)
  obtain s' k where "prod_xadd ?p (k_stream (p_keys ?p)) (to_fields (first_delivery ?j)) mem_start = (Inr k, s')"
    "mr_faults s' = []"
    using mem_prod_xadd_ok [of ?p mem_start "k_stream (p_keys ?p)" "to_fields (first_delivery ?j)"]
    by (auto simp: producer_init_def mem_start_def)
  then have "publish ?p ?j mem_start = (Inr (), s')" by (simp add: publish_def bindE_def ret_def)
  with add \<open>mr_faults s' = []\<close> show ?thesis
    by (intro exI [of _ s'] exI) (simp add: submit_def Let_def loop_runner_def retrying_def default_retry_def numeral_2_eq_2
        bindE_def ret_def on_fst_run on_snd_run job_new_def del: One_nat_def)
qed

lemma sample_submit:
  "\<exists>q. submit pg_repo (publish (producer_init mem_client (keys_from_settings default_broker) default_broker)) loop_runner
       default_retry RAG_QUERY [] 1 0 0 (empty_db, mem_start) = (Inr 1, (one_job RAG_QUERY PENDING, q)) \<and>
     mr_faults q = []"
proof -
  have "one_job RAG_QUERY PENDING = \<lparr>db_rows = [to_row (job_new RAG_QUERY [] 1 0 0)], db_faults = []\<rparr>"
    by (simp add: one_job_def to_row_def job_new_def)
  with sample_submission [of "[]"] show ?thesis by auto
qed

lemma sample_run:
  "\<exists>w j'. sample_step\<^sup>*\<^sup>* (mem_start, (empty_db, 0)) w \<and> table_jobs (fst (snd w)) 1 = Some j' \<and> j_status j' = SUCCESS"
proof -
  let ?c = "build_consumer mem_client table_session default_broker tick_world ''w1''"
  let ?d = "one_job RAG_QUERY PENDING"
  obtain q where q: "submit pg_repo (publish (producer_init mem_client (keys_from_settings default_broker) default_broker))
      loop_runner default_retry RAG_QUERY [] 1 0 0 (empty_db, mem_start) = (Inr 1, (?d, q))" "mr_faults q = []"
    using sample_submit by blast
  obtain d' j' where run: "processor_call pg_repo tick_world first_pointer (?d, 0) = (Inr (), (d', 4))"
    and j': "table_jobs d' 1 = Some j'" "j_status j' = SUCCESS" using sample_success by blast
  have m: "m_job_id first_pointer = 1" by (simp add: first_pointer_def)
  have "already_terminal ?c first_pointer ?d = (Inr False, ?d)"
    by (rule guard_unsettled [OF one_job_row(2)]) (auto simp: m one_job_row is_terminal_iff)
  with run have r: "route ?c (WBytes ''1-0'') first_pointer (q, (?d, 0)) =
      on_fst (ack ?c (WBytes ''1-0'')) (q, (d', 4))"
    by (simp add: route_def bindE_def tryElse_def on_snd_run on_fst_run)
  obtain r' w where w: "route ?c (WBytes ''1-0'') first_pointer (q, (?d, 0)) = (r', w)"
    by (cases "route ?c (WBytes ''1-0'') first_pointer (q, (?d, 0))")
  with r have "snd w = (d', 4)" by (auto simp: on_fst_def zoomE_def split: prod.splits)
  moreover have "sample_step (mem_start, (empty_db, 0)) (q, (?d, 0))"
    by (rule system_step.submission [where x = 0, OF q(1)])
  moreover have "sample_step (q, (?d, 0)) w" by (rule system_step.delivery [OF w])
  ultimately show ?thesis using j' by (intro exI [of _ w] exI [of _ j']) auto
qed

subsection \<open>Properties\<close>



text \<open>
  Every row is well-formed.  In any state that the system reaches from an empty store, a stored job is keyed
  by its own id and satisfies the invariant of the entity: a result reference exactly in \<open>SUCCESS\<close>, an error
  exactly in \<open>FAILED\<close>, and a positive number of attempts once it has left \<open>PENDING\<close>.
\<close>

theorem stored_jobs_well_formed:
  assumes "redis_client R elog" and "sqlalchemy_session sess rows" and "tenacity_laws run" and "retry_settings_ok rs"
    and "stored rows d = Map.empty"
    and "(system_step R sess rows bs run rs)\<^sup>*\<^sup>* (q, (d, x)) (q', (d', x'))"
    and "stored rows d' i = Some j"
  shows "job_ok j \<and> j_id j = i"
proof -
  have "stored rows d i = None" using assms(5) by simp
  from createdD [OF system_history_split(2) [OF assms(1-4,6)] this assms(7)]
  obtain ty payload c u ops where j: "j = run_ops ops (job_new ty payload i c u)" by (elim exE)
  have "job_ok j" unfolding j by (intro run_ops_ok job_new_ok)
  moreover have "j_id j = i" unfolding j run_ops_id by (simp add: job_new_def)
  ultimately show ?thesis ..
qed

theorem stored_jobs_well_formed_witness:
  "\<exists>w j. sample_step\<^sup>*\<^sup>* (mem_start, (empty_db, 0)) w \<and> table_jobs (fst (snd w)) 1 = Some j \<and>
     j_result_ref j \<noteq> None \<and> j_error j = None \<and> 1 \<le> j_attempts j"
proof -
  obtain q d x j where run: "sample_step\<^sup>*\<^sup>* (mem_start, (empty_db, 0)) (q, (d, x))" "table_jobs d 1 = Some j"
    "j_status j = SUCCESS" using sample_run by auto
  have "stored (\<lambda>d. db_lookup (db_rows d)) empty_db = Map.empty"
    by (simp add: empty_db_def table_jobs_def jobs_of_def db_lookup_def fun_eq_iff)
  from stored_jobs_well_formed [OF sample_lawful this run(1), of 1 j] run
  have "j_result_ref j \<noteq> None" "j_error j = None" "1 \<le> j_attempts j" by (simp_all add: job_ok_def)
  with run show ?thesis by (intro exI [of _ "(q, (d, x))"] exI [of _ j]) simp
qed

text \<open>
  A terminal job is final in the store.  Once a row is \<open>SUCCESS\<close> or \<open>FAILED\<close>, it is that same row after any run
  of the system: no redelivery of its message, no reclaim and no later submission changes any field of it.
\<close>

theorem terminal_rows_final:
  assumes "redis_client R elog" and "sqlalchemy_session sess rows" and "tenacity_laws run" and "retry_settings_ok rs"
    and "stored rows d i = Some j" and "is_terminal j"
    and "(system_step R sess rows bs run rs)\<^sup>*\<^sup>* (q, (d, x)) (q', (d', x'))"
  shows "stored rows d' i = Some j"
  using evolvesD [OF system_history_split(1) [OF assms(1-4,7)] assms(5)] run_ops_terminal [OF assms(6)] by simp

text \<open>A redelivery of the pointer of a job that has failed.\<close>

theorem terminal_rows_final_witness:
  "let c = build_consumer mem_client table_session default_broker tick_world ''w1'';
       d = one_job RAG_QUERY FAILED;
       w = snd (route c (WBytes ''1-0'') first_pointer (mem_start, (d, 0)))
   in table_jobs d 1 \<noteq> None \<and> table_jobs (fst (snd w)) 1 = table_jobs d 1"
proof -
  let ?c = "build_consumer mem_client table_session default_broker tick_world ''w1''"
  let ?j = "(job_new RAG_QUERY [] 1 0 0)\<lparr>j_status := FAILED, j_attempts := if FAILED = PENDING then 0 else 1\<rparr>"
  obtain r q d x where w: "route ?c (WBytes ''1-0'') first_pointer (mem_start, (one_job RAG_QUERY FAILED, 0)) =
      (r, (q, (d, x)))" by (cases "route ?c (WBytes ''1-0'') first_pointer (mem_start, (one_job RAG_QUERY FAILED, 0))") auto
  have run: "sample_step\<^sup>*\<^sup>* (mem_start, (one_job RAG_QUERY FAILED, 0)) (q, (d, x))"
    by (rule r_into_rtranclp, rule system_step.delivery [OF w])
  have row: "stored (\<lambda>d. db_lookup (db_rows d)) (one_job RAG_QUERY FAILED) 1 = Some ?j"
    unfolding stored_table by (rule one_job_row)
  have "is_terminal ?j" by (simp add: is_terminal_iff)
  from terminal_rows_final [OF sample_lawful row this run] w row show ?thesis by (simp add: Let_def)
qed

text \<open>
  C12. What the unconditional \<open>update\<close> of the repository does to two workers.  Worker B reads the row while it is
  \<open>PENDING\<close>; before B goes on, worker A processes the same job to the end.  B's start is then accepted
  on B's stale entity, and its write takes the finished row back: from \<open>SUCCESS\<close> to \<open>RUNNING\<close>, with A's
  result reference gone and A's attempt not counted.
\<close>

theorem concurrent_start_reverts_success:
  assumes "sqlalchemy_session sess rows"
    and "repo_get sess i d = (Inr j, d1)" and "j_status j = PENDING"
    and "process (sql_repository sess) ext_a i n (d1, x) = (Inr (), (d2, x2))"
    and "start_job (sql_repository sess) ext_b j (d2, y) = (Inr j1, (d3, y3))"
  shows "\<exists>ref j2. stored rows d2 i = Some j2 \<and> j_status j2 = SUCCESS \<and> j_result_ref j2 = Some ref \<and>
    j_attempts j2 = j_attempts j + 1 \<and>
    stored rows d3 i = Some j1 \<and> j_status j1 = RUNNING \<and> j_result_ref j1 = j_result_ref j \<and>
    j_attempts j1 = j_attempts j + 1"
proof -
  note repo = sql_job_repository [OF assms(1)]
  have row: "stored rows d1 i = Some j" "j_id j = i"
    using job_repository.get_law [OF repo, of i d "Inr j" d1] assms(2) by simp_all
  have live: "\<not> settled_in (stored rows d1) i" using row assms(3) by (simp add: settled_in_def is_terminal_iff)
  from job_repository.wp_process [OF repo refl refl, of ext_a i n "(d1, x)"] assms(4) live row
  obtain j2 where s: "succeeded ext_a j j2" and d2: "stored rows d2 = (stored rows d1)(i \<mapsto> j2)"
    by (auto simp: wpE_def)
  have a: "j_status j2 = SUCCESS \<and> (\<exists>ref. j_result_ref j2 = Some ref) \<and> j_attempts j2 = j_attempts j + 1"
    using s by (auto simp: succeeded_def mark_running_Inr mark_success_Inr)
  from assms(5) obtain now where b: "mark_running now j = Inr j1"
    and u: "repo_update sess j1 d2 = (Inr (), d3)"
    by (auto simp: start_job_def eff_defs on_fst_def on_snd_def split: sum.splits prod.splits)
  have b1: "j_status j1 = RUNNING" "j_result_ref j1 = j_result_ref j" "j_attempts j1 = j_attempts j + 1" "j_id j1 = i"
    using b row by (auto simp: mark_running_Inr)
  have "stored rows d3 = (stored rows d2)(j_id j1 \<mapsto> j1)"
    using job_repository.update_law [OF repo, of j1 d2 "Inr ()" d3] u by simp
  with a b1 d2 show ?thesis by auto
qed

theorem concurrent_start_reverts_success_witness:
  "\<exists>d2 x2 j1 d3 j2. process pg_repo tick_world 1 1 (one_job RAG_QUERY PENDING, 0) = (Inr (), (d2, x2)) \<and>
     start_job pg_repo tick_world (job_new RAG_QUERY [] 1 0 0) (d2, x2) = (Inr j1, d3) \<and>
     table_jobs d2 1 = Some j2 \<and> j_status j2 = SUCCESS \<and>
     table_jobs (fst d3) 1 = Some j1 \<and> j_status j1 = RUNNING \<and> j_result_ref j1 = None"
proof -
  let ?d = "one_job RAG_QUERY PENDING" and ?j = "job_new RAG_QUERY [] 1 0 0"
  let ?j1 = "?j\<lparr>j_status := RUNNING, j_updated_at := 4, j_attempts := 1\<rparr>"
  have j: "table_jobs ?d 1 = Some ?j" using one_job_row(1) [of RAG_QUERY PENDING] by (simp only: pending_new)
  have st: "j_status ?j = PENDING" by (simp add: job_new_def)
  obtain d2 j2 where a: "process pg_repo tick_world 1 1 (?d, 0) = (Inr (), (d2, 4))" "table_jobs d2 1 = Some j2"
    "db_faults d2 = []"
    using sample_success by (auto simp: processor_call_def first_pointer_def)
  have fit: "row_fits (to_row ?j1)" by (simp add: row_fits_to_row fits_def int4_def job_new_def)
  obtain d3 where "repo_update table_session ?j1 d2 = (Inr (), d3)"
    using pg_update_ok [of d2 ?j1, OF a(3) _ fit] table_jobs_lookup [OF a(2)] by (auto simp: job_new_def)
  moreover have "mark_running 4 ?j = Inr ?j1" by (simp add: mark_running_Inr job_new_def)
  ultimately have b: "start_job pg_repo tick_world ?j (d2, 4) = (Inr ?j1, (d3, 5))"
    by (simp add: start_job_def eff_defs on_fst_def on_snd_def read_clock_def tick_world_def)
  from concurrent_start_reverts_success [OF pg.sqlalchemy_session_axioms pg_get_found [OF one_job_row(2) j] st a(1) b] a(2)
  have "j_status j2 = SUCCESS" "table_jobs d3 1 = Some ?j1" by auto
  with a b have "process pg_repo tick_world 1 1 (?d, 0) = (Inr (), (d2, 4)) \<and>
     start_job pg_repo tick_world ?j (d2, 4) = (Inr ?j1, (d3, 5)) \<and> table_jobs d2 1 = Some j2 \<and> j_status j2 = SUCCESS \<and>
     table_jobs (fst (d3, 5)) 1 = Some ?j1 \<and> j_status ?j1 = RUNNING \<and> j_result_ref ?j1 = None"
    by (simp add: job_new_def)
  then show ?thesis by blast
qed

end
