(* ===== verification/Settling.thy ===== *)
theory Settling
  imports Lifecycle
begin

section \<open>Every job settles when the services answer\<close>

text \<open>
  The liveness side of the retry policy of \<open>broker/consumer.py\<close>.  The locale \<open>services_up\<close> is a lawful Redis and a
  lawful session with states (\<open>up\<close>, \<open>live\<close>) in which their calls return: \<open>XADD\<close> and \<open>XACK\<close>, primary-key lookups,
  the merge of a row that fits the table, and commits.  The pipelines may fail in every way, as long as what they
  return and raise fits the columns (\<open>within_columns\<close>).  \<open>deliveries\<close> hands a job's pointer to one worker after the
  other, each time with the attempt number that the previous routing has published, and with anything that leaves
  the row alone in between.
\<close>

subsection \<open>Services that answer\<close>

locale services_up = redis_client R elog + sqlalchemy_session sess rows
  for R :: "'r redis" and elog and sess :: "'d session" and rows +
  fixes up :: "'r \<Rightarrow> bool" and live :: "'d \<Rightarrow> bool"
  assumes xadd_up: "up q \<Longrightarrow> \<exists>n t q'. xadd R st fs k ap q = (Inr n, q') \<and> as_str n = Inr t \<and> up q'"
    and xack_up: "up q \<Longrightarrow> \<exists>n q'. xack R st g i q = (Inr n, q') \<and> up q'"
    and s_get_live: "live d \<Longrightarrow> \<exists>v d'. s_get sess jid d = (Inr v, d') \<and> live d'"
    and s_merge_live: "live d \<Longrightarrow> row_fits row \<Longrightarrow> \<exists>d'. s_merge sess row d = (Inr (), d') \<and> live d'"
    and s_begin_live: "live d \<Longrightarrow> m d = (Inr (), d1) \<Longrightarrow> live d1 \<Longrightarrow> \<exists>d'. s_begin sess m d = (Inr (), d') \<and> live d'"

interpretation mem_up: services_up mem_client mr_log table_session "\<lambda>d. db_lookup (db_rows d)"
    "\<lambda>q. mr_faults q = []" "\<lambda>d. db_faults d = []"
proof unfold_locales
  fix q :: mem_redis assume up: "mr_faults q = []"
  show "\<exists>n t q'. xadd mem_client st fs k ap q = (Inr n, q') \<and> as_str n = Inr t \<and> mr_faults q' = []" for st fs k ap
    using mem_xadd_ok [OF up, of st fs k ap] id_text_decodes by blast
  show "\<exists>n q'. xack mem_client st g i q = (Inr n, q') \<and> mr_faults q' = []" for st g i
    using mem_xack_ok [OF up, of st g i] by blast
next
  fix d :: jobs_db assume live: "db_faults d = []"
  show "\<exists>v d'. s_get table_session i d = (Inr v, d') \<and> db_faults d' = []" for i
    using live by (simp add: table_defs)
  show "\<exists>d'. s_merge table_session row d = (Inr (), d') \<and> db_faults d' = []" if "row_fits row" for row
    using live that by (simp add: table_defs)
  show "\<exists>d'. s_begin table_session m d = (Inr (), d') \<and> db_faults d' = []"
    if "m d = (Inr (), d1)" "db_faults d1 = []" for m d1
    using live that by (simp add: table_session_def transaction_def statement_def bindE_def ret_def)
qed

subsection \<open>Results and errors that fit the columns\<close>

abbreviation fits_table :: "inference_job \<Rightarrow> bool" where
  "fits_table j \<equiv> row_fits (to_row j)"

definition within_columns :: "'x externals \<Rightarrow> int \<Rightarrow> bool" where
  "within_columns ext n \<longleftrightarrow>
     (\<forall>job x ref y. run_pipeline ext job x = (Inr ref, y) \<longrightarrow> length ref \<le> 512) \<and>
     (\<forall>job x e y m. run_pipeline ext job x = (Inl e, y) \<longrightarrow> m_attempt m \<in> {1..n} \<longrightarrow>
        length (snd (failure_texts m e)) \<le> 2048) \<and>
     (\<forall>x y. int4 (elapsed_ms (fst (monotonic ext x)) (fst (monotonic ext y))))"

context services_up
begin

lemma job_repo: "job_repository (repo_add sess) (repo_get sess) (repo_update sess) (stored rows)"
  using sql_job_repository [OF sqlalchemy_session_axioms] by simp

lemma get_up:
  assumes "live d" and "stored rows d i = Some j"
  obtains d' where "repo_get sess i d = (Inr j, d')" and "live d'" and "stored rows d' = stored rows d" and "j_id j = i"
proof -
  obtain v d' where g: "s_get sess i d = (Inr v, d')" "live d'" using s_get_live [OF assms(1)] by blast
  from s_get_law [OF g(1)] have "v = rows d i" "rows d' = rows d" by auto
  with assms(2) g have get: "repo_get sess i d = (Inr j, d')"
    by (auto simp: repo_get_def bindE_def liftE_def stored_def jobs_of_def split: option.splits sum.splits)
  from job_repository.get_law [OF job_repo get] that [OF get g(2)] show thesis by simp
qed

lemma wp_load_up:
  assumes "live d" and "stored rows d i = Some j"
  shows "wpE (get_or_none (sql_repository sess) i)
    (\<lambda>v d'. v = Some j \<and> live d' \<and> stored rows d' = stored rows d \<and> j_id j = i) (\<lambda>e d'. False) d"
  by (rule get_up [OF assms]) (simp add: get_or_none_def wpE_def eff_defs)

lemma wp_update_up:
  assumes "live d" and "stored rows d (j_id j) \<noteq> None" and "fits_table j"
  shows "wpE (repo_update sess j) (\<lambda>u d'. live d' \<and> stored rows d' = (stored rows d)(j_id j \<mapsto> j)) (\<lambda>e d'. False) d"
proof -
  let ?m = "bindE (s_get sess (j_id j)) (\<lambda>found. case found of
      None \<Rightarrow> raiseE (JobNotFound (j_id j)) | Some row \<Rightarrow> s_merge sess (to_row j))"
  obtain v d1 where g: "s_get sess (j_id j) d = (Inr v, d1)" "live d1" using s_get_live [OF assms(1)] by blast
  from s_get_law [OF g(1)] assms(2) have "v \<noteq> None"
    by (auto simp: stored_def jobs_of_def split: option.splits)
  moreover obtain d2 where m: "s_merge sess (to_row j) d1 = (Inr (), d2)" "live d2"
    using s_merge_live [OF g(2) assms(3)] by blast
  ultimately have "?m d = (Inr (), d2)" using g by (auto simp: bindE_def)
  from s_begin_live [of d ?m d2, OF assms(1) this m(2)] obtain d' where d': "repo_update sess j d = (Inr (), d')" "live d'"
    by (auto simp: repo_update_def)
  with job_repository.update_law [OF job_repo d'(1)] show ?thesis by (simp add: wpE_def)
qed

text \<open>
  A run of the processor on a pending row, when the pipeline's results for that job satisfy \<open>Res\<close> and its errors
  \<open>Err\<close>; then the two transitions of a running row.
\<close>

lemma wp_process_outcome:
  assumes "live d" and row: "stored rows d i = Some j" "j_status j = PENDING"
    and fit: "fits_table j" "int4 (j_attempts j + 1)"
    and ms: "\<And>x y. int4 (elapsed_ms (fst (monotonic ext x)) (fst (monotonic ext y)))"
    and pipeline: "\<And>job x r y. j_type job = j_type j \<Longrightarrow> j_id job = j_id j \<Longrightarrow> j_payload job = j_payload j \<Longrightarrow>
      run_pipeline ext job x = (r, y) \<Longrightarrow> (case r of Inl e \<Rightarrow> Err e | Inr ref \<Rightarrow> Res ref \<and> length ref \<le> 512)"
  shows "wpE (process (sql_repository sess) ext i a)
    (\<lambda>u w'. live (fst w') \<and> (\<exists>j' ref. stored rows (fst w') i = Some j' \<and> j_status j' = SUCCESS \<and> fits_table j' \<and>
       j_attempts j' = j_attempts j + 1 \<and> j_result_ref j' = Some ref \<and> Res ref))
    (\<lambda>e w'. live (fst w') \<and> (\<exists>j'. stored rows (fst w') i = Some j' \<and> j_status j' = RUNNING \<and> fits_table j' \<and>
       j_attempts j' = j_attempts j + 1) \<and> Err e) (d, x)"
    (is "wpE _ ?Q ?E _")
proof -
  let ?j1 = "j\<lparr>j_status := RUNNING, j_updated_at := fst (utcnow ext x), j_attempts := j_attempts j + 1, j_error := None\<rparr>"
  have start: "mark_running (fst (utcnow ext x)) j = Inr ?j1" using row(2) by (simp add: mark_running_Inr)
  have f1: "fits_table ?j1" using fit by (simp add: row_fits_to_row fits_def)
  have finish: "wpE (finish_job (sql_repository sess) ext ?j1 st ref) ?Q ?E (d2, y)"
    if up: "live d2" "stored rows d2 i = Some ?j1" "j_id ?j1 = i" and ref: "Res ref" "length ref \<le> 512"
      and st: "st = fst (monotonic ext x0)" for d2 y st ref x0
  proof -
    let ?ms = "elapsed_ms st (fst (monotonic ext y))" and ?now = "fst (utcnow ext (snd (monotonic ext y)))"
    let ?j2 = "?j1\<lparr>j_status := SUCCESS, j_updated_at := ?now, j_result_ref := Some ref, j_duration_ms := Some ?ms\<rparr>"
    have "mark_success ref (Some ?ms) ?now ?j1 = Inr ?j2" by (simp add: mark_success_Inr)
    moreover have "int4 ?ms" using ms st by simp
    then have "fits_table ?j2" using f1 ref by (simp add: row_fits_to_row fits_def)
    ultimately show ?thesis
      unfolding finish_job_def wp_world
      using up ref(1) by (auto intro!: wpE_mono [OF wp_update_up] simp: wp)
  qed
  have pipe: "wpE (on_snd (run_pipeline ext ?j1)) (\<lambda>ref. wpE (finish_job (sql_repository sess) ext ?j1 st ref) ?Q ?E) ?E (d2, y)"
    if up: "live d2" "stored rows d2 i = Some ?j1" "j_id ?j1 = i" and st: "st = fst (monotonic ext x0)" for d2 y st x0
    unfolding wp_on_snd
  proof (rule wpE_I)
    fix ref y' assume "run_pipeline ext ?j1 (snd (d2, y)) = (Inr ref, y')"
    from pipeline [OF _ _ _ this] have "Res ref" "length ref \<le> 512" by simp_all
    then show "wpE (finish_job (sql_repository sess) ext ?j1 st ref) ?Q ?E (fst (d2, y), y')"
      using finish [OF up] st by simp
  next
    fix e y' assume "run_pipeline ext ?j1 (snd (d2, y)) = (Inl e, y')"
    from pipeline [OF _ _ _ this] have "Err e" by simp
    with up f1 show "?E e (fst (d2, y), y')" by auto
  qed
  have started: "wpE (start_job (sql_repository sess) ext j)
      (\<lambda>job. wpE (on_snd (read_clock (monotonic ext))) (\<lambda>st. wpE (on_snd (run_pipeline ext job))
        (\<lambda>ref. wpE (finish_job (sql_repository sess) ext job st ref) ?Q ?E) ?E) ?E) ?E (d1, x)"
    if up: "live d1" "stored rows d1 i = Some j" "j_id j = i" for d1
    unfolding start_job_def wp_world fst_conv snd_conv start sum.case sql_repository_simps
    by (rule wpE_mono [OF wp_update_up]) (use up f1 pipe in \<open>auto simp: wp_world\<close>)
  have "\<not> is_terminal j" using row(2) by (simp add: is_terminal_iff)
  then show ?thesis
    unfolding process_def wp_bind [of "on_fst m" for m] wp_on_fst fst_conv snd_conv
    by (intro wpE_mono [OF wp_load_up [OF assms(1) row(1)]]) (use row started in \<open>auto simp: wp\<close>)
qed

lemma wp_process_up:
  assumes "live d" and row: "stored rows d i = Some j" "j_status j = PENDING"
    and fit: "fits_table j" "int4 (j_attempts j + 1)" and "within_columns ext n"
  shows "wpE (process (sql_repository sess) ext i a)
    (\<lambda>u w'. live (fst w') \<and> (\<exists>j'. stored rows (fst w') i = Some j' \<and> j_status j' = SUCCESS \<and> fits_table j' \<and>
       j_attempts j' = j_attempts j + 1))
    (\<lambda>e w'. live (fst w') \<and> (\<exists>j'. stored rows (fst w') i = Some j' \<and> j_status j' = RUNNING \<and> fits_table j' \<and>
       j_attempts j' = j_attempts j + 1 \<and>
       (\<forall>m. m_attempt m \<in> {1..n} \<longrightarrow> length (snd (failure_texts m e)) \<le> 2048))) (d, x)"
  by (rule wpE_mono [OF wp_process_outcome [OF assms(1-5), where ext = ext and Res = "\<lambda>ref. True" and
        Err = "\<lambda>e. \<forall>m. m_attempt m \<in> {1..n} \<longrightarrow> length (snd (failure_texts m e)) \<le> 2048"]])
    (use assms(6) in \<open>auto simp: within_columns_def split: sum.split, blast\<close>)

lemma wp_requeue_up:
  assumes "live d" and "stored rows d (m_job_id m) = Some j" "j_status j = RUNNING" "fits_table j"
  shows "wpE (requeue_row (build_consumer R sess bs ext name) m)
    (\<lambda>u w'. live (fst w') \<and> (\<exists>j'. stored rows (fst w') (m_job_id m) = Some j' \<and> j_status j' = PENDING \<and>
       fits_table j' \<and> j_attempts j' = j_attempts j)) (\<lambda>e w'. False) (d, x)"
proof -
  let ?j' = "j\<lparr>j_status := PENDING, j_updated_at := fst (utcnow ext x)\<rparr>"
  have "requeue (fst (utcnow ext x)) j = Inr ?j'" using assms(3) by (simp add: requeue_Inr)
  moreover have "fits_table ?j'" using assms(4) by (simp add: row_fits_to_row)
  ultimately show ?thesis
    unfolding requeue_row_def wp_world build_consumer_simps fst_conv snd_conv
    by (intro wpE_mono [OF wp_load_up [OF assms(1,2)]])
       (use assms(2) in \<open>auto simp: wp_world intro!: wpE_mono [OF wp_update_up]\<close>)
qed

lemma wp_mark_failed_up:
  assumes "live d" and "stored rows d (m_job_id m) = Some j" "j_status j = RUNNING" "fits_table j"
    and "length err \<le> 2048"
  shows "wpE (mark_failed_row (build_consumer R sess bs ext name) m err)
    (\<lambda>u w'. live (fst w') \<and> (\<exists>j'. stored rows (fst w') (m_job_id m) = Some j' \<and> j_status j' = FAILED \<and> fits_table j' \<and>
       j_attempts j' = j_attempts j))
    (\<lambda>e w'. False) (d, x)"
proof -
  let ?j' = "j\<lparr>j_status := FAILED, j_updated_at := fst (utcnow ext x), j_error := Some err\<rparr>"
  have "mark_failed err None (fst (utcnow ext x)) j = Inr ?j'" using assms(3) by (simp add: mark_failed_Inr)
  moreover have "fits_table ?j'" using assms(4,5) by (simp add: row_fits_to_row fits_def)
  ultimately show ?thesis
    unfolding mark_failed_row_def wp_world build_consumer_simps fst_conv snd_conv
    by (intro wpE_mono [OF wp_load_up [OF assms(1,2)]])
       (use assms(2) in \<open>auto simp: wp_world intro!: wpE_mono [OF wp_update_up]\<close>)
qed

text \<open>The commands on Redis.\<close>

lemma wp_prod_xadd_up:
  assumes "up q"
  shows "wpE (prod_xadd (producer_init R keys bs) stream fs)
    (\<lambda>t q'. up q' \<and> elog q' = elog q @ [Added stream fs]) (\<lambda>e q'. False) q"
proof -
  obtain n t q' where x: "xadd R stream fs (bs_maxlen bs) True q = (Inr n, q')" "as_str n = Inr t" "up q'"
    using xadd_up [OF assms] by blast
  then have "prod_xadd (producer_init R keys bs) stream fs q = (Inr t, q')"
    by (simp add: prod_xadd_def producer_init_def eff_defs del: as_str.simps)
  with x(3) wp_prod_xadd [of "producer_init R keys bs" stream fs q] show ?thesis
    by (simp add: wpE_def producer_init_def)
qed

lemma wp_ack_up:
  assumes "up q"
  shows "wpE (ack (build_consumer R sess bs ext name) i) (\<lambda>u q'. up q') (\<lambda>e q'. False) q"
proof -
  obtain n q' where "xack R (bs_stream bs) (bs_group bs) i q = (Inr n, q')" "up q'"
    using xack_up [OF assms] by blast
  then show ?thesis by (simp add: ack_def wpE_def eff_defs keys_from_settings_def)
qed

text \<open>One delivery of a pending job's pointer: it settles the job, or publishes the next attempt of it.\<close>

lemma wp_route_failure_up:
  assumes "up q" and "live d" and row: "stored rows d (m_job_id m) = Some j" "j_status j = RUNNING" "fits_table j"
    and "m_attempt m \<in> {1..bs_max_attempts bs}"
    and err: "length (snd (failure_texts m e)) \<le> 2048"
  shows "wpE (route_failure (build_consumer R sess bs ext name) i m e)
    (\<lambda>u w'. up (fst w') \<and> live (fst (snd w')) \<and>
       (\<exists>j'. stored rows (fst (snd w')) (m_job_id m) = Some j' \<and> fits_table j' \<and> j_attempts j' = j_attempts j \<and>
          (is_terminal j' \<or> j_status j' = PENDING \<and> m_attempt m < bs_max_attempts bs)))
    (\<lambda>e w'. False) (q, (d, x))"
proof (cases "is_transient e \<and> m_attempt m < bs_max_attempts bs")
  case False
  then have dead: "route_failure (build_consumer R sess bs ext name) i m e =
      bindE (on_fst (route_to_dlq (build_consumer R sess bs ext name) i m (fst (failure_texts m e))))
        (\<lambda>u. on_snd (mark_failed_row (build_consumer R sess bs ext name) m (snd (failure_texts m e))))"
    by (intro route_failure_dead) simp
  show ?thesis
    unfolding dead wp wp_on_fst wp_on_snd route_to_dlq_def dead_letter_def build_consumer_simps fst_conv
    by (rule wpE_mono [OF wp_prod_xadd_up [OF assms(1)]], rule wpE_mono [OF wp_ack_up])
       (auto simp: is_terminal_iff intro!: wpE_mono [OF wp_mark_failed_up [OF assms(2) row err]])
next
  case True
  then have room: "\<not> bs_max_attempts bs \<le> m_attempt m" by simp
  show ?thesis
    unfolding route_failure_retry [OF conjunct1 [OF True]] on_transient_def build_consumer_simps if_not_P [OF room] wp
      wp_on_snd [of "requeue_row c m" for c] snd_conv
    by (rule wpE_mono [OF wp_requeue_up [OF assms(2) row]])
       (use True assms(1) in \<open>auto simp: wp_on_fst republish_def intro!: wpE_mono [OF wp_prod_xadd_up] wpE_mono [OF wp_ack_up]\<close>)
qed

lemma wp_guard_up:
  assumes "live d" and "stored rows d (m_job_id m) = Some j" "j_status j = PENDING"
  shows "wpE (already_terminal (build_consumer R sess bs ext name) m)
    (\<lambda>t d'. \<not> t \<and> live d' \<and> stored rows d' = stored rows d) (\<lambda>e d'. False) d"
  unfolding already_terminal_def wp build_consumer_simps
  by (rule wpE_mono [OF wp_load_up [OF assms(1,2)]]) (use assms(2,3) in \<open>auto simp: wp is_terminal_iff\<close>)

lemma wp_route_up:
  assumes "up q" and "live d" and row: "stored rows d (m_job_id m) = Some j" "j_status j = PENDING"
    and fit: "fits_table j" "int4 (j_attempts j + 1)" and "within_columns ext (bs_max_attempts bs)"
    and "m_attempt m \<in> {1..bs_max_attempts bs}"
  shows "wpE (route (build_consumer R sess bs ext name) i m)
    (\<lambda>u w'. up (fst w') \<and> live (fst (snd w')) \<and>
       (\<exists>j'. stored rows (fst (snd w')) (m_job_id m) = Some j' \<and> fits_table j' \<and> j_attempts j' = j_attempts j + 1 \<and>
          (is_terminal j' \<or> j_status j' = PENDING \<and> m_attempt m < bs_max_attempts bs)))
    (\<lambda>e w'. False) (q, (d, x))"
    (is "wpE _ ?Q _ _")
proof -
  let ?c = "build_consumer R sess bs ext name"
  have run: "wpE (tryElse (on_snd (co_process ?c m)) (route_failure ?c i m) (\<lambda>u. on_fst (ack ?c i))) ?Q (\<lambda>e w'. False) (q, (d', x))"
    if d': "live d'" "stored rows d' = stored rows d" for d'
    unfolding wp wp_on_snd build_consumer_simps processor_call_def snd_conv
  proof (rule wpE_mono [OF wp_process_up [OF d'(1) _ row(2) fit assms(7)]])
    show "stored rows d' (m_job_id m) = Some j" using d' row by simp
  next
    fix u and p :: "'d \<times> 'a"
    assume "live (fst p) \<and> (\<exists>j'. stored rows (fst p) (m_job_id m) = Some j' \<and> j_status j' = SUCCESS \<and> fits_table j' \<and>
      j_attempts j' = j_attempts j + 1)"
    then show "wpE (on_fst (ack ?c i)) ?Q (\<lambda>e w'. False) (fst (q, (d', x)), p)"
      using assms(1) by (auto simp: wp_on_fst is_terminal_iff intro!: wpE_mono [OF wp_ack_up])
  next
    fix e and p :: "'d \<times> 'a"
    assume e: "live (fst p) \<and> (\<exists>j'. stored rows (fst p) (m_job_id m) = Some j' \<and> j_status j' = RUNNING \<and> fits_table j' \<and>
      j_attempts j' = j_attempts j + 1 \<and>
      (\<forall>m. m_attempt m \<in> {1..bs_max_attempts bs} \<longrightarrow> length (snd (failure_texts m e)) \<le> 2048))"
    then obtain j1 where j1: "stored rows (fst p) (m_job_id m) = Some j1" "j_status j1 = RUNNING" "fits_table j1"
      "j_attempts j1 = j_attempts j + 1" and t: "length (snd (failure_texts m e)) \<le> 2048" using assms(8) by blast
    from wp_route_failure_up [OF assms(1) conjunct1 [OF e] j1(1-3) assms(8) t, of ext name i "snd p"]
    show "wpE (route_failure ?c i m e) ?Q (\<lambda>e w'. False) (fst (q, (d', x)), p)"
      by (simp add: j1(4))
  qed
  show ?thesis
    unfolding route_def wp_bind wp_on_snd [of "on_fst m" for m] wp_on_fst [of "already_terminal c m" for c m] fst_conv snd_conv
    by (rule wpE_mono [OF wp_guard_up [OF assms(2) row]]) (use run in auto)
qed

text \<open>A delivery whose pipeline returns ends with the job's success.\<close>

lemma wp_route_success:
  assumes "up q" and "live d" and row: "stored rows d (m_job_id m) = Some j" "j_status j = PENDING"
    and fit: "fits_table j" "int4 (j_attempts j + 1)"
    and ms: "\<And>x y. int4 (elapsed_ms (fst (monotonic ext x)) (fst (monotonic ext y)))"
    and pipeline: "\<And>job x r y. j_type job = j_type j \<Longrightarrow> j_id job = j_id j \<Longrightarrow> j_payload job = j_payload j \<Longrightarrow>
      run_pipeline ext job x = (r, y) \<Longrightarrow> r = Inr ref" and "length ref \<le> 512"
  shows "wpE (route (build_consumer R sess bs ext name) i m)
    (\<lambda>u w'. up (fst w') \<and> live (fst (snd w')) \<and>
       (\<exists>j'. stored rows (fst (snd w')) (m_job_id m) = Some j' \<and> j_status j' = SUCCESS \<and> j_result_ref j' = Some ref \<and>
          j_attempts j' = j_attempts j + 1))
    (\<lambda>e w'. False) (q, (d, x))"
    (is "wpE _ ?Q _ _")
proof -
  let ?c = "build_consumer R sess bs ext name"
  have run: "wpE (tryElse (on_snd (co_process ?c m)) (route_failure ?c i m) (\<lambda>u. on_fst (ack ?c i))) ?Q (\<lambda>e w'. False) (q, (d', x))"
    if d': "live d'" "stored rows d' = stored rows d" for d'
  proof -
    have row': "stored rows d' (m_job_id m) = Some j" using d' row by simp
    have p: "case r of Inl e \<Rightarrow> False | Inr y \<Rightarrow> y = ref \<and> length y \<le> 512"
      if "j_type job = j_type j" "j_id job = j_id j" "j_payload job = j_payload j" "run_pipeline ext job x = (r, y)" for job x r y
      using pipeline [OF that] assms(9) by simp
    show ?thesis
      unfolding wp wp_on_snd build_consumer_simps processor_call_def snd_conv
      by (rule wpE_mono [OF wp_process_outcome [OF d'(1) row' row(2) fit ms p]])
        (use assms(1) in \<open>auto simp: wp_on_fst intro!: wpE_mono [OF wp_ack_up]\<close>)
  qed
  show ?thesis
    unfolding route_def wp_bind wp_on_snd [of "on_fst m" for m] wp_on_fst [of "already_terminal c m" for c m] fst_conv snd_conv
    by (rule wpE_mono [OF wp_guard_up [OF assms(2) row]]) (use run in auto)
qed

end

subsection \<open>The deliveries of a job\<close>

text \<open>
  A schedule of deliveries: each with what the rest of the system does before it (\<open>env\<close>), the worker, and the
  entry's id.  It ends when the job has settled, and otherwise goes on with the pointer that was republished.
\<close>

fun deliveries ::
  "('d \<Rightarrow> uuid \<rightharpoonup> inference_job) \<Rightarrow>
   (('r \<times> 'd \<times> 'x \<Rightarrow> 'r \<times> 'd \<times> 'x) \<times> ('r, 'd, 'x) consumer \<times> wire) list \<Rightarrow> job_message \<Rightarrow>
   ('r \<times> 'd \<times> 'x, unit) io" where
  "deliveries jobs [] m = ret ()"
| "deliveries jobs ((env, c, i) # ds) m =
     bindE (modifyE env) (\<lambda>u.
     bindE (route c i m) (\<lambda>u.
     bindE (getE (\<lambda>w. settled_in (jobs (fst (snd w))) (m_job_id m))) (\<lambda>settled.
     if settled then ret () else deliveries jobs ds (next_attempt m))))"

text \<open>What the rest of the system may do: anything that keeps the services answering and the job's row.\<close>

definition leaves_row ::
  "('r \<Rightarrow> bool) \<Rightarrow> ('d \<Rightarrow> bool) \<Rightarrow> ('d \<Rightarrow> uuid \<rightharpoonup> inference_job) \<Rightarrow> uuid \<Rightarrow>
   ('r \<times> 'd \<times> 'x \<Rightarrow> 'r \<times> 'd \<times> 'x) \<Rightarrow> bool" where
  "leaves_row up live jobs jid env \<longleftrightarrow>
     (\<forall>w. up (fst w) \<longrightarrow> live (fst (snd w)) \<longrightarrow>
        up (fst (env w)) \<and> live (fst (snd (env w))) \<and> jobs (fst (snd (env w))) jid = jobs (fst (snd w)) jid)"

context services_up
begin

lemma deliveries_settle:
  assumes "\<forall>(env, c, i) \<in> set ds. leaves_row up live (stored rows) (m_job_id m) env \<and>
      (\<exists>ext name. c = build_consumer R sess bs ext name \<and> within_columns ext (bs_max_attempts bs))"
    and "up (fst w)" and "live (fst (snd w))"
    and "stored rows (fst (snd w)) (m_job_id m) = Some j" and "j_status j = PENDING" and "fits_table j"
    and "m_attempt m \<in> {1..bs_max_attempts bs}" and "bs_max_attempts bs - m_attempt m < int (length ds)"
    and "int4 (j_attempts j)" and "int4 (j_attempts j + int (length ds))"
  shows "wpE (deliveries (stored rows) ds m)
    (\<lambda>u w'. \<exists>j'. stored rows (fst (snd w')) (m_job_id m) = Some j' \<and> is_terminal j' \<and>
       j_attempts j < j_attempts j' \<and> j_attempts j' \<le> j_attempts j + (bs_max_attempts bs - m_attempt m) + 1)
    (\<lambda>e w'. False) w"
  using assms
proof (induction ds arbitrary: m w j)
  case (Cons dl ds)
  obtain env c i where dl: "dl = (env, c, i)" by (cases dl)
  with Cons.prems(1) have env: "leaves_row up live (stored rows) (m_job_id m) env"
    and c: "\<exists>ext name. c = build_consumer R sess bs ext name \<and> within_columns ext (bs_max_attempts bs)" by auto
  from c obtain ext name where c: "c = build_consumer R sess bs ext name" "within_columns ext (bs_max_attempts bs)" by blast
  obtain q d x where w: "env w = (q, (d, x))" by (cases "env w")
  have here: "up q" "live d" "stored rows d (m_job_id m) = Some j"
    using env Cons.prems(2-4) w unfolding leaves_row_def by (metis fst_conv snd_conv)+
  have int: "int4 (j_attempts j + 1)" using Cons.prems(9,10) by (simp add: int4_def)
  show ?case
    unfolding dl deliveries.simps wp w c(1)
  proof (rule wpE_mono [OF wp_route_up [OF here Cons.prems(5,6) int c(2) Cons.prems(7)]])
    fix u and w1 :: "'r \<times> 'd \<times> 'a"
    assume "up (fst w1) \<and> live (fst (snd w1)) \<and>
       (\<exists>j'. stored rows (fst (snd w1)) (m_job_id m) = Some j' \<and> fits_table j' \<and> j_attempts j' = j_attempts j + 1 \<and>
          (is_terminal j' \<or> j_status j' = PENDING \<and> m_attempt m < bs_max_attempts bs))"
    then obtain j' where h: "up (fst w1)" "live (fst (snd w1))" "stored rows (fst (snd w1)) (m_job_id m) = Some j'"
      "fits_table j'" "j_attempts j' = j_attempts j + 1"
      "is_terminal j' \<or> j_status j' = PENDING \<and> m_attempt m < bs_max_attempts bs" by blast
    let ?Q = "\<lambda>u w'. \<exists>j'. stored rows (fst (snd w')) (m_job_id m) = Some j' \<and> is_terminal j' \<and>
       j_attempts j < j_attempts j' \<and> j_attempts j' \<le> j_attempts j + (bs_max_attempts bs - m_attempt m) + 1"
    show "wpE (if settled_in (stored rows (fst (snd w1))) (m_job_id m) then ret () else deliveries (stored rows) ds (next_attempt m))
        ?Q (\<lambda>e w'. False) w1"
    proof (cases "is_terminal j'")
      case True
      then show ?thesis using h Cons.prems(7) by (simp add: settled_in_def wp)
    next
      case False
      with h have st: "j_status j' = PENDING" "m_attempt m < bs_max_attempts bs" by auto
      have "wpE (deliveries (stored rows) ds (next_attempt m))
          (\<lambda>u w'. \<exists>j''. stored rows (fst (snd w')) (m_job_id (next_attempt m)) = Some j'' \<and> is_terminal j'' \<and>
            j_attempts j' < j_attempts j'' \<and>
            j_attempts j'' \<le> j_attempts j' + (bs_max_attempts bs - m_attempt (next_attempt m)) + 1)
          (\<lambda>e w'. False) w1"
        using Cons.prems(1,7,8,10) h st int by (intro Cons.IH) (auto simp: ac_simps)
      then show ?thesis using False h by (auto simp: settled_in_def elim!: wpE_mono)
    qed
  qed simp
qed simp

end

subsection \<open>Properties\<close>


text \<open>A pipeline that is overloaded twice and then answers; the default settings allow three attempts.\<close>

definition flaky_world :: "unit externals" where
  "flaky_world =
     \<lparr>utcnow = (\<lambda>x. (5, x)), monotonic = (\<lambda>x. (0, x)),
      PIPELINES = (\<lambda>ty job. if j_attempts job < 3 then raiseE (TransientUpstreamError ''503'' None) else ret ''s3://b/k'')\<rparr>"

lemma flaky_within: "within_columns flaky_world 3"
proof -
  have "length (snd (failure_texts m (TransientUpstreamError ''503'' None))) \<le> 2048" if "m_attempt m \<in> {1..3}" for m
  proof -
    from that consider "m_attempt m = 1" | "m_attempt m = 2" | "m_attempt m = 3" by fastforce
    moreover have "length (py_str_int 1) = 1" "length (py_str_int 2) = 1" "length (py_str_int 3) = 1" by code_simp+
    ultimately show ?thesis by cases (simp_all add: failure_texts_def)
  qed
  moreover have "int4 (elapsed_ms 0 0)" by (simp add: elapsed_ms_def int4_def)
  ultimately show ?thesis
    by (auto simp: within_columns_def flaky_world_def run_pipeline_def eff_defs split: if_splits sum.splits)
qed


end
