(* ===== verification/WorkerLoop.thy ===== *)
theory WorkerLoop
  imports Consumer
begin

section \<open>The worker's loop (\<open>broker/consumer.py\<close>, \<open>worker/runner.py\<close>)\<close>

text \<open>
  \<open>run\<close> makes passes until the stop event is set and then drains the running tasks.  The event belongs to the rest of
  the world (\<open>stop\<close> reads it): signal handlers are callbacks of the event loop, so it is set, like every step of
  a task, while the loop awaits.  \<open>passes\<close> and what is built on it take the number of passes as fuel, and are
  \<open>None\<close> as long as they are too few; a loop that is \<open>None\<close> for every number never returns.

  A pass awaits something unless the consumer is saturated (no free capacity): then it ends at once, and an
  \<open>await\<close> of a coroutine that does not suspend gives nothing else a turn.
\<close>

subsection \<open>The loop, and its end\<close>

definition stopped :: "('x \<Rightarrow> bool) \<Rightarrow> ('r, 'd, 'x) cstate \<Rightarrow> bool" where
  "stopped stop s = stop (snd (snd (cs_world s)))"

definition consumer_start :: "('r, 'd, 'x) consumer \<Rightarrow> (('r, 'd, 'x) cstate, unit) io" where
  "consumer_start c = on_redis (ensure_group (co_redis c) (co_keys c))"

definition one_pass ::
  "('r, 'd, 'x) consumer \<Rightarrow> (('r, 'd, 'x) cstate \<Rightarrow> ('r, 'd, 'x) cstate) \<Rightarrow> (('r, 'd, 'x) cstate, unit) io" where
  "one_pass c sw =
     tryE (bindE (consume_once c sw (Some (co_block_ms c))) (\<lambda>n. ret ())) (\<lambda>exc. modifyE sw)"

primrec passes ::
  "('r, 'd, 'x) consumer \<Rightarrow> ('x \<Rightarrow> bool) \<Rightarrow> (('r, 'd, 'x) cstate \<Rightarrow> ('r, 'd, 'x) cstate) \<Rightarrow> nat \<Rightarrow>
   (exn, ('r, 'd, 'x) cstate, unit) run" where
  "passes c stop sw 0 s = (if stopped stop s then Some (Inr (), s) else None)"
| "passes c stop sw (Suc n) s =
     (if stopped stop s then Some (Inr (), s) else run_after (one_pass c sw) (\<lambda>u. passes c stop sw n) s)"

definition drain :: "('r, 'd, 'x) consumer \<Rightarrow> ('r, 'd, 'x) cstate \<Rightarrow> ('r, 'd, 'x) cstate" where
  "drain c s = fold (finish_task c) (cs_in_flight s) s"

definition run_consumer ::
  "('r, 'd, 'x) consumer \<Rightarrow> ('x \<Rightarrow> bool) \<Rightarrow> (('r, 'd, 'x) cstate \<Rightarrow> ('r, 'd, 'x) cstate) \<Rightarrow> nat \<Rightarrow>
   (exn, ('r, 'd, 'x) cstate, unit) run" where
  "run_consumer c stop sw n = run_finally (passes c stop sw n) (drain c)"

text \<open>\<open>run_worker\<close> of \<open>worker/runner.py\<close>: the group first, then the loop.\<close>

definition run_worker ::
  "('r, 'd, 'x) consumer \<Rightarrow> ('x \<Rightarrow> bool) \<Rightarrow> (('r, 'd, 'x) cstate \<Rightarrow> ('r, 'd, 'x) cstate) \<Rightarrow> nat \<Rightarrow>
   (exn, ('r, 'd, 'x) cstate, unit) run" where
  "run_worker c stop sw n = run_after (consumer_start c) (\<lambda>u. run_consumer c stop sw n)"

subsection \<open>What the properties speak about\<close>

definition saturated :: "('r, 'd, 'x) consumer \<Rightarrow> ('r, 'd, 'x) cstate \<Rightarrow> bool" where
  "saturated c s \<longleftrightarrow> free_capacity c s \<le> 0"

text \<open>The state after a pass, and after \<open>k\<close> of them.\<close>

definition pass_state ::
  "('r, 'd, 'x) consumer \<Rightarrow> (('r, 'd, 'x) cstate \<Rightarrow> ('r, 'd, 'x) cstate) \<Rightarrow> ('r, 'd, 'x) cstate \<Rightarrow> ('r, 'd, 'x) cstate" where
  "pass_state c sw s = snd (one_pass c sw s)"

text \<open>Some pass leaves the consumer saturated, with the stop event not set.\<close>

definition gets_stuck ::
  "('r, 'd, 'x) consumer \<Rightarrow> ('x \<Rightarrow> bool) \<Rightarrow> (('r, 'd, 'x) cstate \<Rightarrow> ('r, 'd, 'x) cstate) \<Rightarrow> ('r, 'd, 'x) cstate \<Rightarrow> bool" where
  "gets_stuck c stop sw s \<longleftrightarrow>
     (\<exists>k. saturated c ((pass_state c sw ^^ k) s) \<and> \<not> stopped stop ((pass_state c sw ^^ k) s))"

text \<open>A stop signal is on its way: every await of the loop brings it nearer (\<open>ticks\<close>), and it stays once it is there.\<close>

definition signal_due ::
  "('x \<Rightarrow> bool) \<Rightarrow> ('x \<Rightarrow> nat) \<Rightarrow> (('r, 'd, 'x) cstate \<Rightarrow> ('r, 'd, 'x) cstate) \<Rightarrow> bool" where
  "signal_due stop ticks sw \<longleftrightarrow>
     (\<forall>s. stopped stop (sw s) \<or>
        \<not> stopped stop s \<and> ticks (snd (snd (cs_world (sw s)))) < ticks (snd (snd (cs_world s))))"

subsection \<open>Lemmas\<close>

text \<open>
  The loop's own code changes only Redis and the bookkeeping, so what its awaits keep of the rest, the whole pass keeps.  A
  pass that is not saturated begins with an await.
\<close>

definition rest_holds :: "('d \<times> 'x \<Rightarrow> bool) \<Rightarrow> ('r, 'd, 'x) cstate \<Rightarrow> bool" where
  "rest_holds I s \<longleftrightarrow> I (snd (cs_world s))"

lemma rest_holds_frame [simp]:
  "rest_holds I (s\<lparr>cs_world := (q, snd (cs_world s))\<rparr>) = rest_holds I s"
  "rest_holds I (s\<lparr>cs_reclaim_cursor := v\<rparr>) = rest_holds I s"
  by (simp_all add: rest_holds_def)

definition rest_kept :: "(('r, 'd, 'x) cstate \<Rightarrow> ('r, 'd, 'x) cstate) \<Rightarrow> ('d \<times> 'x \<Rightarrow> bool) \<Rightarrow> bool" where
  "rest_kept sw I \<longleftrightarrow> (\<forall>s. rest_holds I s \<longrightarrow> rest_holds I (sw s))"

lemma wp_awaiting_rest:
  assumes "rest_kept sw I" and "rest_holds I (sw s)"
    and "\<And>x s'. rest_holds I s' \<Longrightarrow> Q x s'" and "\<And>e s'. rest_holds I s' \<Longrightarrow> E e s'"
  shows "wpE (awaiting sw (on_redis m)) Q E s"
  unfolding wp_awaiting wp_on_redis
  using assms(1,2) by (intro wpE_I assms(3,4)) (simp_all add: rest_kept_def)

lemma wp_dispatch_rest: "rest_holds I s \<Longrightarrow> wpE (dispatch i wfs) (\<lambda>u. rest_holds I) (\<lambda>e. rest_holds I) s"
  by (simp add: dispatch_def wp rest_holds_def split: sum.split)

lemma wp_for_rest:
  assumes "\<And>x s. rest_holds I s \<Longrightarrow> wpE (f x) (\<lambda>u. rest_holds I) (\<lambda>e. rest_holds I) s"
  shows "rest_holds I s \<Longrightarrow> wpE (forE xs f) (\<lambda>u. rest_holds I) (\<lambda>e. rest_holds I) s"
proof (induction xs arbitrary: s)
  case (Cons x xs)
  from assms [OF Cons.prems, of x] show ?case
    unfolding forE.simps wp by (rule wpE_mono) (rule Cons.IH)
qed (simp add: wp)

lemma wp_handle_reclaimed_rest:
  assumes "rest_kept sw I" and "rest_holds I s"
  shows "wpE (handle_reclaimed c sw i wfs) (\<lambda>u. rest_holds I) (\<lambda>e. rest_holds I) s"
proof -
  have sw: "rest_holds I s' \<Longrightarrow> rest_holds I (sw s')" for s' using assms(1) by (simp add: rest_kept_def)
  have dlq: "wpE (bindE (liftE (from_fields wfs)) (\<lambda>m. awaiting sw (on_redis (route_to_dlq c i m (f m)))))
      (\<lambda>u. rest_holds I) (\<lambda>e. rest_holds I) s'" if "rest_holds I s'" for s' f
    using that by (auto simp: wp split: sum.split intro!: wp_awaiting_rest [OF assms(1)] sw)
  have count: "wpE (delivery_count c sw i) (\<lambda>n. rest_holds I) (\<lambda>e. rest_holds I) s"
    using assms(2) by (auto simp: delivery_count_def wp split: sum.split intro!: wp_awaiting_rest [OF assms(1)] sw)
  show ?thesis
    unfolding handle_reclaimed_def wp_bind [of "liftE x" for x] wp_bind [of "getE x" for x] wp_lift wp_getE
    by (auto simp: assms(2) wp_ret wp_bind [of "delivery_count c sw i"] dlq wp_dispatch_rest split: sum.split
        intro!: wpE_mono [OF count])
qed

definition first_await :: "('r, 'd, 'x) consumer \<Rightarrow> (('r, 'd, 'x) cstate \<Rightarrow> ('r, 'd, 'x) cstate) \<Rightarrow> ('r, 'd, 'x) cstate \<Rightarrow> ('r, 'd, 'x) cstate" where
  "first_await c sw s = (if saturated c s then s else sw s)"

lemma wp_reclaim_rest:
  assumes "rest_kept sw I" and "rest_holds I (first_await c sw s)"
  shows "wpE (reclaim_orphans c sw) (\<lambda>u. rest_holds I) (\<lambda>e. rest_holds I) s"
proof (cases "saturated c s")
  case True
  with assms(2) show ?thesis by (simp add: reclaim_orphans_def wp first_await_def saturated_def)
next
  case False
  have loop: "rest_holds I s' \<Longrightarrow>
      wpE (forE es (\<lambda>(i, wfs). handle_reclaimed c sw i wfs)) (\<lambda>u. rest_holds I) (\<lambda>e. rest_holds I) s'" for es s'
    by (rule wp_for_rest) (simp_all add: wp_handle_reclaimed_rest [OF assms(1)] split_beta)
  show ?thesis
    unfolding reclaim_orphans_def wp_bind [of "getE f" for f] wp_getE prod.case
      wp_bind [of "awaiting sw m" for m] if_not_P [OF False [unfolded saturated_def]]
  proof (rule wp_awaiting_rest [OF assms(1)], goal_cases)
    case 1
    from False assms(2) show ?case by (simp add: first_await_def)
  next
    case (2 x s')
    then show ?case by (cases x) (auto simp: wp loop split: sum.split)
  qed
qed

lemma wp_consume_once_rest:
  assumes "rest_kept sw I" and "rest_holds I (first_await c sw s)"
  shows "wpE (consume_once c sw block) (\<lambda>n. rest_holds I) (\<lambda>e. rest_holds I) s"
proof -
  have sw: "rest_holds I s' \<Longrightarrow> rest_holds I (sw s')" for s' using assms(1) by (simp add: rest_kept_def)
  have loop: "rest_holds I s' \<Longrightarrow>
      wpE (forE es (\<lambda>(i, wfs). dispatch i wfs)) (\<lambda>u. rest_holds I) (\<lambda>e. rest_holds I) s'"
    for es s'
    by (rule wp_for_rest) (simp_all add: wp_dispatch_rest split_beta)
  show ?thesis
    unfolding consume_once_def Let_def wp_bind [of "reclaim_orphans c sw"]
  proof (rule wpE_mono [OF wp_reclaim_rest [OF assms]], goal_cases)
    case (1 u s1)
    then show ?case
      by (auto simp: wp read_new_def loop intro!: wp_awaiting_rest [OF assms(1)] sw)
  qed
qed


lemma one_pass_cases:
  assumes "one_pass c sw s = (r, s')"
  obtains n where "consume_once c sw (Some (co_block_ms c)) s = (Inr n, s')" and "r = Inr ()"
  | e s1 where "consume_once c sw (Some (co_block_ms c)) s = (Inl e, s1)" and "s' = sw s1" and "r = Inr ()"
  using assms
  by (cases "consume_once c sw (Some (co_block_ms c)) s")
    (auto simp: one_pass_def tryE_def bindE_def modifyE_def ret_def split: sum.splits)

lemma one_pass_returns: "one_pass c sw s = (Inr (), pass_state c sw s)"
  by (cases "consume_once c sw (Some (co_block_ms c)) s")
    (simp add: pass_state_def one_pass_def tryE_def bindE_def modifyE_def ret_def split: sum.splits)

lemma passes_Suc: "passes c stop sw (Suc n) s = (if stopped stop s then Some (Inr (), s) else passes c stop sw n (pass_state c sw s))"
  by (simp add: run_after_def one_pass_returns)

lemma passes_stopped: "stopped stop s \<Longrightarrow> passes c stop sw n s = Some (Inr (), s)"
  by (cases n) simp_all

lemma pass_rest:
  assumes "rest_kept sw I" and "rest_holds I (first_await c sw s)"
  shows "rest_holds I (pass_state c sw s)"
proof -
  have keep: "rest_holds I s' \<Longrightarrow> rest_holds I (sw s')" for s' using assms(1) by (simp add: rest_kept_def)
  note pass = wp_consume_once_rest [OF assms, of "Some (co_block_ms c)"]
  show ?thesis
    by (rule one_pass_cases [OF one_pass_returns [of c sw s]]) (use pass keep in \<open>auto simp: wpE_def\<close>)
qed

text \<open>A saturated pass gives nobody a turn, so the loop stays where it is.\<close>

lemma saturated_consume_once: "saturated c s \<Longrightarrow> consume_once c sw block s = (Inr 0, s)"
  by (simp add: saturated_def consume_once_def reclaim_orphans_def eff_defs)

lemma saturated_pass: "saturated c s \<Longrightarrow> pass_state c sw s = s"
  by (simp add: pass_state_def one_pass_def saturated_consume_once eff_defs)

lemma saturated_for_ever: "saturated c s \<Longrightarrow> (pass_state c sw ^^ k) s = s"
  by (induction k) (simp_all add: saturated_pass)

lemma saturated_passes: "saturated c s \<Longrightarrow> \<not> stopped stop s \<Longrightarrow> passes c stop sw n s = None"
  by (induction n) (simp_all del: passes.simps(2) add: passes_Suc saturated_pass)

text \<open>Before that, every pass brings the signal nearer.\<close>

lemma pass_progress:
  assumes "signal_due stop ticks sw" and "\<not> saturated c s" and "\<not> stopped stop s"
  shows "stopped stop (pass_state c sw s) \<or>
    ticks (snd (snd (cs_world (pass_state c sw s)))) < ticks (snd (snd (cs_world s)))"
proof -
  let ?I = "\<lambda>w. stop (snd w) \<or> ticks (snd w) < ticks (snd (snd (cs_world s)))"
  have kept: "rest_kept sw ?I"
    using assms(1) unfolding rest_kept_def rest_holds_def signal_due_def stopped_def by (meson less_trans)
  have "rest_holds ?I (first_await c sw s)"
    using assms unfolding rest_holds_def first_await_def signal_due_def stopped_def by auto
  from pass_rest [OF kept this] show ?thesis by (simp add: rest_holds_def stopped_def)
qed

lemma fold_finish_in_flight:
  "cs_in_flight (fold (finish_task c) ts s) = filter (\<lambda>u. t_id u \<notin> t_id ` set ts) (cs_in_flight s)"
  by (induction ts arbitrary: s) (auto intro: filter_cong)

lemma drain_empties: "cs_in_flight (drain c s) = []"
  by (auto simp: drain_def fold_finish_in_flight filter_empty_conv)

lemma passes_end:
  assumes "signal_due stop ticks sw"
  shows "(\<exists>s'. \<forall>n > ticks (snd (snd (cs_world s))). passes c stop sw n s = Some (Inr (), s')) \<or>
    gets_stuck c stop sw s \<and> (\<forall>n. passes c stop sw n s = None)"
proof (induction "ticks (snd (snd (cs_world s)))" arbitrary: s rule: less_induct)
  case less
  consider (stop) "stopped stop s" | (stuck) "saturated c s" "\<not> stopped stop s"
    | (turn) "\<not> saturated c s" "\<not> stopped stop s" by blast
  then show ?case
  proof cases
    case stop
    then show ?thesis by (simp add: passes_stopped)
  next
    case stuck
    with saturated_passes [OF stuck] show ?thesis unfolding gets_stuck_def by (metis funpow_0)
  next
    case turn
    let ?s = "pass_state c sw s"
    have step: "passes c stop sw (Suc n) s = passes c stop sw n ?s" for n
      using turn(2) by (simp del: passes.simps(2) add: passes_Suc)
    have zero: "passes c stop sw 0 s = None" using turn(2) by simp
    show ?thesis
    proof (cases "stopped stop ?s")
      case True
      with step passes_stopped have "\<forall>n > ticks (snd (snd (cs_world s))). passes c stop sw n s = Some (Inr (), ?s)"
        by (metis gr_implies_not0 not0_implies_Suc)
      then show ?thesis by blast
    next
      case False
      with pass_progress [OF assms turn]
      have near: "ticks (snd (snd (cs_world ?s))) < ticks (snd (snd (cs_world s)))" by blast
      from less [OF this] show ?thesis
      proof (elim disjE exE conjE)
        fix s' assume ends: "\<forall>n > ticks (snd (snd (cs_world ?s))). passes c stop sw n ?s = Some (Inr (), s')"
        have "passes c stop sw n s = Some (Inr (), s')" if "ticks (snd (snd (cs_world s))) < n" for n
          using that near ends step [of "n - 1"] by (cases n) auto
        then show ?thesis by blast
      next
        assume stuck: "gets_stuck c stop sw ?s" "\<forall>n. passes c stop sw n ?s = None"
        then obtain k where "saturated c ((pass_state c sw ^^ k) ?s)" "\<not> stopped stop ((pass_state c sw ^^ k) ?s)"
          unfolding gets_stuck_def by blast
        then have "gets_stuck c stop sw s"
          unfolding gets_stuck_def by (metis funpow_Suc_right comp_apply)
        moreover have "passes c stop sw n s = None" for n
          using stuck(2) step zero by (cases n) simp_all
        ultimately show ?thesis by blast
      qed
    qed
  qed
qed


lemma run_consumer_end:
  assumes "signal_due stop ticks sw"
  shows "(\<exists>s'. cs_in_flight s' = [] \<and>
      (\<forall>n > ticks (snd (snd (cs_world s))). run_consumer c stop sw n s = Some (Inr (), s'))) \<or>
    gets_stuck c stop sw s \<and> (\<forall>n. run_consumer c stop sw n s = None)"
  using passes_end [OF assms, of s c]
proof (elim disjE exE conjE)
  fix s' assume "\<forall>n > ticks (snd (snd (cs_world s))). passes c stop sw n s = Some (Inr (), s')"
  then show ?thesis
    by (intro disjI1 exI [of _ "drain c s'"]) (simp add: run_consumer_def run_finally_def drain_empties)
qed (auto simp: run_consumer_def run_finally_def)

text \<open>A pass that reports \<open>n\<close> new messages has just started a task for each of them.\<close>

lemma wp_dispatch_all:
  "int (length (cs_in_flight s)) + int (length es) = k \<Longrightarrow>
   wpE (forE es (\<lambda>(i, wfs). dispatch i wfs)) (\<lambda>u s'. int (length (cs_in_flight s')) = k) (\<lambda>e s'. True) s"
  by (induction es arbitrary: s) (auto simp: wp dispatch_def wpE_total split: sum.split)

lemma wp_consume_once_started:
  "wpE (consume_once c sw block) (\<lambda>n s'. n \<le> int (length (cs_in_flight s'))) (\<lambda>e s'. True) s"
proof -
  have rest: "wpE (if es = [] then ret 0
      else bindE (forE es (\<lambda>(i, wfs). dispatch i wfs)) (\<lambda>u. ret (int (length es))))
      (\<lambda>n s'. n \<le> int (length (cs_in_flight s'))) (\<lambda>e s'. True) s'" for es and s' :: "('a, 'b, 'c) cstate"
    by (cases "es = []") (auto simp: wp intro!: wpE_mono [OF wp_dispatch_all [OF refl]])
  show ?thesis
    unfolding consume_once_def Let_def wp_bind [of "reclaim_orphans c sw"]
    by (rule wpE_mono [OF wpE_total])
      (auto simp: wp read_new_def wp_bind [of "bindE m f" for m f] rest intro!: wpE_mono [OF wpE_total])
qed

text \<open>The default worker, alone, with eight unread pointers in the stream; and a worker without a group, two awaits from its signal.\<close>

definition backlog :: mem_redis where
  "backlog = mem_start\<lparr>mr_last := 8,
     mr_entries := map (\<lambda>i. \<lparr>se_stream = ''aie:jobs'', se_id = i, se_fields = to_fields sample_message\<rparr>) [1..<9],
     mr_groups := [((''aie:jobs'', ''aie-workers''), 0)]\<rparr>"

lemma dispatch_all:
  assumes "\<forall>x \<in> set es. \<exists>k. as_str (fst x) = Inr k"
  shows "\<exists>s'. forE es (\<lambda>(i, wfs). dispatch i wfs) s = (Inr (), s')"
  using assms
proof (induction es arbitrary: s)
  case (Cons x es)
  then obtain i wfs k where x: "x = (i, wfs)" "as_str i = Inr k" by (cases x) auto
  then obtain s1 where "dispatch i wfs s = (Inr (), s1)" by (simp add: dispatch_def eff_defs del: as_str.simps)
  with Cons x(1) show ?case using Cons.IH [of s1] by (simp add: bindE_def)
qed (simp add: ret_def)

lemmas sample_consumer_defs = sample_consumer_def build_consumer_def consumer_init_def default_broker_def keys_from_settings_def

lemmas step_defs = eff_defs awaiting_def on_redis_def on_world_def on_fst_def zoomE_def

lemma zero_text: "id_text 0 = ''0-0''" by code_simp

lemma backlog_reclaim:
  "reclaim_orphans sample_consumer (\<lambda>s. s) (consumer_start_state (backlog, w)) =
     (Inr (), consumer_start_state (backlog, w))"
  by (simp add: reclaim_orphans_def free_capacity_def consumer_start_state_def sample_consumer_defs step_defs mem_client_def
      mem_command_def mem_xautoclaim_def backlog_def mem_start_def id_text_decodes [of 0, unfolded zero_text] del: as_str.simps)

lemma backlog_read:
  "\<exists>es q. read_new sample_consumer (\<lambda>s. s) 8 b (consumer_start_state (backlog, w)) = (Inr es, consumer_start_state (q, w)) \<and>
     length es = 8 \<and> (\<forall>x \<in> set es. \<exists>k. as_str (fst x) = Inr k)"
  by (simp add: read_new_def consumer_start_state_def sample_consumer_defs step_defs mem_client_def mem_command_def
      mem_xreadgroup_def backlog_def mem_start_def entry_with_def Let_def upt_conv_Cons id_text_decodes del: as_str.simps)

lemma backlog_pass:
  "\<exists>s'. consume_once sample_consumer (\<lambda>s. s) (Some b) (consumer_start_state (backlog, w)) = (Inr 8, s')"
proof -
  let ?s = "consumer_start_state (backlog, w)"
  obtain es q where read: "read_new sample_consumer (\<lambda>s. s) 8 b ?s = (Inr es, consumer_start_state (q, w))"
    "length es = 8" "\<forall>x \<in> set es. \<exists>k. as_str (fst x) = Inr k"
    using backlog_read by blast
  have cap: "free_capacity sample_consumer ?s = 8"
    by (simp add: free_capacity_def consumer_start_state_def sample_consumer_defs)
  have "es \<noteq> []" using read(2) by auto
  with dispatch_all [OF read(3), of "consumer_start_state (q, w)"] read cap show ?thesis
    by (auto simp: consume_once_def backlog_reclaim bindE_def getE_def ret_def)
qed

definition nearer :: "(mem_redis, jobs_db, int) cstate \<Rightarrow> (mem_redis, jobs_db, int) cstate" where
  "nearer s = s\<lparr>cs_world := (fst (cs_world s), (fst (snd (cs_world s)), snd (snd (cs_world s)) - 1))\<rparr>"

subsection \<open>Properties\<close>

text \<open>
  C7. Shutdown, and its exception.  When a stop signal is on its way, then, whatever the passes raise and however the tasks
  interleave, either \<open>run\<close> returns normally, within as many passes as the signal needs awaits, and leaves no task in
  flight; or some pass leaves the consumer saturated before the signal has come, and then \<open>run\<close> never returns.
\<close>

theorem run_ends_unless_saturated:
  assumes "signal_due stop ticks sw"
  shows "(\<exists>s'. cs_in_flight s' = [] \<and>
      (\<forall>n > ticks (snd (snd (cs_world s))). run_consumer c stop sw n s = Some (Inr (), s'))) \<or>
    gets_stuck c stop sw s \<and> (\<forall>n. run_consumer c stop sw n s = None)"
  by (rule run_consumer_end [OF assms])

theorem run_ends_unless_saturated_witness:
  "\<exists>s'. cs_in_flight s' = [] \<and>
     run_consumer sample_consumer (\<lambda>x. x \<le> 0) nearer 3
       (consumer_start_state (mem_start, (one_job EMBED_DOCUMENT PENDING, 2))) = Some (Inr (), s')"
proof -
  let ?s = "consumer_start_state (mem_start, (one_job EMBED_DOCUMENT PENDING, 2))"
  have due: "signal_due (\<lambda>x. x \<le> 0) nat nearer" by (auto simp: signal_due_def stopped_def nearer_def)
  have "run_consumer sample_consumer (\<lambda>x. x \<le> 0) nearer 3 ?s \<noteq> None"
    by (simp add: run_consumer_def run_finally_def run_after_def numeral_3_eq_3 one_pass_def consume_once_def reclaim_orphans_def free_capacity_def
        sample_consumer_defs step_defs mem_client_def mem_command_def mem_xautoclaim_def mem_start_def nearer_def stopped_def
        consumer_start_state_def)
  with run_ends_unless_saturated [OF due, of ?s sample_consumer] show ?thesis
    by (fastforce simp: consumer_start_state_def)
qed

text \<open>
  C6. A worker with as many tasks as it may run at once stops for ever.  When a pass has started \<open>worker_concurrency\<close> new
  messages and the stop event is not set, every later pass returns at once, without an \<open>await\<close>: no task gets another
  turn, nothing is sent to Redis or written to the database, the signal handler cannot run, and \<open>run\<close> never returns,
  whatever would happen at its awaits.
\<close>

theorem full_worker_hangs:
  assumes "consume_once c sw (Some (co_block_ms c)) s = (Inr n, s')" and "co_concurrency c \<le> n"
    and "\<not> stopped stop s" and "\<not> stopped stop s'"
  shows "n \<le> int (length (cs_in_flight s')) \<and> (\<forall>k. (pass_state c sw ^^ k) s' = s') \<and>
    (\<forall>m. run_consumer c stop sw m s = None)"
proof -
  have started: "n \<le> int (length (cs_in_flight s'))"
    using wp_consume_once_started [of c sw "Some (co_block_ms c)" s] assms(1) by (simp add: wpE_def)
  with assms(2) have full: "saturated c s'" by (simp add: saturated_def free_capacity_def)
  have "pass_state c sw s = s'" using assms(1) by (simp add: pass_state_def one_pass_def eff_defs)
  then have "passes c stop sw m s = None" for m
    using saturated_passes [OF full assms(4)] assms(3)
    by (cases m) (simp_all del: passes.simps(2) add: passes_Suc)
  with started saturated_for_ever [OF full] show ?thesis by (simp add: run_consumer_def run_finally_def)
qed


theorem full_worker_hangs_witness:
  "\<exists>s'. consume_once sample_consumer (\<lambda>s. s) (Some (co_block_ms sample_consumer))
        (consumer_start_state (backlog, (one_job EMBED_DOCUMENT PENDING, 0))) = (Inr 8, s') \<and>
     8 \<le> length (cs_in_flight s') \<and>
     (\<forall>m. run_consumer sample_consumer (\<lambda>x. False) (\<lambda>s. s) m
        (consumer_start_state (backlog, (one_job EMBED_DOCUMENT PENDING, 0))) = None)"
proof -
  obtain s' where pass: "consume_once sample_consumer (\<lambda>s. s) (Some (co_block_ms sample_consumer))
      (consumer_start_state (backlog, (one_job EMBED_DOCUMENT PENDING, 0))) = (Inr 8, s')"
    using backlog_pass by blast
  have "co_concurrency sample_consumer \<le> 8" by (simp add: sample_consumer_defs)
  from full_worker_hangs [OF pass this, of "\<lambda>x. False"] pass show ?thesis by (auto simp: stopped_def)
qed

end
