(* ===== verification/Draining.thy ===== *)
theory Draining
  imports Settling WorkerLoop
begin

section \<open>The drain finishes every task (\<open>drain\<close> of \<open>broker/consumer.py\<close>)\<close>

text \<open>
  The composition of the loop's drain with what one message goes through: with Redis and the database answering
  (\<open>services_up\<close>), every task that is in flight when the loop stops is run to its end, so no job that a worker has taken is
  abandoned by its shutdown.  As in \<open>Consumer\<close>, a task runs as one step.
\<close>

subsection \<open>Tasks to run, and what becomes of them\<close>

text \<open>A task whose entry parses, for a pending job with an attempt to spare in the column and in the settings.\<close>

definition runnable :: "(uuid \<rightharpoonup> inference_job) \<Rightarrow> int \<Rightarrow> task \<Rightarrow> bool" where
  "runnable js n t \<longleftrightarrow>
     (case (from_fields (t_fields t), as_str (t_message_id t)) of
        (Inr m, Inr i) \<Rightarrow>
          m_attempt m \<in> {1..n} \<and>
          (case js (m_job_id m) of
             None \<Rightarrow> False
           | Some j \<Rightarrow> j_status j = PENDING \<and> fits_table j \<and> int4 (j_attempts j + 1))
      | _ \<Rightarrow> False)"

definition task_job :: "task \<Rightarrow> uuid option" where
  "task_job t = (case from_fields (t_fields t) of Inl e \<Rightarrow> None | Inr m \<Rightarrow> Some (m_job_id m))"

text \<open>
  The job was tried once: its message is acknowledged, and it is \<open>SUCCESS\<close> or \<open>FAILED\<close>, or \<open>PENDING\<close> again with the pointer
  of its next attempt in the stream.
\<close>

definition tried ::
  "('r, 'd, 'x) consumer \<Rightarrow> (uuid \<rightharpoonup> inference_job) \<Rightarrow> (uuid \<rightharpoonup> inference_job) \<Rightarrow> redis_event list \<Rightarrow> task \<Rightarrow> bool" where
  "tried c js js' evs t \<longleftrightarrow>
     acked c (t_message_id t) \<in> set evs \<and>
     (\<forall>m. from_fields (t_fields t) = Inr m \<longrightarrow>
        (\<exists>j j'. js (m_job_id m) = Some j \<and> js' (m_job_id m) = Some j' \<and> j_attempts j' = j_attempts j + 1 \<and>
           (is_terminal j' \<or> j_status j' = PENDING \<and> retried c m \<in> set evs)))"

lemma runnableE:
  assumes "runnable js n t"
  obtains m i j where "from_fields (t_fields t) = Inr m" and "as_str (t_message_id t) = Inr i"
    and "m_attempt m \<in> {1..n}" and "js (m_job_id m) = Some j" and "j_status j = PENDING" and "fits_table j"
    and "int4 (j_attempts j + 1)" and "task_job t = Some (m_job_id m)"
  using assms unfolding runnable_def task_job_def by (auto split: sum.splits option.splits)

lemma runnable_frame:
  "\<forall>i. task_job t = Some i \<longrightarrow> js' i = js i \<Longrightarrow> runnable js' n t = runnable js n t"
  by (auto simp: runnable_def task_job_def split: sum.split option.split)

lemma tried_later:
  assumes "tried c js js1 evs t" and "\<forall>i. task_job t = Some i \<longrightarrow> js2 i = js1 i"
  shows "tried c js js2 (evs @ evs') t"
  using assms unfolding tried_def task_job_def by auto

lemma tried_earlier:
  assumes "tried c js1 js2 evs' t" and "\<forall>i. task_job t = Some i \<longrightarrow> js1 i = js i"
  shows "tried c js js2 (evs @ evs') t"
  using assms unfolding tried_def task_job_def by auto

subsection \<open>One task, and all of them\<close>

context services_up
begin

lemma finish_task_up:
  assumes c: "c = build_consumer R sess bs ext name" and within: "within_columns ext (bs_max_attempts bs)"
    and up: "up (fst (cs_world s))" "live (fst (snd (cs_world s)))"
    and t: "runnable (stored rows (fst (snd (cs_world s)))) (bs_max_attempts bs) t"
  obtains s' evs where "finish_task c t s = s'" and "up (fst (cs_world s'))" and "live (fst (snd (cs_world s')))"
    and "elog (fst (cs_world s')) = elog (fst (cs_world s)) @ evs"
    and "tried c (stored rows (fst (snd (cs_world s)))) (stored rows (fst (snd (cs_world s')))) evs t"
    and "\<forall>k. task_job t \<noteq> Some k \<longrightarrow> stored rows (fst (snd (cs_world s'))) k = stored rows (fst (snd (cs_world s))) k"
    and "\<forall>k. as_str (t_message_id t) = Inr k \<longrightarrow> cs_in_flight_ids s' = cs_in_flight_ids s - {k}"
proof -
  obtain m i j where parsed: "from_fields (t_fields t) = Inr m" "as_str (t_message_id t) = Inr i" "m_attempt m \<in> {1..bs_max_attempts bs}"
    and row: "stored rows (fst (snd (cs_world s))) (m_job_id m) = Some j" "j_status j = PENDING" "fits_table j"
      "int4 (j_attempts j + 1)" and job: "task_job t = Some (m_job_id m)"
    using t by (rule runnableE)
  obtain q d x where w: "cs_world s = (q, (d, x))" by (cases "cs_world s")
  note here = up [unfolded w fst_conv snd_conv] row [unfolded w fst_conv snd_conv]
  let ?m = "route c (t_message_id t) m"
  from wpE_conj [OF wp_route_up [OF here(1-6) within parsed(3), of name "t_message_id t" x]
      routing.wp_route [OF routing_built [OF redis_client_axioms sqlalchemy_session_axioms]]]
  obtain w' where run: "?m (q, (d, x)) = (Inr (), w')" "up (fst w')" "live (fst (snd w'))"
    and tried: "\<exists>j'. stored rows (fst (snd w')) (m_job_id m) = Some j' \<and> j_attempts j' = j_attempts j + 1 \<and>
      (is_terminal j' \<or> j_status j' = PENDING)"
    and evs: "\<exists>evs. elog (fst w') = elog q @ evs \<and> handled c (t_message_id t) m evs (stored rows (fst (snd w')))"
    and frame: "\<forall>k. k \<noteq> m_job_id m \<longrightarrow> stored rows (fst (snd w')) k = stored rows d k"
    unfolding c by (cases "route (build_consumer R sess bs ext name) (t_message_id t) m (q, (d, x))") (auto simp: wpE_def split: sum.splits)
  obtain evs' where e: "elog (fst w') = elog q @ evs'" "handled c (t_message_id t) m evs' (stored rows (fst (snd w')))" using evs by blast
  let ?s = "s\<lparr>cs_world := w', cs_in_flight_ids := cs_in_flight_ids s - {i},
      cs_in_flight := filter (\<lambda>u. t_id u \<noteq> t_id t) (cs_in_flight s)\<rparr>"
  have "finish_task c t s = ?s"
    using run(1) by (simp add: finish_task_def process_and_route_def parsed w eff_defs on_world_def del: as_str.simps)
  moreover have "tried c (stored rows (fst (snd (cs_world s)))) (stored rows (fst (snd (cs_world ?s)))) evs' t"
    using tried e(2) row(1) unfolding tried_def parsed handled_def
    by (auto simp: settled_in_def row_is_def is_terminal_iff split: option.splits)
  ultimately show thesis
    using that [of ?s evs'] run e(1) frame parsed job by (simp add: w)
qed

text \<open>What the world's two stores hold, seen from a state of the consumer.\<close>

abbreviation jobs_in :: "('r, 'd, 'x) cstate \<Rightarrow> uuid \<rightharpoonup> inference_job" where
  "jobs_in s \<equiv> stored rows (fst (snd (cs_world s)))"

lemma finish_tasks_up:
  assumes c: "c = build_consumer R sess bs ext name" and within: "within_columns ext (bs_max_attempts bs)"
    and "up (fst (cs_world s))" and "live (fst (snd (cs_world s)))"
    and "distinct (map task_job ts)" and "\<forall>t \<in> set ts. runnable (jobs_in s) (bs_max_attempts bs) t"
  shows "\<exists>evs. elog (fst (cs_world (fold (finish_task c) ts s))) = elog (fst (cs_world s)) @ evs \<and>
    (\<forall>t \<in> set ts. tried c (jobs_in s) (jobs_in (fold (finish_task c) ts s)) evs t \<and>
       (\<forall>k. as_str (t_message_id t) = Inr k \<longrightarrow> k \<notin> cs_in_flight_ids (fold (finish_task c) ts s))) \<and>
    (\<forall>k. Some k \<notin> task_job ` set ts \<longrightarrow> jobs_in (fold (finish_task c) ts s) k = jobs_in s k) \<and>
    cs_in_flight_ids (fold (finish_task c) ts s) \<subseteq> cs_in_flight_ids s"
  using assms(3-)
proof (induction ts arbitrary: s)
  case (Cons t ts)
  from Cons.prems(4) have t: "runnable (jobs_in s) (bs_max_attempts bs) t" by simp
  obtain s1 evs where s1: "finish_task c t s = s1" "up (fst (cs_world s1))" "live (fst (snd (cs_world s1)))"
    "elog (fst (cs_world s1)) = elog (fst (cs_world s)) @ evs" "tried c (jobs_in s) (jobs_in s1) evs t"
    and frame: "\<forall>k. task_job t \<noteq> Some k \<longrightarrow> jobs_in s1 k = jobs_in s k"
    and ids: "\<forall>k. as_str (t_message_id t) = Inr k \<longrightarrow> cs_in_flight_ids s1 = cs_in_flight_ids s - {k}"
    by (rule finish_task_up [OF c within Cons.prems(1,2) t])
  have other: "task_job u \<noteq> task_job t" if "u \<in> set ts" for u
    using Cons.prems(3) that by (metis distinct.simps(2) image_eqI list.set_map list.simps(9))
  have rows1: "jobs_in s1 i = jobs_in s i" if "u \<in> set ts" "task_job u = Some i" for u i
    using frame other [OF that(1)] that(2) by metis
  have "\<forall>u \<in> set ts. runnable (jobs_in s1) (bs_max_attempts bs) u"
  proof (rule ballI)
    fix u assume u: "u \<in> set ts"
    have "\<forall>i. task_job u = Some i \<longrightarrow> jobs_in s1 i = jobs_in s i" using rows1 [OF u] by (intro allI impI)
    from runnable_frame [OF this] Cons.prems(4) u show "runnable (jobs_in s1) (bs_max_attempts bs) u" by simp
  qed
  with Cons.IH [OF s1(2,3)] Cons.prems(3)
  obtain evs' where rest: "elog (fst (cs_world (fold (finish_task c) ts s1))) = elog (fst (cs_world s1)) @ evs'"
    "\<forall>u \<in> set ts. tried c (jobs_in s1) (jobs_in (fold (finish_task c) ts s1)) evs' u \<and>
       (\<forall>k. as_str (t_message_id u) = Inr k \<longrightarrow> k \<notin> cs_in_flight_ids (fold (finish_task c) ts s1))"
    "\<forall>k. Some k \<notin> task_job ` set ts \<longrightarrow> jobs_in (fold (finish_task c) ts s1) k = jobs_in s1 k"
    "cs_in_flight_ids (fold (finish_task c) ts s1) \<subseteq> cs_in_flight_ids s1" by auto
  have sub: "cs_in_flight_ids s1 \<subseteq> cs_in_flight_ids s" using finish_task_ids [of c t s] s1(1) by simp
  have "\<forall>i. task_job t = Some i \<longrightarrow> jobs_in (fold (finish_task c) ts s1) i = jobs_in s1 i"
  proof (intro allI impI)
    fix i assume "task_job t = Some i"
    with other have "Some i \<notin> task_job ` set ts" by (metis imageE)
    with rest(3) show "jobs_in (fold (finish_task c) ts s1) i = jobs_in s1 i" by simp
  qed
  from tried_later [OF s1(5) this] have first: "tried c (jobs_in s) (jobs_in (fold (finish_task c) ts s1)) (evs @ evs') t" .
  have others: "tried c (jobs_in s) (jobs_in (fold (finish_task c) ts s1)) (evs @ evs') u" if "u \<in> set ts" for u
    using tried_earlier rest(2) rows1 that by blast
  let ?s = "fold (finish_task c) ts s1"
  have mine: "\<forall>k. as_str (t_message_id t) = Inr k \<longrightarrow> k \<notin> cs_in_flight_ids ?s"
    using ids rest(4) by auto
  have all: "\<forall>u \<in> set (t # ts). tried c (jobs_in s) (jobs_in ?s) (evs @ evs') u \<and>
      (\<forall>k. as_str (t_message_id u) = Inr k \<longrightarrow> k \<notin> cs_in_flight_ids ?s)"
    using first mine others rest(2) by (simp only: list.set ball_simps) blast
  have "\<forall>k. Some k \<notin> task_job ` set (t # ts) \<longrightarrow> jobs_in ?s k = jobs_in s k"
    using rest(3) frame by (simp only: list.set image_insert insert_iff) metis
  moreover have "fold (finish_task c) (t # ts) s = ?s" by (simp add: s1(1))
  moreover have "elog (fst (cs_world ?s)) = elog (fst (cs_world s)) @ (evs @ evs')" by (simp only: rest(1) s1(4) append_assoc)
  moreover have "cs_in_flight_ids ?s \<subseteq> cs_in_flight_ids s" using rest(4) sub by (rule subset_trans)
  ultimately show ?case using all by metis
qed simp

end

subsection \<open>Properties\<close>



text \<open>A worker whose provider is overloaded, stopped with one task in flight.\<close>

definition stopping :: "(mem_redis, jobs_db, unit) cstate" where
  "stopping = (consumer_start_state (mem_start, (one_job RAG_QUERY PENDING, ())))
     \<lparr>cs_in_flight := [\<lparr>t_id = 0, t_message_id = WStr ''1-0'',
        t_fields = map (\<lambda>(k, v). (WStr k, WStr v)) (to_fields first_pointer)\<rparr>],
      cs_in_flight_ids := {''1-0''}, cs_next := 1\<rparr>"


end
