(* ===== verification/Trimming.thy ===== *)
theory Trimming
  imports Delivery
begin

section \<open>What \<open>MAXLEN\<close> does to a backlog (\<open>_xadd\<close> of \<open>broker/producer.py\<close>)\<close>

text \<open>
  Every \<open>XADD\<close> of the producer asks Redis to trim the stream to about \<open>maxlen\<close> entries.  Redis documents that the oldest
  entries go, whether or not the group has read or acknowledged them, and that an approximate trim keeps at most some
  entries more (\<open>slack\<close>, which a node of the stream bounds).  The locale \<open>trimmed_view\<close> adds this to what is known of a group.
\<close>

locale trimmed_view = group_view R elog keys good view
  for R :: "'r redis" and elog and keys and good and view +
  fixes slack :: int
  assumes slack: "0 \<le> slack"
    and trims: "good s \<Longrightarrow> xadd R (k_stream keys) fs n True s = (Inr i, s') \<Longrightarrow> view s' = Some es \<Longrightarrow>
      int (length es) \<le> max 0 n + slack"
begin

lemma publish_trims:
  assumes "good s" and "publish (producer_init R keys settings) job s = (Inr u, s')"
  shows "good s' \<and> (\<forall>es. view s' = Some es \<longrightarrow> int (length es) \<le> max 0 (bs_maxlen settings) + slack)"
proof -
  obtain i where x: "xadd R (k_stream keys) (to_fields (first_delivery job)) (bs_maxlen settings) True s = (Inr i, s')"
    using assms(2) by (auto simp: publish_def prod_xadd_def producer_init_def eff_defs split: prod.splits sum.splits if_splits)
  then have "broker_step R keys s s'" using broker_step.add [of R keys s] by (metis snd_conv)
  with good_step [OF assms(1)] trims [OF assms(1) x] show ?thesis by simp
qed

lemma publishes_trim:
  assumes "good s" and "forE jobs (publish (producer_init R keys settings)) s = (Inr u, s')" and "jobs \<noteq> []"
  shows "good s' \<and> (\<forall>es. view s' = Some es \<longrightarrow> int (length es) \<le> max 0 (bs_maxlen settings) + slack)"
  using assms
proof (induction jobs arbitrary: s)
  case (Cons job jobs)
  from Cons.prems(2) obtain s1 where first: "publish (producer_init R keys settings) job s = (Inr (), s1)"
    and rest: "forE jobs (publish (producer_init R keys settings)) s1 = (Inr u, s')"
    by (auto simp: bindE_def split: prod.splits sum.splits)
  note one = publish_trims [OF Cons.prems(1) first]
  show ?case
  proof (cases "jobs = []")
    case True
    with rest one show ?thesis by (simp add: ret_def)
  next
    case False
    with Cons.IH [OF conjunct1 [OF one] rest] show ?thesis .
  qed
qed simp

end

lemma mem_command_Inr_ran:
  assumes "mem_command evs m s = (Inr x, s')"
  obtains fs t where "m (s\<lparr>mr_faults := fs\<rparr>) = (Inr x, t)" and "s' = t\<lparr>mr_log := mr_log s @ evs\<rparr>"
  using assms by (cases rule: mem_command_split) auto

interpretation mem_trimmed: trimmed_view mem_client mr_log keys mem_ok "mem_view keys" 0 for keys
proof unfold_locales
  show "0 \<le> (0 :: int)" by simp
next
  fix s fs n i s' es
  assume "xadd mem_client (k_stream keys) fs n True s = (Inr i, s')" and view: "mem_view keys s' = Some es"
  then have "mem_command [Added (k_stream keys) fs] (mem_xadd (k_stream keys) fs n) s = (Inr i, s')" by (simp add: mem_client_def)
  then obtain gs t where "mem_xadd (k_stream keys) fs n (s\<lparr>mr_faults := gs\<rparr>) = (Inr i, t)"
    "s' = t\<lparr>mr_log := mr_log s @ [Added (k_stream keys) fs]\<rparr>" by (rule mem_command_Inr_ran)
  with add_trims view show "int (length es) \<le> max 0 n + 0" by fastforce
qed

subsection \<open>Jobs without a pointer\<close>

definition pointer_job :: "wire \<times> wire_fields \<Rightarrow> uuid option" where
  "pointer_job e = (case from_fields (snd e) of Inl exc \<Rightarrow> None | Inr m \<Rightarrow> Some (m_job_id m))"

text \<open>At most one job per entry has a pointer.\<close>

lemma jobs_without_pointer:
  assumes "distinct (map j_id jobs)"
  shows "length jobs \<le> card {job \<in> set jobs. Some (j_id job) \<notin> pointer_job ` set es} + length es"
proof -
  let ?lost = "{job \<in> set jobs. Some (j_id job) \<notin> pointer_job ` set es}"
    and ?kept = "{job \<in> set jobs. Some (j_id job) \<in> pointer_job ` set es}"
  have inj: "inj_on (Some \<circ> j_id) ?kept" using assms by (auto simp: distinct_map inj_on_def)
  have "card ?kept = card ((Some \<circ> j_id) ` ?kept)" by (rule card_image [OF inj, symmetric])
  also have "\<dots> \<le> card (pointer_job ` set es)" by (rule card_mono) auto
  also have "\<dots> \<le> length es" using card_image_le [of "set es" pointer_job] card_length [of es] by simp
  finally have kept: "card ?kept \<le> length es" .
  have "length jobs = card (set jobs)" using assms by (simp add: distinct_card distinct_map)
  also have "set jobs = ?lost \<union> ?kept" by blast
  also have "card (?lost \<union> ?kept) \<le> card ?lost + card ?kept" by (rule card_Un_le)
  finally show ?thesis using kept by simp
qed

subsection \<open>Properties\<close>

text \<open>
  C27. A backlog beyond \<open>maxlen\<close> is lost.  Let any number of jobs be published one after the other, each \<open>XADD\<close> returning, so
  that each of them was accepted.  Then all but \<open>maxlen\<close> of them (and the slack of the approximate trim) are never delivered:
  whatever commands any processes send to Redis from then on, no entry that a read or a reclaim hands out is a pointer
  of such a job, as long as nobody publishes another pointer of it.
\<close>

theorem backlog_over_maxlen_is_lost:
  assumes "trimmed_view R elog keys good view slack" and "good q" and "jobs \<noteq> []" and "distinct (map j_id jobs)"
    and "forE jobs (publish (producer_init R keys settings)) q = (Inr (), q1)"
  shows "\<exists>lost \<subseteq> set jobs. int (length jobs) - (max 0 (bs_maxlen settings) + slack) \<le> int (card lost) \<and>
    (\<forall>job \<in> lost. \<forall>q2 e.
       (broker_step R keys)\<^sup>*\<^sup>* q1 q2 \<longrightarrow>
       (\<forall>fs. Added (k_stream keys) fs \<in> set (drop (length (elog q1)) (elog q2)) \<longrightarrow>
          (\<exists>m. fs = to_fields m \<and> m_job_id m \<noteq> j_id job)) \<longrightarrow>
       delivers R keys q2 e \<longrightarrow> pointer_job e \<noteq> Some (j_id job))"
proof -
  note group = trimmed_view.axioms(1) [OF assms(1)]
  define es where "es = (case view q1 of None \<Rightarrow> [] | Some es \<Rightarrow> es)"
  define lost where "lost = {job \<in> set jobs. Some (j_id job) \<notin> pointer_job ` set es}"
  from trimmed_view.publishes_trim [OF assms(1,2,5,3)] have good: "good q1"
    and bound: "int (length es) \<le> max 0 (bs_maxlen settings) + slack"
    using trimmed_view.slack [OF assms(1)] by (auto simp: es_def split: option.splits)
  have since: "group_view.since elog keys view (elog q1) (set es) q1"
    by (auto simp: group_view.since_def [OF group] es_def)
  have never: "pointer_job e \<noteq> Some (j_id job)"
    if job: "job \<in> lost" and steps: "(broker_step R keys)\<^sup>*\<^sup>* q1 q2" and e: "delivers R keys q2 e"
      and others: "\<forall>fs. Added (k_stream keys) fs \<in> set (drop (length (elog q1)) (elog q2)) \<longrightarrow>
        (\<exists>m. fs = to_fields m \<and> m_job_id m \<noteq> j_id job)" for job q2 e
  proof (cases "e \<in> set es")
    case True
    with job show ?thesis by (force simp: lost_def)
  next
    case False
    obtain i wfs where ie: "e = (i, wfs)" by (cases e)
    from group_view.since_steps [OF group steps good since]
    have q2: "good q2" "group_view.since elog keys view (elog q1) (set es) q2" by auto
    obtain fs where "Added (k_stream keys) fs \<in> set (drop (length (elog q1)) (elog q2))" and wfs: "wire_of wfs fs"
      by (rule group_view.delivered_since [OF group q2 e [unfolded ie]]) (use False ie in simp_all)
    with others obtain m where m: "fs = to_fields m" "m_job_id m \<noteq> j_id job" by blast
    have "from_fields wfs = Inr m"
      by (rule from_fields_carries [where extra = "[]"]) (use wfs m in \<open>simp_all add: wire_of_def\<close>)
    with m ie show ?thesis by (simp add: pointer_job_def)
  qed
  have "int (length jobs) - (max 0 (bs_maxlen settings) + slack) \<le> int (card lost)"
    using jobs_without_pointer [OF assms(4), of es] bound by (simp add: lost_def)
  with never show ?thesis by (intro exI [of _ lost] conjI) (auto simp: lost_def)
qed

text \<open>A stream that is trimmed to two entries, with its group, and three accepted jobs.\<close>

definition grouped :: mem_redis where
  "grouped = mem_start\<lparr>mr_groups := [((''aie:jobs'', ''aie-workers''), 0)]\<rparr>"

theorem backlog_over_maxlen_is_lost_witness:
  "\<exists>q1 job. forE (map (\<lambda>i. job_new RAG_QUERY [] i 0 0) [1, 2, 3])
       (publish (producer_init mem_client default_keys (default_broker\<lparr>bs_maxlen := 2\<rparr>))) grouped = (Inr (), q1) \<and>
     job \<in> set (map (\<lambda>i. job_new RAG_QUERY [] i 0 0) [1, 2, 3]) \<and>
     (\<forall>e. delivers mem_client default_keys q1 e \<longrightarrow> pointer_job e \<noteq> Some (j_id job))"
proof -
  let ?jobs = "map (\<lambda>i. job_new RAG_QUERY [] i 0 0) [1, 2, 3]"
    and ?publish = "publish (producer_init mem_client default_keys (default_broker\<lparr>bs_maxlen := 2\<rparr>))"
  have start: "mem_ok grouped" by (auto simp: mem_ok_def mem_born_def mem_start_def grouped_def split: if_splits)
  have "\<exists>q1. forE ?jobs ?publish grouped = (Inr (), q1)"
    by (simp add: publish_def prod_xadd_def producer_init_def eff_defs mem_client_def mem_command_def mem_xadd_def mem_start_def
        grouped_def id_text_decodes del: as_str.simps)
  then obtain q1 where run: "forE ?jobs ?publish grouped = (Inr (), q1)" by blast
  have distinct: "distinct (map j_id ?jobs)" and ne: "?jobs \<noteq> []" by (simp_all add: job_new_def)
  have max: "bs_maxlen (default_broker\<lparr>bs_maxlen := 2\<rparr>) = 2" "length ?jobs = 3" by simp_all
  from backlog_over_maxlen_is_lost [OF mem_trimmed.trimmed_view_axioms start ne distinct run, unfolded max]
  obtain lost where lost: "lost \<subseteq> set ?jobs" "1 \<le> int (card lost)"
    and never: "\<forall>job \<in> lost. \<forall>q2 e. (broker_step mem_client default_keys)\<^sup>*\<^sup>* q1 q2 \<longrightarrow>
       (\<forall>fs. Added (k_stream default_keys) fs \<in> set (drop (length (mr_log q1)) (mr_log q2)) \<longrightarrow>
          (\<exists>m. fs = to_fields m \<and> m_job_id m \<noteq> j_id job)) \<longrightarrow>
       delivers mem_client default_keys q2 e \<longrightarrow> pointer_job e \<noteq> Some (j_id job)"
    by (elim exE conjE) (rule that, assumption, simp, assumption)
  obtain job where job: "job \<in> lost" using lost(2) by (cases "lost = {}") auto
  have "pointer_job e \<noteq> Some (j_id job)" if "delivers mem_client default_keys q1 e" for e
    using never [rule_format, OF job rtranclp.rtrancl_refl _ that] by simp
  with job lost(1) run show ?thesis by blast
qed

end
