(* ===== verification/ObjectStore.thy ===== *)
theory ObjectStore
  imports Retry SdkErrors
begin

section \<open>The object store (\<open>ports/object_store.py\<close>, \<open>object_store/s3.py\<close>)\<close>

text \<open>
  \<open>S3ObjectStore\<close> over the boto3 client, which is a parameter: the record \<open>s3_client\<close> with the five
  calls the adapter makes (the streaming body of \<open>get_object\<close> is a handle with its \<open>read\<close> and
  \<open>close\<close>).  \<open>s3_laws\<close> states what is relied on of them over the content of the buckets: an upload
  that returns replaced the object under its key, one that raises changed at most that object, and
  fetching changes nothing and returns the stored bytes.  The two runners are \<open>retrying\<close>'s loop at the two
  result types.

  The locale \<open>object_store\<close> is the port: what the pipelines may rely on.  It is provided by the adapter
  over any lawful client and interpreted on an in-memory bucket with scheduled faults.
\<close>

record 's s3_client =
  head_bucket :: "string \<Rightarrow> ('s, unit) io"
  create_bucket :: "string \<Rightarrow> ('s, unit) io"
  put_object :: "string \<Rightarrow> string \<Rightarrow> string \<Rightarrow> string \<Rightarrow> ('s, unit) io"
  get_object :: "string \<Rightarrow> string \<Rightarrow> ('s, nat) io"
  body_read :: "nat \<Rightarrow> ('s, string) io"
  body_close :: "nat \<Rightarrow> 's \<Rightarrow> 's"

record 's s3_store =
  so_client :: "'s s3_client"
  so_bucket :: string
  so_retry :: retry_settings
  so_run :: "('s, unit) runner"
  so_run_bytes :: "('s, string) runner"

definition s3_call :: "'s s3_store \<Rightarrow> ('s, unit) io \<Rightarrow> ('s, unit) io" where
  "s3_call st fn = adapter_call (so_run st) thread_offloader_run classify_botocore_error (so_retry st) fn"

definition s3_call_no_retry :: "('s, unit) io \<Rightarrow> ('s, unit) io" where
  "s3_call_no_retry fn =
     tryE (thread_offloader_run fn)
       (\<lambda>exc. if isinstance exc CLIENT_ERROR then raiseE exc else raiseE (classify_botocore_error exc))"

definition http_status :: "exn \<Rightarrow> int" where
  "http_status exc = opt_get (cr_status (client_response_of exc)) 0"

type_synonym 's bucket_exists_port = "('s, bool) io"
type_synonym 's ensure_bucket_port = "('s, unit) io"
type_synonym 's get_bytes_port = "string \<Rightarrow> ('s, string) io"

definition bucket_exists :: "'s s3_store \<Rightarrow> 's bucket_exists_port" where
  "bucket_exists st =
     tryElse (s3_call_no_retry (head_bucket (so_client st) (so_bucket st)))
       (\<lambda>exc. if is_transient exc then raiseE exc
               else if isinstance exc CLIENT_ERROR
               then if http_status exc = 404 then ret False else raiseE (classify_botocore_error exc)
               else raiseE exc)
       (\<lambda>u. ret True)"

definition ensure_bucket :: "'s s3_store \<Rightarrow> 's ensure_bucket_port" where
  "ensure_bucket st =
     bindE (bucket_exists st) (\<lambda>there.
       if there then ret () else s3_call st (create_bucket (so_client st) (so_bucket st)))"

definition put_bytes :: "'s s3_store \<Rightarrow> string \<Rightarrow> string \<Rightarrow> string \<Rightarrow> ('s, string) io" where
  "put_bytes st key data content_type =
     bindE (s3_call st (put_object (so_client st) (so_bucket st) key data content_type))
       (\<lambda>u. ret (''s3://'' @ so_bucket st @ ''/'' @ key))"

definition fetch_and_read :: "'s s3_client \<Rightarrow> string \<Rightarrow> string \<Rightarrow> ('s, string) io" where
  "fetch_and_read c bucket key =
     bindE (get_object c bucket key) (\<lambda>body. finallyE (body_read c body) (body_close c body))"

definition get_bytes :: "'s s3_store \<Rightarrow> 's get_bytes_port" where
  "get_bytes st key =
     adapter_call (so_run_bytes st) thread_offloader_run classify_botocore_error (so_retry st)
       (fetch_and_read (so_client st) (so_bucket st) key)"

subsection \<open>The client's laws and the port\<close>

definition s3_laws :: "'s s3_client \<Rightarrow> ('s \<Rightarrow> string \<times> string \<rightharpoonup> string) \<Rightarrow> bool" where
  "s3_laws c content \<longleftrightarrow>
     (\<forall>b k d ct s r s'. put_object c b k d ct s = (r, s') \<longrightarrow>
        content s' = (content s)((b, k) \<mapsto> d) \<or> (\<exists>e. r = Inl e) \<and> content s' = content s) \<and>
     (\<forall>b k s r s'. fetch_and_read c b k s = (r, s') \<longrightarrow>
        content s' = content s \<and> (\<forall>d. r = Inr d \<longrightarrow> content s (b, k) = Some d))"

locale object_store =
  fixes put :: "string \<Rightarrow> string \<Rightarrow> string \<Rightarrow> ('s, string) io"
    and fetch :: "string \<Rightarrow> ('s, string) io"
    and objects :: "'s \<Rightarrow> string \<rightharpoonup> string"
    and ref_of :: "string \<Rightarrow> string"
  assumes put_law: "put k d ct s = (r, s') \<Longrightarrow>
      (case r of Inr ref \<Rightarrow> ref = ref_of k \<and> objects s' = (objects s)(k \<mapsto> d)
       | Inl e \<Rightarrow> is_upstream_error e \<and> (objects s' = objects s \<or> objects s' = (objects s)(k \<mapsto> d)))"
    and fetch_law: "fetch k s = (r, s') \<Longrightarrow>
      objects s' = objects s \<and>
      (case r of Inr d \<Rightarrow> objects s k = Some d | Inl e \<Rightarrow> is_upstream_error e)"
begin

text \<open>What was stored last is what is fetched, until the same key is stored again.\<close>

lemma fetch_after_put:
  "put k d ct s = (Inr ref, s1) \<Longrightarrow> fetch k s1 = (r, s2) \<Longrightarrow> ref = ref_of k \<and> r \<in> {Inr d} \<union> {Inl e | e. is_upstream_error e}"
  using put_law [of k d ct s "Inr ref" s1] fetch_law [of k s1 r s2] by (auto split: sum.splits)

lemma fetch_other:
  "put k d ct s = (r0, s1) \<Longrightarrow> k' \<noteq> k \<Longrightarrow> fetch k' s1 = (Inr d', s2) \<Longrightarrow> objects s k' = Some d'"
  using put_law [of k d ct s r0 s1] fetch_law [of k' s1 "Inr d'" s2] by (auto split: sum.splits)

end

subsection \<open>An in-memory bucket\<close>

record mem_s3 =
  ms_objects :: "((string \<times> string) \<times> string) list"
  ms_bodies :: "string list"
  ms_faults :: "sdk_error option list"

definition s3_not_found :: sdk_error where
  "s3_not_found =
     \<lparr>sdk_mro = [''botocore.exceptions.ClientError''], sdk_name = ''ClientError'',
      sdk_text = ''Not Found'', sdk_repr = ''ClientError()'', sdk_status = None, sdk_response_status = None,
      sdk_client_response = \<lparr>cr_code = Some ''404'', cr_message = Some ''Not Found'', cr_status = Some 404\<rparr>\<rparr>"

definition mem_s3_command :: "(mem_s3, 'a) io \<Rightarrow> (mem_s3, 'a) io" where
  "mem_s3_command m s =
     (case ms_faults s of
        [] \<Rightarrow> m s
      | f # fs \<Rightarrow>
          (case f of None \<Rightarrow> m (s\<lparr>ms_faults := fs\<rparr>) | Some x \<Rightarrow> (Inl (SdkError x), s\<lparr>ms_faults := fs\<rparr>)))"

definition mem_s3_client :: "mem_s3 s3_client" where
  "mem_s3_client =
     \<lparr>head_bucket = (\<lambda>b. mem_s3_command (ret ())), create_bucket = (\<lambda>b. mem_s3_command (ret ())),
      put_object = (\<lambda>b k d ct. mem_s3_command (modifyE (\<lambda>s. s\<lparr>ms_objects := ((b, k), d) # ms_objects s\<rparr>))),
      get_object = (\<lambda>b k. mem_s3_command (\<lambda>s.
        case map_of (ms_objects s) (b, k) of
          None \<Rightarrow> (Inl (SdkError s3_not_found), s)
        | Some d \<Rightarrow> (Inr (length (ms_bodies s)), s\<lparr>ms_bodies := ms_bodies s @ [d]\<rparr>))),
      body_read = (\<lambda>n. mem_s3_command (getE (\<lambda>s. ms_bodies s ! n))),
      body_close = (\<lambda>n s. s)\<rparr>"

definition mem_store :: "mem_s3 s3_store" where
  "mem_store =
     \<lparr>so_client = mem_s3_client, so_bucket = ''aie-artifacts'', so_retry = default_retry,
      so_run = loop_runner, so_run_bytes = loop_runner\<rparr>"

subsection \<open>Lemmas\<close>

lemma mem_s3_laws: "s3_laws mem_s3_client (\<lambda>s. map_of (ms_objects s))"
  by (auto simp: s3_laws_def mem_s3_client_def mem_s3_command_def fetch_and_read_def eff_defs
      split: list.splits option.splits prod.splits sum.splits)

text \<open>A store in good order: lawful runners, valid retry settings.\<close>

definition store_ok :: "'s s3_store \<Rightarrow> bool" where
  "store_ok st \<longleftrightarrow> tenacity_laws (so_run st) \<and> tenacity_laws (so_run_bytes st) \<and> retry_settings_ok (so_retry st)"

lemma s3_call_outcome:
  assumes "store_ok st" and "s3_call st fn s = (r, s')"
    and step: "\<And>t q t'. fn t = (q, t') \<Longrightarrow> I t \<Longrightarrow> I t'"
    and "I s"
  shows "I s' \<and> (case r of
      Inr u \<Rightarrow> \<exists>t. I t \<and> fn t = (Inr u, s')
    | Inl e \<Rightarrow> is_upstream_error e)"
proof -
  let ?body = "tryE (thread_offloader_run fn) (\<lambda>exc. raiseE (classify_botocore_error exc))"
  have body: "?body t = (case fn t of (Inl e, t') \<Rightarrow> (Inl (classify_botocore_error e), t') | (Inr u, t') \<Rightarrow> (Inr u, t'))"
    for t by (simp add: tryE_def raiseE_def thread_offloader.off_id split: prod.split sum.split)
  have trace: "attempts_ok ?body t es r s' \<Longrightarrow> I t \<Longrightarrow>
      I s' \<and> (case r of Inr u \<Rightarrow> \<exists>t. I t \<and> fn t = (Inr u, s') | Inl e \<Rightarrow> is_upstream_error e)" for t es
  proof (induction es arbitrary: t)
    case Nil
    obtain q t' where fn: "fn t = (q, t')" by (cases "fn t")
    with Nil body [of t] step [OF fn Nil(2)] show ?case by (cases q) auto
  next
    case (Cons e es)
    obtain q t' where fn: "fn t = (q, t')" by (cases "fn t")
    with body [of t] have "snd (?body t) = t'" by (cases q) auto
    with Cons.prems(1) have "attempts_ok ?body t' es r s'" by simp
    then show ?case using step [OF fn Cons.prems(2)] by (rule Cons.IH)
  qed
  from assms(1,2) obtain es where "attempts_ok ?body s es r s'"
    using retrying_trace [of "so_run st" "so_retry st" ?body s r s']
    by (auto simp: s3_call_def adapter_call_def store_ok_def)
  from trace [OF this assms(4)] show ?thesis .
qed

lemma put_bytes_outcome:
  assumes "store_ok st" "s3_laws (so_client st) content" and run: "put_bytes st k d ct s = (r, s')"
  shows "case r of
      Inr ref \<Rightarrow> ref = ''s3://'' @ so_bucket st @ ''/'' @ k \<and> content s' = (content s)((so_bucket st, k) \<mapsto> d)
    | Inl e \<Rightarrow> is_upstream_error e \<and>
        (content s' = content s \<or> content s' = (content s)((so_bucket st, k) \<mapsto> d))"
proof -
  let ?put = "put_object (so_client st) (so_bucket st) k d ct"
  let ?I = "\<lambda>t. content t = content s \<or> content t = (content s)((so_bucket st, k) \<mapsto> d)"
  have law: "content t' = (content t)((so_bucket st, k) \<mapsto> d) \<or> (\<exists>e. q = Inl e) \<and> content t' = content t"
    if "?put t = (q, t')" for t q t' using assms(2) that unfolding s3_laws_def by blast
  obtain r0 where call: "s3_call st ?put s = (r0, s')"
    and r: "r = (case r0 of Inl e \<Rightarrow> Inl e | Inr u \<Rightarrow> Inr (''s3://'' @ so_bucket st @ ''/'' @ k))"
    using run by (auto simp: put_bytes_def bindE_def ret_def split: prod.splits sum.splits)
  have "?I s' \<and> (case r0 of Inr u \<Rightarrow> \<exists>t. ?I t \<and> ?put t = (Inr u, s') | Inl e \<Rightarrow> is_upstream_error e)"
    by (rule s3_call_outcome [OF assms(1) call, where I = ?I]) (use law in fastforce)+
  with r show ?thesis by (cases r0) (auto dest!: law)
qed

lemma get_bytes_outcome:
  assumes "store_ok st" "s3_laws (so_client st) content" and run: "get_bytes st k s = (r, s')"
  shows "content s' = content s \<and>
    (case r of Inr d \<Rightarrow> content s (so_bucket st, k) = Some d | Inl e \<Rightarrow> is_upstream_error e)"
proof -
  let ?fetch = "fetch_and_read (so_client st) (so_bucket st) k"
  let ?body = "tryE (thread_offloader_run ?fetch) (\<lambda>exc. raiseE (classify_botocore_error exc))"
  have law: "content t' = content t \<and> (\<forall>d. q = Inr d \<longrightarrow> content t (so_bucket st, k) = Some d)"
    if "?fetch t = (q, t')" for t q t' using assms(2) that unfolding s3_laws_def by blast
  have body: "?body t = (case ?fetch t of (Inl e, t') \<Rightarrow> (Inl (classify_botocore_error e), t') | (Inr u, t') \<Rightarrow> (Inr u, t'))"
    for t by (simp add: tryE_def raiseE_def thread_offloader.off_id split: prod.split sum.split)
  have trace: "attempts_ok ?body t es r s' \<Longrightarrow> content t = content s \<Longrightarrow> content s' = content s \<and>
      (case r of Inr d \<Rightarrow> content s (so_bucket st, k) = Some d | Inl e \<Rightarrow> is_upstream_error e)" for t es
  proof (induction es arbitrary: t)
    case Nil
    obtain q t' where fn: "?fetch t = (q, t')" by (cases "?fetch t")
    with Nil body [of t] law [OF fn] show ?case by (cases q) auto
  next
    case (Cons e es)
    obtain q t' where fn: "?fetch t = (q, t')" by (cases "?fetch t")
    with body [of t] have "snd (?body t) = t'" by (cases q) auto
    with Cons.prems(1) have "attempts_ok ?body t' es r s'" by simp
    moreover have "content t' = content s" using law [OF fn] Cons.prems(2) by simp
    ultimately show ?case by (rule Cons.IH)
  qed
  from assms(1) run obtain es where "attempts_ok ?body s es r s'"
    using retrying_trace [of "so_run_bytes st" "so_retry st" ?body s r s']
    by (auto simp: get_bytes_def adapter_call_def store_ok_def)
  from trace [OF this refl] show ?thesis .
qed

lemma s3_object_store:
  assumes "store_ok st" "s3_laws (so_client st) content"
  shows "object_store (put_bytes st) (get_bytes st) (\<lambda>s k. content s (so_bucket st, k))
    (\<lambda>k. ''s3://'' @ so_bucket st @ ''/'' @ k)"
proof
  fix k d ct s r s'
  assume "put_bytes st k d ct s = (r, s')"
  from put_bytes_outcome [OF assms this] show "case r of
      Inr ref \<Rightarrow> ref = ''s3://'' @ so_bucket st @ ''/'' @ k \<and>
        (\<lambda>k. content s' (so_bucket st, k)) = (\<lambda>k. content s (so_bucket st, k))(k \<mapsto> d)
    | Inl e \<Rightarrow> is_upstream_error e \<and> ((\<lambda>k. content s' (so_bucket st, k)) = (\<lambda>k. content s (so_bucket st, k)) \<or>
        (\<lambda>k. content s' (so_bucket st, k)) = (\<lambda>k. content s (so_bucket st, k))(k \<mapsto> d))"
    by (auto simp: fun_eq_iff split: sum.splits)
next
  fix k s r s'
  assume "get_bytes st k s = (r, s')"
  from get_bytes_outcome [OF assms this]
  show "(\<lambda>k. content s' (so_bucket st, k)) = (\<lambda>k. content s (so_bucket st, k)) \<and>
      (case r of Inr d \<Rightarrow> content s (so_bucket st, k) = Some d | Inl e \<Rightarrow> is_upstream_error e)"
    by (auto split: sum.splits)
qed

lemma mem_store_ok: "store_ok mem_store"
  by (simp add: store_ok_def mem_store_def loop_runner_laws retry_settings_ok_def default_retry_def)

interpretation mem_store: object_store "put_bytes mem_store" "get_bytes mem_store"
    "\<lambda>s k. map_of (ms_objects s) (so_bucket mem_store, k)" "\<lambda>k. ''s3://'' @ so_bucket mem_store @ ''/'' @ k"
  by (rule s3_object_store [OF mem_store_ok]) (simp add: mem_store_def mem_s3_laws)

subsection \<open>Properties\<close>


definition s3_slow_down :: sdk_error where
  "s3_slow_down =
     \<lparr>sdk_mro = [''botocore.exceptions.ClientError''], sdk_name = ''ClientError'',
      sdk_text = ''Slow Down'', sdk_repr = ''ClientError()'', sdk_status = None, sdk_response_status = None,
      sdk_client_response = \<lparr>cr_code = Some ''SlowDown'', cr_message = None, cr_status = Some 503\<rparr>\<rparr>"


text \<open>
  The existence probe answers by status code: it returns \<open>True\<close> exactly when the \<open>HEAD\<close> succeeds,
  \<open>False\<close> exactly on a client error with status 404, and otherwise raises an upstream error; it makes one
  call and is never retried.
\<close>

theorem bucket_exists_spec:
  "(case (head_bucket (so_client st) (so_bucket st) s, bucket_exists st s) of
      ((Inr u, s1), (r, s')) \<Rightarrow> r = Inr True \<and> s' = s1
    | ((Inl e, s1), (r, s')) \<Rightarrow> s' = s1 \<and>
        (if isinstance e CLIENT_ERROR \<and> \<not> is_transient e \<and> http_status e = 404 then r = Inr False
         else \<exists>e'. r = Inl e' \<and> is_upstream_error e' \<and> cause_of e' = Some e))"
proof -
  have c: "cause_of (classify_botocore_error e) = Some e" "is_upstream_error (classify_botocore_error e)" for e
    using classify_botocore_wraps [of e] by (simp_all add: wraps_def)
  have n: "\<not> isinstance (classify_botocore_error e) cs" for e cs
    using c(2) [of e] by (cases "classify_botocore_error e") (auto simp: is_upstream_error_def)
  have s: "isinstance e CLIENT_ERROR \<Longrightarrow> \<not> is_transient e" for e by (cases e) auto
  show ?thesis
    by (auto simp: bucket_exists_def s3_call_no_retry_def thread_offloader.off_id tryE_def tryElse_def
        raiseE_def ret_def c n s split: prod.splits sum.splits)
qed

end
