(* ===== verification/Schema.thy ===== *)
theory Schema
  imports Repository
begin

section \<open>The schema of the table \<open>jobs\<close> (\<open>persistence/tables.py\<close>, \<open>migrations/versions/0001\<close>)\<close>

text \<open>
  The table is written down twice in the repository: the class \<open>JobRow\<close>, from which the ORM reads and
  writes (\<open>job_row_attributes\<close> and \<open>job_row_table_args\<close>), and the arguments of
  \<open>op.create_table\<close> in the first migration (\<open>create_jobs_args\<close>), from which the deployed table is
  created.  Both are data here, in the shape of the calls of the source.  \<open>table_of\<close> and
  \<open>orm_column\<close> turn them into the table they describe, by SQLAlchemy's documented rules: an
  attribute without an explicit type takes the type of its annotation in the default type map (where
  \<open>datetime\<close> is \<open>DateTime()\<close>, without time zone), a primary key is not nullable, and
  \<open>index=True\<close> is an index named \<open>ix_<table>_<column>\<close>.

  \<open>table_admits\<close> says which rows PostgreSQL accepts into a table: a value of the column's type, no
  NULL in a column that is not nullable, and no violated \<open>CHECK\<close>, whose condition is read from
  its text (\<open>column in ('a','b')\<close>).  The driver asyncpg maps \<open>timestamp\<close> to naive and
  \<open>timestamptz\<close> to aware datetimes, so an aware datetime is a value of a column with time zone
  only.  The lemmas connect the two descriptions with each other and with \<open>row_fits\<close>, the acceptance
  condition the model of the table in \<open>Repository\<close> uses.
\<close>

subsection \<open>Columns and tables\<close>

datatype sql_type =
    SaUuid
  | SaString "nat option"
  | SaJSONB
  | SaJSON
  | SaInteger
  | SaDateTime bool
  | SaVariant sql_type string sql_type

datatype server_default = DefaultText string | FuncNow

record column =
  col_name :: string
  col_type :: sql_type
  col_nullable :: bool
  col_server_default :: "server_default option"

datatype table_arg =
    Column column
  | PrimaryKeyConstraint "string list" "string option"
  | CheckConstraint string string
  | Index string "string list"

record table =
  tb_columns :: "column list"
  tb_primary_key :: "string list"
  tb_pk_name :: "string option"
  tb_checks :: "(string \<times> string) list"

text \<open>\<open>with_variant\<close>: the type used on a dialect.\<close>

fun dialect_type :: "string \<Rightarrow> sql_type \<Rightarrow> sql_type" where
  "dialect_type dialect (SaVariant t other u) = (if other = dialect then u else dialect_type dialect t)"
| "dialect_type dialect t = t"

fun arg_columns :: "table_arg list \<Rightarrow> column list" where
  "arg_columns [] = []"
| "arg_columns (Column c # args) = c # arg_columns args"
| "arg_columns (_ # args) = arg_columns args"

fun arg_checks :: "table_arg list \<Rightarrow> (string \<times> string) list" where
  "arg_checks [] = []"
| "arg_checks (CheckConstraint sqltext name # args) = (name, sqltext) # arg_checks args"
| "arg_checks (_ # args) = arg_checks args"

fun arg_primary_key :: "table_arg list \<Rightarrow> string list \<times> string option" where
  "arg_primary_key [] = ([], None)"
| "arg_primary_key (PrimaryKeyConstraint cols name # args) = (cols, name)"
| "arg_primary_key (_ # args) = arg_primary_key args"

fun arg_indexes :: "table_arg list \<Rightarrow> (string \<times> string list) list" where
  "arg_indexes [] = []"
| "arg_indexes (Index name cols # args) = (name, cols) # arg_indexes args"
| "arg_indexes (_ # args) = arg_indexes args"

definition table_of :: "table_arg list \<Rightarrow> table" where
  "table_of args =
     \<lparr>tb_columns = map (\<lambda>c. if col_name c \<in> set (fst (arg_primary_key args))
                            then c\<lparr>col_nullable := False\<rparr> else c) (arg_columns args),
      tb_primary_key = fst (arg_primary_key args), tb_pk_name = snd (arg_primary_key args),
      tb_checks = arg_checks args\<rparr>"

subsection \<open>The arguments of \<open>op.create_table\<close> in revision 0001\<close>

definition create_jobs_args :: "table_arg list" where
  "create_jobs_args =
     [Column \<lparr>col_name = ''id'', col_type = SaUuid, col_nullable = False,
              col_server_default = None\<rparr>,
      Column \<lparr>col_name = ''type'', col_type = SaString (Some 32), col_nullable = False,
              col_server_default = None\<rparr>,
      Column \<lparr>col_name = ''status'', col_type = SaString (Some 16), col_nullable = False,
              col_server_default = None\<rparr>,
      Column \<lparr>col_name = ''payload'', col_type = SaJSONB, col_nullable = False,
              col_server_default = None\<rparr>,
      Column \<lparr>col_name = ''result_ref'', col_type = SaString (Some 512), col_nullable = True,
              col_server_default = None\<rparr>,
      Column \<lparr>col_name = ''error'', col_type = SaString (Some 2048), col_nullable = True,
              col_server_default = None\<rparr>,
      Column \<lparr>col_name = ''attempts'', col_type = SaInteger, col_nullable = False,
              col_server_default = Some (DefaultText ''0'')\<rparr>,
      Column \<lparr>col_name = ''created_at'', col_type = SaDateTime True, col_nullable = False,
              col_server_default = Some FuncNow\<rparr>,
      Column \<lparr>col_name = ''updated_at'', col_type = SaDateTime True, col_nullable = False,
              col_server_default = Some FuncNow\<rparr>,
      Column \<lparr>col_name = ''duration_ms'', col_type = SaInteger, col_nullable = True,
              col_server_default = None\<rparr>,
      PrimaryKeyConstraint [''id''] (Some ''pk_jobs''),
      CheckConstraint ''status in ('pending','running','success','failed')''
        ''ck_jobs_status'',
      CheckConstraint ''type in ('rag_query','embed_document')'' ''ck_jobs_type'']"

text \<open>The table after \<open>op.create_table\<close>.\<close>

definition migrated_table :: table where
  "migrated_table = table_of create_jobs_args"

subsection \<open>The class \<open>JobRow\<close>\<close>

datatype annotation = AnnUuid | AnnStr | AnnDict | AnnInt | AnnDatetime | AnnOptional annotation

record mapped_column =
  mc_name :: string
  mc_annotation :: annotation
  mc_type :: "sql_type option"
  mc_primary_key :: bool
  mc_nullable :: "bool option"
  mc_index :: bool
  mc_default :: "int option"
  mc_server_default :: "server_default option"

definition mapped :: "string \<Rightarrow> annotation \<Rightarrow> sql_type option \<Rightarrow> bool \<Rightarrow> mapped_column" where
  "mapped name ann ty nullable =
     \<lparr>mc_name = name, mc_annotation = ann, mc_type = ty, mc_primary_key = False,
      mc_nullable = Some nullable, mc_index = False, mc_default = None, mc_server_default = None\<rparr>"

definition job_row_attributes :: "mapped_column list" where
  "job_row_attributes =
     [\<lparr>mc_name = ''id'', mc_annotation = AnnUuid, mc_type = Some SaUuid, mc_primary_key = True,
       mc_nullable = None, mc_index = False, mc_default = None, mc_server_default = None\<rparr>,
      (mapped ''type'' AnnStr (Some (SaString (Some 32))) False)\<lparr>mc_index := True\<rparr>,
      (mapped ''status'' AnnStr (Some (SaString (Some 16))) False)\<lparr>mc_index := True\<rparr>,
      mapped ''payload'' AnnDict (Some (SaVariant SaJSONB ''sqlite'' SaJSON)) False,
      mapped ''result_ref'' (AnnOptional AnnStr) (Some (SaString (Some 512))) True,
      mapped ''error'' (AnnOptional AnnStr) (Some (SaString (Some 2048))) True,
      (mapped ''attempts'' AnnInt (Some SaInteger) False)\<lparr>mc_default := Some 0\<rparr>,
      (mapped ''created_at'' AnnDatetime None False)\<lparr>mc_server_default := Some FuncNow\<rparr>,
      (mapped ''updated_at'' AnnDatetime None False)\<lparr>mc_server_default := Some FuncNow\<rparr>,
      mapped ''duration_ms'' (AnnOptional AnnInt) (Some SaInteger) True]"

definition job_row_table_args :: "table_arg list" where
  "job_row_table_args =
     [Index ''ix_jobs_status_created_at'' [''status'', ''created_at''],
      CheckConstraint ''status in ('pending','running','success','failed')'' ''ck_jobs_status'',
      CheckConstraint ''type in ('rag_query','embed_document')'' ''ck_jobs_type'']"

text \<open>The rules of SQLAlchemy's declarative mapping.\<close>

fun is_optional :: "annotation \<Rightarrow> bool" where
  "is_optional (AnnOptional _) = True"
| "is_optional _ = False"

fun default_type :: "annotation \<Rightarrow> sql_type option" where
  "default_type AnnUuid = Some SaUuid"
| "default_type AnnStr = Some (SaString None)"
| "default_type AnnInt = Some SaInteger"
| "default_type AnnDatetime = Some (SaDateTime False)"
| "default_type (AnnOptional a) = default_type a"
| "default_type AnnDict = None"

definition attribute_type :: "mapped_column \<Rightarrow> sql_type option" where
  "attribute_type a =
     (case mc_type a of Some t \<Rightarrow> Some t | None \<Rightarrow> default_type (mc_annotation a))"

definition orm_column :: "mapped_column \<Rightarrow> column option" where
  "orm_column a =
     map_option (\<lambda>t.
       \<lparr>col_name = mc_name a, col_type = t,
        col_nullable =
          (case mc_nullable a of
             Some b \<Rightarrow> b
           | None \<Rightarrow> \<not> mc_primary_key a \<and> is_optional (mc_annotation a)),
        col_server_default = mc_server_default a\<rparr>) (attribute_type a)"

definition orm_args :: "mapped_column list \<Rightarrow> table_arg list \<Rightarrow> table_arg list" where
  "orm_args attrs args =
     map Column (List.map_filter orm_column attrs) @
     PrimaryKeyConstraint (map mc_name (filter mc_primary_key attrs)) None # args"

definition orm_indexes ::
  "string \<Rightarrow> mapped_column list \<Rightarrow> table_arg list \<Rightarrow> (string \<times> string list) list" where
  "orm_indexes table attrs args =
     map (\<lambda>a. (''ix_'' @ table @ ''_'' @ mc_name a, [mc_name a])) (filter mc_index attrs) @
     arg_indexes args"

definition jobs_tablename :: string where
  "jobs_tablename = ''jobs''"

definition declared_table :: table where
  "declared_table = table_of (orm_args job_row_attributes job_row_table_args)"

definition declared_indexes :: "(string \<times> string list) list" where
  "declared_indexes = orm_indexes jobs_tablename job_row_attributes job_row_table_args"

definition on_dialect :: "string \<Rightarrow> table \<Rightarrow> table" where
  "on_dialect dialect t =
     t\<lparr>tb_columns := map (\<lambda>c. c\<lparr>col_type := dialect_type dialect (col_type c)\<rparr>) (tb_columns t)\<rparr>"

subsection \<open>Which rows a table accepts\<close>

text \<open>A timestamp carries whether it is aware; its instant is the integer of the model.\<close>

datatype sql_value =
    VNull
  | VUuid uuid
  | VText string
  | VJson pydict
  | VInt int
  | VTimestamp bool int

text \<open>
  PostgreSQL keeps no NUL character: neither in a text nor, in contrast to the textual \<open>JSON\<close> of SQLite, anywhere
  in a \<open>JSONB\<close> document.
\<close>

definition nul_free :: "string \<Rightarrow> bool" where
  "nul_free s \<longleftrightarrow> CHR 0x00 \<notin> set s"

fun nul_free_value :: "pyval \<Rightarrow> bool" where
  "nul_free_value (PStr s) = nul_free s"
| "nul_free_value (PList vs) = list_all nul_free_value vs"
| "nul_free_value (PDict kvs) = list_all (\<lambda>(k, v). nul_free k \<and> nul_free_value v) kvs"
| "nul_free_value _ = True"

fun type_admits :: "sql_type \<Rightarrow> sql_value \<Rightarrow> bool" where
  "type_admits SaUuid (VUuid i) = True"
| "type_admits (SaString None) (VText s) = nul_free s"
| "type_admits (SaString (Some n)) (VText s) = (length s \<le> n \<and> nul_free s)"
| "type_admits SaJSONB (VJson d) = nul_free_value (PDict d)"
| "type_admits SaJSON (VJson d) = True"
| "type_admits SaInteger (VInt n) = int4 n"
| "type_admits (SaDateTime tz) (VTimestamp aware t) = (aware \<longrightarrow> tz)"
| "type_admits _ _ = False"

definition column_admits :: "column \<Rightarrow> sql_value \<Rightarrow> bool" where
  "column_admits c v = (if v = VNull then col_nullable c else type_admits (col_type c) v)"

text \<open>
  A condition \<open>column in ('a','b')\<close>: cut at the quotes, the first piece begins with the column's name, the
  values are every second piece.
\<close>

fun every_second :: "'a list \<Rightarrow> 'a list" where
  "every_second (x # y # xs) = y # every_second xs"
| "every_second _ = []"

definition check_column :: "string \<Rightarrow> string" where
  "check_column sqltext = takeWhile (\<lambda>c. c \<noteq> CHR '' '') sqltext"

definition check_values :: "string \<Rightarrow> string list" where
  "check_values sqltext = every_second (py_split (CHR 0x27) sqltext)"

text \<open>A \<open>CHECK\<close> on NULL is unknown, which passes.\<close>

definition check_admits :: "(string \<Rightarrow> sql_value) \<Rightarrow> string \<Rightarrow> bool" where
  "check_admits row sqltext =
     (case row (check_column sqltext) of
        VNull \<Rightarrow> True
      | VText v \<Rightarrow> v \<in> set (check_values sqltext)
      | _ \<Rightarrow> False)"

definition table_admits :: "table \<Rightarrow> (string \<Rightarrow> sql_value) \<Rightarrow> bool" where
  "table_admits t row \<longleftrightarrow>
     list_all (\<lambda>c. column_admits c (row (col_name c))) (tb_columns t) \<and>
     list_all (\<lambda>(name, sqltext). check_admits row sqltext) (tb_checks t)"

definition opt_value :: "('a \<Rightarrow> sql_value) \<Rightarrow> 'a option \<Rightarrow> sql_value" where
  "opt_value f v = (case v of None \<Rightarrow> VNull | Some x \<Rightarrow> f x)"

text \<open>The values of a \<open>JobRow\<close>, with timestamps that are aware or not.\<close>

definition row_values :: "bool \<Rightarrow> job_row \<Rightarrow> (string \<times> sql_value) list" where
  "row_values aware row =
     [(''id'', VUuid (r_id row)), (''type'', VText (r_type row)), (''status'', VText (r_status row)),
      (''payload'', VJson (r_payload row)), (''result_ref'', opt_value VText (r_result_ref row)),
      (''error'', opt_value VText (r_error row)), (''attempts'', VInt (r_attempts row)),
      (''created_at'', VTimestamp aware (r_created_at row)),
      (''updated_at'', VTimestamp aware (r_updated_at row)),
      (''duration_ms'', opt_value VInt (r_duration_ms row))]"

definition values_of :: "bool \<Rightarrow> job_row \<Rightarrow> string \<Rightarrow> sql_value" where
  "values_of aware row c = (case map_of (row_values aware row) c of None \<Rightarrow> VNull | Some v \<Rightarrow> v)"

text \<open>The part of this that \<open>row_fits\<close>, the model of the store, does not look at.\<close>

definition row_nul_free :: "job_row \<Rightarrow> bool" where
  "row_nul_free row \<longleftrightarrow>
     nul_free_value (PDict (r_payload row)) \<and> (\<forall>s \<in> set_option (r_result_ref row). nul_free s) \<and>
     (\<forall>s \<in> set_option (r_error row). nul_free s)"

subsection \<open>Lemmas\<close>

lemma enum_texts_nul_free [simp]:
  "nul_free ''pending''" "nul_free ''running''" "nul_free ''success''" "nul_free ''failed''"
  "nul_free ''rag_query''" "nul_free ''embed_document''"
  by code_simp+

text \<open>What the two \<open>CHECK\<close> texts say.\<close>

lemma status_check [simp]:
  "check_column ''status in ('pending','running','success','failed')'' = ''status''"
  "check_values ''status in ('pending','running','success','failed')'' =
     [''pending'', ''running'', ''success'', ''failed'']"
  by code_simp+

lemma type_check [simp]:
  "check_column ''type in ('rag_query','embed_document')'' = ''type''"
  "check_values ''type in ('rag_query','embed_document')'' = [''rag_query'', ''embed_document'']"
  by code_simp+

lemma column_admits_opt [simp]:
  "column_admits c (opt_value VText s) =
     (case s of None \<Rightarrow> col_nullable c | Some x \<Rightarrow> type_admits (col_type c) (VText x))"
  "column_admits c (opt_value VInt n) =
     (case n of None \<Rightarrow> col_nullable c | Some x \<Rightarrow> type_admits (col_type c) (VInt x))"
  by (simp_all add: column_admits_def opt_value_def split: option.splits)

lemma column_admits_value [simp]:
  "column_admits c (VText s) = type_admits (col_type c) (VText s)"
  "column_admits c (VUuid i) = type_admits (col_type c) (VUuid i)"
  "column_admits c (VJson d) = type_admits (col_type c) (VJson d)"
  "column_admits c (VInt n) = type_admits (col_type c) (VInt n)"
  "column_admits c (VTimestamp a t) = type_admits (col_type c) (VTimestamp a t)"
  by (simp_all add: column_admits_def)

lemma values_of_simps [simp]:
  "values_of aware row ''id'' = VUuid (r_id row)"
  "values_of aware row ''type'' = VText (r_type row)"
  "values_of aware row ''status'' = VText (r_status row)"
  "values_of aware row ''payload'' = VJson (r_payload row)"
  "values_of aware row ''result_ref'' = opt_value VText (r_result_ref row)"
  "values_of aware row ''error'' = opt_value VText (r_error row)"
  "values_of aware row ''attempts'' = VInt (r_attempts row)"
  "values_of aware row ''created_at'' = VTimestamp aware (r_created_at row)"
  "values_of aware row ''updated_at'' = VTimestamp aware (r_updated_at row)"
  "values_of aware row ''duration_ms'' = opt_value VInt (r_duration_ms row)"
  by (simp_all add: values_of_def row_values_def)

lemma migrated_table_unfold:
  "migrated_table =
     \<lparr>tb_columns = arg_columns create_jobs_args, tb_primary_key = [''id''],
      tb_pk_name = Some ''pk_jobs'',
      tb_checks =
        [(''ck_jobs_status'', ''status in ('pending','running','success','failed')''),
         (''ck_jobs_type'', ''type in ('rag_query','embed_document')'')]\<rparr>"
  by (simp add: migrated_table_def table_of_def create_jobs_args_def)

lemma declared_table_unfold:
  "on_dialect ''postgresql'' declared_table =
     \<lparr>tb_columns =
        map (\<lambda>c. if col_name c = ''attempts'' then c\<lparr>col_server_default := None\<rparr>
             else if col_name c \<in> {''created_at'', ''updated_at''} then c\<lparr>col_type := SaDateTime False\<rparr>
             else c) (arg_columns create_jobs_args),
      tb_primary_key = [''id''], tb_pk_name = None,
      tb_checks =
        [(''ck_jobs_status'', ''status in ('pending','running','success','failed')''),
         (''ck_jobs_type'', ''type in ('rag_query','embed_document')'')]\<rparr>"
  by (simp add: declared_table_def on_dialect_def table_of_def orm_args_def job_row_attributes_def
      mapped_def orm_column_def attribute_type_def List.map_filter_def job_row_table_args_def
      create_jobs_args_def)

lemma declared_admits:
  "table_admits (on_dialect ''postgresql'' declared_table) (values_of aware row) =
     (\<not> aware \<and> row_fits row \<and> row_nul_free row)"
  by (auto simp: row_nul_free_def declared_table_unfold create_jobs_args_def table_admits_def check_admits_def
      row_fits_def fits_def split: option.splits)

lemma migrated_admits:
  "table_admits migrated_table (values_of aware row) = (row_fits row \<and> row_nul_free row)"
  by (auto simp: row_nul_free_def migrated_table_unfold create_jobs_args_def table_admits_def check_admits_def
      row_fits_def fits_def split: option.splits)


subsection \<open>Comparing the two descriptions\<close>

text \<open>
  The comparison Alembic's autogenerate makes of the columns of two tables, with the two options
  \<open>migrations/env.py\<close> sets (\<open>compare_type\<close>, \<open>compare_server_default\<close>).
\<close>

datatype column_diff =
    AddColumn string
  | RemoveColumn string
  | ModifyNullable string bool bool
  | ModifyType string sql_type sql_type
  | ModifyDefault string "server_default option" "server_default option"

definition column_diffs :: "bool \<Rightarrow> bool \<Rightarrow> column \<Rightarrow> column \<Rightarrow> column_diff list" where
  "column_diffs compare_type compare_server_default old new =
     (if col_nullable old = col_nullable new then []
      else [ModifyNullable (col_name old) (col_nullable old) (col_nullable new)]) @
     (if compare_type \<and> col_type old \<noteq> col_type new
      then [ModifyType (col_name old) (col_type old) (col_type new)] else []) @
     (if compare_server_default \<and> col_server_default old \<noteq> col_server_default new
      then [ModifyDefault (col_name old) (col_server_default old) (col_server_default new)] else [])"

definition find_column :: "table \<Rightarrow> string \<Rightarrow> column option" where
  "find_column t n = find (\<lambda>c. col_name c = n) (tb_columns t)"

definition table_diffs :: "bool \<Rightarrow> bool \<Rightarrow> table \<Rightarrow> table \<Rightarrow> column_diff list" where
  "table_diffs compare_type compare_server_default old new =
     concat (map (\<lambda>c. case find_column new (col_name c) of
                        None \<Rightarrow> [RemoveColumn (col_name c)]
                      | Some d \<Rightarrow> column_diffs compare_type compare_server_default c d) (tb_columns old)) @
     map (\<lambda>c. AddColumn (col_name c)) (filter (\<lambda>c. find_column old (col_name c) = None) (tb_columns new))"

subsection \<open>Properties\<close>

text \<open>
  C33. The table the migration creates accepts exactly the rows that the model of the job store accepts
  (\<open>row_fits\<close>), NUL characters apart, with naive and with aware timestamps, and every row the repository writes for a
  job without one whose texts and counters fit their columns is accepted, whatever its state: the \<open>CHECK\<close>
  constraints, spelled out in SQL, list exactly the values of the two enumerations.
\<close>

theorem migrated_table_admits_jobs:
  "table_admits migrated_table (values_of aware row) = (row_fits row \<and> row_nul_free row) \<and>
   set (check_values ''status in ('pending','running','success','failed')'') = range status_value \<and>
   set (check_values ''type in ('rag_query','embed_document')'') = range type_value \<and>
   table_admits migrated_table (values_of aware (to_row job)) =
     (fits 512 (j_result_ref job) \<and> fits 2048 (j_error job) \<and> int4 (j_attempts job) \<and>
      (case j_duration_ms job of None \<Rightarrow> True | Some n \<Rightarrow> int4 n) \<and> row_nul_free (to_row job))"
proof -
  have "row_fits (to_row job) =
     (fits 512 (j_result_ref job) \<and> fits 2048 (j_error job) \<and> int4 (j_attempts job) \<and>
      (case j_duration_ms job of None \<Rightarrow> True | Some n \<Rightarrow> int4 n))"
    by (cases "j_status job"; cases "j_type job") (simp_all add: row_fits_def to_row_def)
  then show ?thesis by (simp add: migrated_admits range_values)
qed

text \<open>
  The two descriptions of the table agree on the columns and their order, on nullability, the primary key, the
  \<open>CHECK\<close> constraints and the indexes, but not on everything: a comparison with the options of
  \<open>env.py\<close> finds that the migration gives \<open>attempts\<close> a server default and the two timestamps a
  time zone, which the class does not.  The class therefore refuses what the migrated table accepts:
  with the column types it declares no row with aware timestamps, the only ones the domain makes, is
  accepted, although a comment promises \<open>timestamptz\<close>.
\<close>

theorem declared_schema_drifts:
  "let d = on_dialect ''postgresql'' declared_table; m = migrated_table in
     map col_name (tb_columns d) = map col_name (tb_columns m) \<and>
     map col_nullable (tb_columns d) = map col_nullable (tb_columns m) \<and>
     tb_primary_key d = tb_primary_key m \<and> tb_checks d = tb_checks m \<and>
     table_diffs True True m d =
       [ModifyDefault ''attempts'' (Some (DefaultText ''0'')) None,
        ModifyType ''created_at'' (SaDateTime True) (SaDateTime False),
        ModifyType ''updated_at'' (SaDateTime True) (SaDateTime False)] \<and>
     table_admits d (values_of False row) = (row_fits row \<and> row_nul_free row) \<and>
     \<not> table_admits d (values_of True row)"
proof -
  have "table_diffs True True migrated_table (on_dialect ''postgresql'' declared_table) =
       [ModifyDefault ''attempts'' (Some (DefaultText ''0'')) None,
        ModifyType ''created_at'' (SaDateTime True) (SaDateTime False),
        ModifyType ''updated_at'' (SaDateTime True) (SaDateTime False)]"
    by (simp add: table_diffs_def find_column_def column_diffs_def declared_table_unfold
        migrated_table_unfold create_jobs_args_def)
  moreover have "map col_name (tb_columns (on_dialect ''postgresql'' declared_table)) =
       map col_name (tb_columns migrated_table)"
    "map col_nullable (tb_columns (on_dialect ''postgresql'' declared_table)) =
       map col_nullable (tb_columns migrated_table)"
    by (simp_all add: declared_table_unfold migrated_table_unfold create_jobs_args_def)
  ultimately show ?thesis
    by (simp only: Let_def declared_admits) (simp add: declared_table_unfold migrated_table_unfold)
qed

end
