(* ===== verification/Requests.thy ===== *)
theory Requests
  imports Api SettingsLoad Schema
begin

section \<open>Request bodies (\<open>api/schemas.py\<close>)\<close>

text \<open>
  The validation of the body of \<open>POST /v1/jobs\<close>: \<open>JobSubmission\<close> with the discriminated union of the two
  payloads.  As for the settings, pydantic's conversion to \<open>int\<close> is a parameter (\<open>co_int\<close>) and the rest is written out: the
  tag that selects the member (pydantic requires it, whatever default the member gives it), the
  constraints and defaults of the fields, and \<open>extra="forbid"\<close>.  A rejected body is the list of the locations of the
  errors, in pydantic's order; the location of an error in the union goes through the tag.
\<close>

type_synonym location = "string list"

subsection \<open>The models\<close>

definition required :: "(pyval \<Rightarrow> 'a option) \<Rightarrow> pyval option \<Rightarrow> 'a option" where
  "required conv given = (case given of None \<Rightarrow> None | Some v \<Rightarrow> conv v)"

definition forbid_extra :: "string list \<Rightarrow> pydict \<Rightarrow> string list" where
  "forbid_extra known d = filter (\<lambda>k. k \<notin> set known) (map fst d)"

definition rag_query_payload :: "coercions \<Rightarrow> pydict \<Rightarrow> string list \<times> job_payload" where
  "rag_query_payload co d =
     (let query = required (constrained (\<lambda>s. 1 \<le> length s \<and> length s \<le> 4000) SettingsLoad.as_str) (map_of d ''query'');
          top_k = validated (constrained (\<lambda>n. 1 \<le> n \<and> n \<le> 50) (co_int co)) 5 (map_of d ''top_k'')
      in (invalid ''query'' query @ invalid ''top_k'' top_k @ forbid_extra [''job_type'', ''query'', ''top_k''] d,
          RagQueryPayload (the query) (the top_k)))"

definition embed_document_payload :: "pydict \<Rightarrow> string list \<times> job_payload" where
  "embed_document_payload d =
     (let document_id = required (constrained (\<lambda>s. 1 \<le> length s \<and> length s \<le> 256) SettingsLoad.as_str) (map_of d ''document_id'');
          txt = required (constrained (\<lambda>s. 1 \<le> length s \<and> length s \<le> 200000) SettingsLoad.as_str) (map_of d ''text'')
      in (invalid ''document_id'' document_id @ invalid ''text'' txt @
            forbid_extra [''job_type'', ''document_id'', ''text''] d,
          EmbedDocumentPayload (the document_id) (the txt)))"

definition accepted :: "string \<Rightarrow> string list \<times> job_payload \<Rightarrow> location list + job_payload" where
  "accepted tag parsed =
     (case parsed of (errs, p) \<Rightarrow> if errs = [] then Inr p else Inl (map (\<lambda>field. [tag, field]) errs))"

definition payload_union :: "coercions \<Rightarrow> pyval \<Rightarrow> location list + job_payload" where
  "payload_union co v =
     (case v of
        PDict d \<Rightarrow>
          (case map_of d ''job_type'' of
             Some (PStr tag) \<Rightarrow>
               if tag = type_value RAG_QUERY then accepted tag (rag_query_payload co d)
               else if tag = type_value EMBED_DOCUMENT then accepted tag (embed_document_payload d)
               else Inl [[]]
           | _ \<Rightarrow> Inl [[]])
      | _ \<Rightarrow> Inl [[]])"

definition job_submission :: "coercions \<Rightarrow> pyval \<Rightarrow> location list + job_payload" where
  "job_submission co body =
     (case body of
        PDict d \<Rightarrow>
          (let extra = map (\<lambda>k. [k]) (forbid_extra [''payload''] d)
           in case map_of d ''payload'' of
                None \<Rightarrow> Inl ([''payload''] # extra)
              | Some v \<Rightarrow>
                  (case payload_union co v of
                     Inl errs \<Rightarrow> Inl (map (Cons ''payload'') errs @ extra)
                   | Inr p \<Rightarrow> if extra = [] then Inr p else Inl extra))
      | _ \<Rightarrow> Inl [[]])"

text \<open>The body that carries a payload as \<open>model_dump\<close> writes it.\<close>

definition body_of :: "job_payload \<Rightarrow> pyval" where
  "body_of p = PDict [(''payload'', PDict (model_dump p))]"

subsection \<open>Lemmas\<close>

lemma as_str_iff [simp]: "SettingsLoad.as_str v = Some s \<longleftrightarrow> v = PStr s"
  by (cases v) auto

lemma constrained_iff [simp]: "constrained ok conv v = Some x \<longleftrightarrow> conv v = Some x \<and> ok x"
  by (auto simp: constrained_def split: option.splits)

lemma required_iff: "required conv given = Some x \<longleftrightarrow> (\<exists>v. given = Some v \<and> conv v = Some x)"
  by (auto simp: required_def split: option.splits)

lemma no_invalid [simp]: "invalid loc v = [] \<longleftrightarrow> (\<exists>x. v = Some x)"
  by (auto simp: invalid_def split: option.splits)

lemma no_extra [simp]: "forbid_extra known d = [] \<longleftrightarrow> fst ` set d \<subseteq> set known"
  by (auto simp: forbid_extra_def filter_empty_conv)

lemma accepted_Inr [simp]: "accepted tag parsed = Inr p \<longleftrightarrow> parsed = ([], p)"
  by (auto simp: accepted_def split: prod.splits)

lemma validated_iff:
  "validated conv dflt given = Some x \<longleftrightarrow> (case given of None \<Rightarrow> x = dflt | Some v \<Rightarrow> conv v = Some x)"
  by (auto simp: validated_def split: option.splits)

lemma rag_query_payload_ok:
  "rag_query_payload co d = ([], p) \<longleftrightarrow>
     (\<exists>query top_k. p = RagQueryPayload query top_k \<and> valid_payload p \<and> map_of d ''query'' = Some (PStr query) \<and>
        (case map_of d ''top_k'' of None \<Rightarrow> top_k = 5 | Some v \<Rightarrow> co_int co v = Some top_k) \<and>
        fst ` set d \<subseteq> {''job_type'', ''query'', ''top_k''})"
    (is "?l = ?r")
proof -
  let ?q = "required (constrained (\<lambda>s. 1 \<le> length s \<and> length s \<le> 4000) SettingsLoad.as_str) (map_of d ''query'')"
  let ?k = "validated (constrained (\<lambda>n. 1 \<le> n \<and> n \<le> 50) (co_int co)) 5 (map_of d ''top_k'')"
  have "?l \<longleftrightarrow> (\<exists>query top_k. ?q = Some query \<and> ?k = Some top_k \<and> p = RagQueryPayload query top_k \<and>
      fst ` set d \<subseteq> {''job_type'', ''query'', ''top_k''})"
    by (auto simp: rag_query_payload_def Let_def simp del: One_nat_def)
  also have "\<dots> = ?r"
    unfolding required_iff validated_iff constrained_iff as_str_iff
    by (intro ex_cong1) (auto split: option.splits)
  finally show ?thesis .
qed

lemma embed_document_payload_ok:
  "embed_document_payload d = ([], p) \<longleftrightarrow>
     (\<exists>document_id txt. p = EmbedDocumentPayload document_id txt \<and> valid_payload p \<and>
        map_of d ''document_id'' = Some (PStr document_id) \<and> map_of d ''text'' = Some (PStr txt) \<and>
        fst ` set d \<subseteq> {''job_type'', ''document_id'', ''text''})"
    (is "?l = ?r")
proof -
  let ?i = "required (constrained (\<lambda>s. 1 \<le> length s \<and> length s \<le> 256) SettingsLoad.as_str) (map_of d ''document_id'')"
  let ?t = "required (constrained (\<lambda>s. 1 \<le> length s \<and> length s \<le> 200000) SettingsLoad.as_str) (map_of d ''text'')"
  have "?l \<longleftrightarrow> (\<exists>document_id txt. ?i = Some document_id \<and> ?t = Some txt \<and> p = EmbedDocumentPayload document_id txt \<and>
      fst ` set d \<subseteq> {''job_type'', ''document_id'', ''text''})"
    by (auto simp: embed_document_payload_def Let_def simp del: One_nat_def)
  also have "\<dots> = ?r"
    unfolding required_iff constrained_iff as_str_iff
    by (intro ex_cong1) auto
  finally show ?thesis .
qed

text \<open>What an accepted body looks like.\<close>

lemma job_submission_Inr:
  assumes "job_submission co body = Inr p"
  obtains d e where "body = PDict d" and "map_of d ''payload'' = Some (PDict e)" and "fst ` set d \<subseteq> {''payload''}"
    and "map_of e ''job_type'' = Some (PStr (type_value (payload_type p)))" and "valid_payload p"
    and "fst ` set e \<subseteq> fst ` set (model_dump p)"
proof -
  from assms obtain d v where d: "body = PDict d" "map_of d ''payload'' = Some v" "fst ` set d \<subseteq> {''payload''}"
    and v: "payload_union co v = Inr p"
    by (auto simp: job_submission_def Let_def split: pyval.splits option.splits sum.splits if_splits)
  from v obtain e tag where e: "v = PDict e" "map_of e ''job_type'' = Some (PStr tag)"
    and p: "tag = type_value RAG_QUERY \<and> rag_query_payload co e = ([], p) \<or>
      tag = type_value EMBED_DOCUMENT \<and> embed_document_payload e = ([], p)"
    by (auto simp: payload_union_def split: pyval.splits option.splits if_splits)
  from p that [OF d(1) _ d(3)] d(2) e show thesis
    by (auto simp: rag_query_payload_ok embed_document_payload_ok)
qed


lemma only_payload: "job_submission co (PDict [(''payload'', v)]) = Inr p \<longleftrightarrow> payload_union co v = Inr p"
  by (auto simp: job_submission_def Let_def split: sum.splits)

lemma body_of_submission:
  assumes "\<And>n. co_int co (PInt n) = Some n"
  shows "job_submission co (body_of p) = Inr p \<longleftrightarrow> valid_payload p"
  unfolding body_of_def only_payload
  by (cases p) (simp_all add: payload_union_def rag_query_payload_ok embed_document_payload_ok assms)

lemma dumped_payload_ok: "payload_ok (payload_type p) (model_dump p)"
  by (cases p) (simp_all add: str_field_def int_field_def)

text \<open>The jobs table as the migration creates it: an insert that the table does not accept is refused.\<close>

definition schema_session :: "jobs_db session" where
  "schema_session = table_session\<lparr>s_add := (\<lambda>row d.
     if table_admits migrated_table (values_of True row) then s_add table_session row d
     else (Inl (db_error ''DBAPIError'' ''the server rejected the row''), d))\<rparr>"

interpretation schema: sqlalchemy_session schema_session "\<lambda>d. db_lookup (db_rows d)"
proof unfold_locales
  fix d d' :: jobs_db and row and r :: "exn + unit"
  assume "s_add schema_session row d = (r, d')"
  then show "case r of Inl e \<Rightarrow> db_lookup (db_rows d') = db_lookup (db_rows d) \<and> (\<exists>x. e = SdkError x)
      | Inr u \<Rightarrow> db_lookup (db_rows d) (r_id row) = None \<and>
          db_lookup (db_rows d') = (db_lookup (db_rows d))(r_id row \<mapsto> row)"
    using pg.s_add_law [of row d r d'] by (auto simp: schema_session_def db_error_def split: if_splits)
qed (auto simp: schema_session_def intro: pg.row_key dest: pg.s_get_law pg.s_merge_law pg.s_begin_law)

text \<open>An insert that is refused leaves the store alone.\<close>

lemma refused_add:
  assumes "sqlalchemy_session sess rows" and "s_add sess (to_row job) d = (Inl (SdkError e), d1)"
  shows "\<exists>x d'. repo_add sess job d = (Inl (SdkError x), d') \<and> rows d' = rows d"
proof -
  obtain r d' where run: "repo_add sess job d = (r, d')" by (cases "repo_add sess job d")
  from sqlalchemy_session.s_begin_law [OF assms(1) run [unfolded repo_add_def]] assms(2) run show ?thesis by auto
qed

subsection \<open>Properties\<close>

text \<open>
  C20. What validation accepts is exactly what the constraints say and what the rest of the program can use.  An accepted body
  names its payload's type and no field the payload does not have; the payload satisfies the constraints, its dump, which
  is what is stored in the row, passes validation again unchanged, and the pipeline of its type reads the same
  values back from it, so that no accepted job fails as malformed.
\<close>

theorem submission_round_trip:
  assumes "\<And>n. co_int co (PInt n) = Some n"
  shows "(job_submission co (body_of p) = Inr p \<longleftrightarrow> valid_payload p) \<and>
    (job_submission co body = Inr p \<longrightarrow>
       job_submission co (body_of p) = Inr p \<and> payload_ok (payload_type p) (model_dump p) \<and>
       (\<exists>d e. body = PDict d \<and> map_of d ''payload'' = Some (PDict e) \<and>
          map_of e ''job_type'' = Some (PStr (type_value (payload_type p))) \<and>
          fst ` set d = {''payload''} \<and> fst ` set e \<subseteq> fst ` set (model_dump p)) \<and>
       (case p of
          RagQueryPayload query top_k \<Rightarrow>
            require_str (model_dump p) ''query'' = Inr query \<and> optional_int (model_dump p) ''top_k'' 5 = Inr top_k
        | EmbedDocumentPayload document_id txt \<Rightarrow>
            require_str (model_dump p) ''document_id'' = Inr document_id \<and>
            require_str (model_dump p) ''text'' = Inr txt))"
proof (intro conjI impI)
  show "job_submission co (body_of p) = Inr p \<longleftrightarrow> valid_payload p" by (rule body_of_submission [OF assms])
  show "payload_ok (payload_type p) (model_dump p)" by (rule dumped_payload_ok)
  show "case p of
          RagQueryPayload query top_k \<Rightarrow>
            require_str (model_dump p) ''query'' = Inr query \<and> optional_int (model_dump p) ''top_k'' 5 = Inr top_k
        | EmbedDocumentPayload document_id txt \<Rightarrow>
            require_str (model_dump p) ''document_id'' = Inr document_id \<and>
            require_str (model_dump p) ''text'' = Inr txt"
    by (cases p) (simp_all add: require_str_def optional_int_def payload_get_def)
  assume run: "job_submission co body = Inr p"
  then show "job_submission co (body_of p) = Inr p"
    using body_of_submission [OF assms] by (elim job_submission_Inr) blast
  from run show "\<exists>d e. body = PDict d \<and> map_of d ''payload'' = Some (PDict e) \<and>
          map_of e ''job_type'' = Some (PStr (type_value (payload_type p))) \<and>
          fst ` set d = {''payload''} \<and> fst ` set e \<subseteq> fst ` set (model_dump p)"
    by (elim job_submission_Inr) (force dest: map_of_SomeD)
qed

text \<open>A query with the default \<open>top_k\<close>; the same with a misspelt field is rejected, as is one without the tag.\<close>

theorem submission_round_trip_witness:
  "let body = PDict [(''payload'', PDict [(''query'', PStr ''q''), (''job_type'', PStr ''rag_query'')])];
       p = RagQueryPayload ''q'' 5 in
     job_submission sample_coercions body = Inr p \<and> job_submission sample_coercions (body_of p) = Inr p \<and>
     job_submission sample_coercions
       (PDict [(''payload'', PDict [(''job_type'', PStr ''rag_query''), (''quer'', PStr ''q''), (''top_k'', PInt 51)]), (''x'', PNone)]) =
       Inl [[''payload'', ''rag_query'', ''query''], [''payload'', ''rag_query'', ''top_k''], [''payload'', ''rag_query'', ''quer''], [''x'']] \<and>
     job_submission sample_coercions (PDict [(''payload'', PDict [(''query'', PStr ''q'')])]) = Inl [[''payload'']]"
proof -
  let ?body = "PDict [(''payload'', PDict [(''query'', PStr ''q''), (''job_type'', PStr ''rag_query'')])]"
  have run: "job_submission sample_coercions ?body = Inr (RagQueryPayload ''q'' 5)" by code_simp
  have errs: "job_submission sample_coercions
       (PDict [(''payload'', PDict [(''job_type'', PStr ''rag_query''), (''quer'', PStr ''q''), (''top_k'', PInt 51)]), (''x'', PNone)]) =
       Inl [[''payload'', ''rag_query'', ''query''], [''payload'', ''rag_query'', ''top_k''], [''payload'', ''rag_query'', ''quer''], [''x'']]"
    by code_simp
  have tag: "job_submission sample_coercions (PDict [(''payload'', PDict [(''query'', PStr ''q'')])]) = Inl [[''payload'']]"
    by code_simp
  have "co_int sample_coercions (PInt n) = Some n" for n by (simp add: sample_coercions_def)
  from submission_round_trip [OF this, of "RagQueryPayload ''q'' 5" ?body] run errs tag show ?thesis by (simp only: Let_def)
qed

text \<open>
  C21. A request that validation accepts but the database cannot store: a NUL character in the query, the document or its
  id passes the constraints, PostgreSQL refuses the row, and no handler takes the driver's exception.  The client gets the
  framework's 500 rather than a 422; nothing is stored or published.
\<close>

theorem nul_request_unhandled:
  assumes "job_submission co body = Inr p" and "\<not> nul_free_value (PDict (model_dump p))"
    and "sqlalchemy_session sess rows" and "k \<in> set (st_api_keys s)"
    and "\<forall>row d. \<not> table_admits migrated_table (values_of True row) \<longrightarrow> (\<exists>e d'. s_add sess row d = (Inl (SdkError e), d'))"
  shows "\<exists>e w'. submit_job s (Some k) p (sql_repository sess) pub run fresh created updated w = (Inl (SdkError e), w') \<and>
    exception_handler (SdkError e) = None \<and> rows (fst w') = rows (fst w) \<and> snd w' = snd w"
proof -
  let ?job = "job_new (payload_type p) (model_dump p) fresh created updated"
  have "\<not> row_nul_free (to_row ?job)"
    using assms(2) by (simp add: row_nul_free_def to_row_def job_new_def del: nul_free_value.simps)
  then have "\<not> table_admits migrated_table (values_of True (to_row ?job))" by (simp add: migrated_admits)
  with assms(5) obtain e d1 where "s_add sess (to_row ?job) (fst w) = (Inl (SdkError e), d1)" by blast
  from refused_add [OF assms(3) this] obtain x d' where
    "repo_add sess ?job (fst w) = (Inl (SdkError x), d')" "rows d' = rows (fst w)" by blast
  then show ?thesis
    using assms(4) by (simp add: submit_job_def require_api_key_iff submit_def Let_def handled_by_def tryE_def bindE_def
        on_fst_def zoomE_def raiseE_def)
qed

theorem nul_request_unhandled_witness:
  "\<exists>e w'. job_submission sample_coercions
       (PDict [(''payload'', PDict [(''job_type'', PStr ''rag_query''), (''query'', PStr [CHR 0x00])])]) =
       Inr (RagQueryPayload [CHR 0x00] 5) \<and>
     submit_job (default_settings\<lparr>st_api_keys := [''key'']\<rparr>) (Some ''key'') (RagQueryPayload [CHR 0x00] 5)
       (sql_repository schema_session) (publish (producer_init mem_client default_keys default_broker)) loop_runner 1 0 0
       (\<lparr>db_rows = [], db_faults = []\<rparr>, mem_start) = (Inl (SdkError e), w') \<and> snd w' = mem_start"
proof -
  have body: "job_submission sample_coercions
       (PDict [(''payload'', PDict [(''job_type'', PStr ''rag_query''), (''query'', PStr [CHR 0x00])])]) =
       Inr (RagQueryPayload [CHR 0x00] 5)"
    and nul: "\<not> nul_free_value (PDict (model_dump (RagQueryPayload [CHR 0x00] 5)))" by code_simp+
  have key: "''key'' \<in> set (st_api_keys (default_settings\<lparr>st_api_keys := [''key'']\<rparr>))" by simp
  have "\<forall>row d. \<not> table_admits migrated_table (values_of True row) \<longrightarrow>
      (\<exists>e d'. s_add schema_session row d = (Inl (SdkError e), d'))"
    by (simp add: schema_session_def db_error_def)
  from nul_request_unhandled [OF body nul schema.sqlalchemy_session_axioms key this,
      of "publish (producer_init mem_client default_keys default_broker)" loop_runner 1 0 0
        "(\<lparr>db_rows = [], db_faults = []\<rparr>, mem_start)"]
  show ?thesis using body by auto
qed

end
