(* ===== verification/Fakes.thy ===== *)
theory Fakes
  imports Pipelines "HOL-Library.AList" "HOL-Library.Multiset"
begin

section \<open>The in-process providers (\<open>adapters/providers/fake.py\<close>)\<close>

text \<open>
  The four fakes that are the default bundle.  A finite \<open>float\<close> is the rational number it stores; the
  operations of binary64 arithmetic that round (\<open>math.sqrt\<close>, \<open>*\<close>, \<open>/\<close> and \<open>sum\<close>, which
  compensates its rounding since Python 3.12) are the record \<open>float_ops\<close>, about which nothing is assumed, while
  negation and the comparisons are exact and written out.  (In \<open>_cosine\<close> the product of two norms that
  are not zero is not zero in binary64, so that the division does not raise.)  BLAKE2b is the parameter \<open>H\<close>: the
  64 bytes of a digest by text and salt.

  The dictionaries of \<open>FakeVectorStore\<close> are association lists in insertion order, \<open>AList.update\<close> being
  the assignment to a key.  The locales \<open>vector_store\<close> and \<open>embedding_provider\<close> state what the ports of
  \<open>ports/providers.py\<close> document, and are interpreted on the fakes.
\<close>

subsection \<open>Floats, slices, words and sorting\<close>

record float_ops =
  fl_sum :: "pyfloat list \<Rightarrow> pyfloat"
  fl_mul :: "pyfloat \<Rightarrow> pyfloat \<Rightarrow> pyfloat"
  fl_div :: "pyfloat \<Rightarrow> pyfloat \<Rightarrow> pyfloat"
  fl_sqrt :: "pyfloat \<Rightarrow> pyfloat"

text \<open>\<open>-x\<close>, \<open>x < y\<close>, \<open>x == y\<close> and \<open>math.isfinite(x)\<close>; \<open>FInf True\<close> is plus infinity.\<close>

fun fneg :: "pyfloat \<Rightarrow> pyfloat" where
  "fneg (FFin q) = FFin (- q)"
| "fneg (FInf b) = FInf (\<not> b)"
| "fneg FNaN = FNaN"

fun fless :: "pyfloat \<Rightarrow> pyfloat \<Rightarrow> bool" where
  "fless (FFin a) (FFin b) = (a < b)"
| "fless (FFin a) (FInf b) = b"
| "fless (FInf a) (FFin b) = (\<not> a)"
| "fless (FInf a) (FInf b) = (\<not> a \<and> b)"
| "fless _ _ = False"

definition feq :: "pyfloat \<Rightarrow> pyfloat \<Rightarrow> bool" where
  "feq x y \<longleftrightarrow> x = y \<and> x \<noteq> FNaN"

fun is_finite :: "pyfloat \<Rightarrow> bool" where
  "is_finite (FFin q) = True"
| "is_finite _ = False"

text \<open>\<open>xs[:k]\<close>: a negative bound counts from the end.\<close>

definition slice_to :: "int \<Rightarrow> 'a list \<Rightarrow> 'a list" where
  "slice_to k xs = (if 0 \<le> k then take (nat k) xs else take (length xs - nat (- k)) xs)"

text \<open>\<open>s.split()\<close>, the words between runs of white space; \<open>w\<close> is the word being read.\<close>

fun words_from :: "string \<Rightarrow> string \<Rightarrow> string list" where
  "words_from w [] = (if w = [] then [] else [w])"
| "words_from w (c # cs) =
     (if is_space c then (if w = [] then words_from [] cs else w # words_from [] cs)
      else words_from (w @ [c]) cs)"

definition py_words :: "string \<Rightarrow> string list" where
  "py_words s = words_from [] s"

text \<open>\<open>sorted\<close> and \<open>list.sort\<close>: the stable sort by an order of the keys.\<close>

fun insert_by :: "('a \<Rightarrow> 'a \<Rightarrow> bool) \<Rightarrow> 'a \<Rightarrow> 'a list \<Rightarrow> 'a list" where
  "insert_by lt x [] = [x]"
| "insert_by lt x (y # ys) = (if lt y x then y # insert_by lt x ys else x # y # ys)"

definition sort_by :: "('a \<Rightarrow> 'a \<Rightarrow> bool) \<Rightarrow> 'a list \<Rightarrow> 'a list" where
  "sort_by lt xs = foldr (insert_by lt) xs []"

subsection \<open>\<open>FakeEmbedding\<close>\<close>

text \<open>\<open>struct.pack("<Q", counter)[:16].ljust(16, b"\x00")[:16]\<close> and \<open>struct.unpack_from("<f", ...)\<close>.\<close>

definition ljust :: "nat \<Rightarrow> char \<Rightarrow> string \<Rightarrow> string" where
  "ljust n c s = s @ replicate (n - length s) c"

definition pack_Q :: "nat \<Rightarrow> string" where
  "pack_Q n = map (\<lambda>i. char_of (n div 256 ^ i mod 256)) [0..<8]"

definition salt_of :: "nat \<Rightarrow> string" where
  "salt_of counter = take 16 (ljust 16 (char_of (0 :: nat)) (take 16 (pack_Q counter)))"

definition unpack_f :: "string \<Rightarrow> pyfloat" where
  "unpack_f bs =
     (let n = foldr (\<lambda>c k. char_code c + 256 * k) bs 0;
          positive = (n div 2 ^ 31 mod 2 = 0);
          e = n div 2 ^ 23 mod 256;
          m = n mod 2 ^ 23
      in if e = 255 then (if m = 0 then FInf positive else FNaN)
         else FFin ((if positive then 1 else - 1) *
           (if e = 0 then of_nat m / 2 ^ 149 else of_nat ((2 ^ 23 + m) * 2 ^ e) / 2 ^ 150)))"

function hash_loop :: "(string \<Rightarrow> string \<Rightarrow> nat \<Rightarrow> char) \<Rightarrow> string \<Rightarrow> int \<Rightarrow> nat \<Rightarrow> string \<Rightarrow> string" where
  "hash_loop H txt width counter raw =
     (if int (length raw) < width * 4
      then hash_loop H txt width (counter + 1) (raw @ map (H (utf8_encode txt) (salt_of counter)) [0..<64])
      else raw)"
  by pat_completeness auto
termination
  by (relation "measure (\<lambda>(H, txt, width, counter, raw). nat (width * 4 - int (length raw)))") auto

declare hash_loop.simps [simp del]

definition fake_vector :: "float_ops \<Rightarrow> (string \<Rightarrow> string \<Rightarrow> nat \<Rightarrow> char) \<Rightarrow> int \<Rightarrow> string \<Rightarrow> pyfloat list" where
  "fake_vector U H width txt =
     (let raw = hash_loop H txt width 0 [];
          floats = map (\<lambda>i. unpack_f (take 4 (drop (i * 4) raw))) [0..<nat width];
          floats = map (\<lambda>f. if is_finite f then f else FFin 0) floats;
          root = fl_sqrt U (fl_sum U (map (\<lambda>f. fl_mul U f f) floats));
          norm = (if feq root (FFin 0) then FFin 1 else root)
      in map (\<lambda>f. fl_div U f norm) floats)"

definition fake_embed ::
  "float_ops \<Rightarrow> (string \<Rightarrow> string \<Rightarrow> nat \<Rightarrow> char) \<Rightarrow> int \<Rightarrow> string list \<Rightarrow> ('x, pyfloat list list) io" where
  "fake_embed U H width texts = ret (map (fake_vector U H width) texts)"

subsection \<open>\<open>FakeVectorStore\<close>\<close>

type_synonym bucket = "(string \<times> (pyfloat list \<times> pydict)) list"
type_synonym fake_store = "(string \<times> bucket) list"

definition cosine :: "float_ops \<Rightarrow> pyfloat list \<Rightarrow> pyfloat list \<Rightarrow> pyfloat" where
  "cosine U a b =
     (let n = min (length a) (length b) in
      if n = 0 then FFin 0
      else
        let dot = fl_sum U (map (\<lambda>i. fl_mul U (a ! i) (b ! i)) [0..<n]);
            na = fl_sqrt U (fl_sum U (map (\<lambda>i. fl_mul U (a ! i) (a ! i)) [0..<n]));
            nb = fl_sqrt U (fl_sum U (map (\<lambda>i. fl_mul U (b ! i) (b ! i)) [0..<n]))
        in if feq na (FFin 0) \<or> feq nb (FFin 0) then FFin 0 else fl_div U dot (fl_mul U na nb))"

definition bucket_of :: "fake_store \<Rightarrow> string \<Rightarrow> bucket" where
  "bucket_of s ns = (case map_of s ns of None \<Rightarrow> [] | Some b \<Rightarrow> b)"

definition fake_upsert :: "(string \<times> pyfloat list \<times> pydict) list \<Rightarrow> string \<Rightarrow> (fake_store, unit) io" where
  "fake_upsert vectors ns s =
     (Inr (), AList.update ns
        (fold (\<lambda>(vid, values, metadata). AList.update vid (values, metadata)) vectors (bucket_of s ns)) s)"

definition match_less :: "vector_match \<Rightarrow> vector_match \<Rightarrow> bool" where
  "match_less m n =
     (if feq (fneg (vm_score m)) (fneg (vm_score n)) then str_less (vm_id m) (vm_id n)
      else fless (fneg (vm_score m)) (fneg (vm_score n)))"

definition fake_query :: "float_ops \<Rightarrow> pyfloat list \<Rightarrow> int \<Rightarrow> string \<Rightarrow> (fake_store, vector_match list) io" where
  "fake_query U vector top_k ns s =
     (let scored = map (\<lambda>(vid, values, metadata).
            \<lparr>vm_id = vid, vm_score = cosine U vector values, vm_metadata = metadata\<rparr>) (bucket_of s ns)
      in (Inr (slice_to top_k (sort_by match_less scored)), s))"

subsection \<open>\<open>FakeLLM\<close>\<close>

definition fake_complete :: "string \<Rightarrow> int \<Rightarrow> ('x, string) io" where
  "fake_complete prompt max_new_tokens =
     (let body = ''Based on the provided context, here is the answer to your query. '' @ py_strip prompt;
          ws = py_words body
      in ret (py_join '' '' (slice_to (max 1 max_new_tokens) ws)))"

subsection \<open>\<open>FakeSearch\<close>\<close>

definition CORPUS :: "search_result list" where
  "CORPUS =
     [\<lparr>sr_title = ''Asynchronous I/O in Python'', sr_url = ''https://example.test/async-python'',
       sr_snippet = ''asyncio offloads blocking calls to a thread pool via to_thread.''\<rparr>,
      \<lparr>sr_title = ''Hexagonal Architecture'', sr_url = ''https://example.test/hexagonal'',
       sr_snippet = ''Ports and adapters isolate the core from frameworks and SDKs.''\<rparr>,
      \<lparr>sr_title = ''Vector Databases and Cosine Similarity'', sr_url = ''https://example.test/vector-db'',
       sr_snippet = ''Embeddings are ranked by cosine similarity for retrieval.''\<rparr>,
      \<lparr>sr_title = ''Retry with Exponential Backoff'', sr_url = ''https://example.test/retry-backoff'',
       sr_snippet = ''Transient upstream errors are retried with jittered backoff.''\<rparr>]"

definition term_overlap :: "search_result \<Rightarrow> string list \<Rightarrow> nat" where
  "term_overlap r terms =
     (let haystack = py_lower (sr_title r @ '' '' @ sr_snippet r)
      in length (filter (\<lambda>t. contains t haystack) terms))"

text \<open>The set of the terms, as a list without repetitions (their order does not matter).\<close>

definition query_terms :: "string \<Rightarrow> string list" where
  "query_terms query = remdups (map py_lower (filter (\<lambda>t. t \<noteq> []) (py_words query)))"

definition hit_less :: "string list \<Rightarrow> search_result \<Rightarrow> search_result \<Rightarrow> bool" where
  "hit_less terms r q =
     (if term_overlap r terms = term_overlap q terms then str_less (sr_url r) (sr_url q)
      else - int (term_overlap r terms) < - int (term_overlap q terms))"

definition fake_search :: "string \<Rightarrow> int \<Rightarrow> ('x, search_result list) io" where
  "fake_search query max_results =
     (let terms = query_terms query;
          ranked = sort_by (hit_less terms) CORPUS;
          hits = filter (\<lambda>r. 0 < term_overlap r terms) ranked;
          hits = (if hits = [] then ranked else hits)
      in ret (slice_to max_results hits))"

subsection \<open>Lemmas on sorting and words\<close>

lemma set_insert_by [simp]: "set (insert_by lt x xs) = insert x (set xs)"
  by (induction xs) auto

lemma mset_insert_by [simp]: "mset (insert_by lt x xs) = add_mset x (mset xs)"
  by (induction xs) auto

lemma mset_sort_by [simp]: "mset (sort_by lt xs) = mset xs"
  by (induction xs) (simp_all add: sort_by_def)

lemma set_sort_by [simp]: "set (sort_by lt xs) = set xs"
  using mset_sort_by by (metis set_mset_mset)

lemma length_sort_by [simp]: "length (sort_by lt xs) = length xs"
  using mset_sort_by by (metis size_mset)

text \<open>An order of the elements of \<open>A\<close>, possibly with ties.\<close>

locale sort_order =
  fixes lt :: "'a \<Rightarrow> 'a \<Rightarrow> bool" and A :: "'a set"
  assumes asym: "x \<in> A \<Longrightarrow> y \<in> A \<Longrightarrow> lt x y \<Longrightarrow> \<not> lt y x"
    and negtrans: "x \<in> A \<Longrightarrow> y \<in> A \<Longrightarrow> z \<in> A \<Longrightarrow> \<not> lt x y \<Longrightarrow> \<not> lt y z \<Longrightarrow> \<not> lt x z"
begin

lemma sorted_insert:
  "set xs \<subseteq> A \<Longrightarrow> x \<in> A \<Longrightarrow> sorted_wrt (\<lambda>a b. \<not> lt b a) xs \<Longrightarrow> sorted_wrt (\<lambda>a b. \<not> lt b a) (insert_by lt x xs)"
proof (induction xs)
  case (Cons a xs)
  then have "\<not> lt b x" if "b \<in> set xs" "\<not> lt a x" for b using that negtrans [of b a x] by auto
  with Cons asym [of a x] show ?case by auto
qed simp

lemma sorted_sort: "set xs \<subseteq> A \<Longrightarrow> sorted_wrt (\<lambda>a b. \<not> lt b a) (sort_by lt xs)"
proof (induction xs)
  case (Cons x xs)
  have "set (foldr (insert_by lt) xs []) = set xs" using set_sort_by [of lt xs] by (simp add: sort_by_def)
  with Cons show ?case by (auto simp: sort_by_def intro!: sorted_insert)
qed (simp add: sort_by_def)

end

lemma str_less_irrefl [simp]: "\<not> str_less s s"
  by (induction s) auto

lemma str_less_Nil [simp]: "\<not> str_less s []"
  by (cases s) auto

lemma str_less_asym: "str_less s t \<Longrightarrow> \<not> str_less t s"
  by (induction s t rule: str_less.induct) auto

lemma str_less_total: "\<not> str_less s t \<Longrightarrow> s = t \<or> str_less t s"
  by (induction s t rule: str_less.induct) (auto simp: char_code_eq_iff not_less neq_iff le_less)

lemma str_less_trans: "str_less s t \<Longrightarrow> str_less t u \<Longrightarrow> str_less s u"
proof (induction s t arbitrary: u rule: str_less.induct)
  case (3 a s b t)
  then show ?case by (cases u) auto
next
  case (1 t)
  then show ?case by (cases u) auto
qed simp

lemma fless_irrefl [simp]: "\<not> fless x x"
  by (cases x) auto

lemma fless_asym: "fless x y \<Longrightarrow> \<not> fless y x"
  by (cases x; cases y) auto

lemma fless_total: "x \<noteq> FNaN \<Longrightarrow> y \<noteq> FNaN \<Longrightarrow> \<not> fless x y \<Longrightarrow> x = y \<or> fless y x"
  by (cases x; cases y) auto

lemma fless_trans: "fless x y \<Longrightarrow> fless y z \<Longrightarrow> fless x z"
  by (cases x; cases y; cases z) auto

lemma fneg_simps [simp]: "fneg x = fneg y \<longleftrightarrow> x = y" "fneg x = FNaN \<longleftrightarrow> x = FNaN" "fless (fneg x) (fneg y) = fless y x"
  by (cases x; cases y; auto)+

lemma match_less_iff:
  assumes "vm_score m \<noteq> FNaN" and "vm_score n \<noteq> FNaN"
  shows "match_less m n \<longleftrightarrow>
    fless (vm_score n) (vm_score m) \<or> vm_score m = vm_score n \<and> str_less (vm_id m) (vm_id n)"
  using assms fless_asym [of "vm_score m" "vm_score m"] by (auto simp: match_less_def feq_def)

lemma not_match_less_iff:
  assumes "vm_score m \<noteq> FNaN" and "vm_score n \<noteq> FNaN"
  shows "\<not> match_less m n \<longleftrightarrow>
    fless (vm_score m) (vm_score n) \<or> vm_score m = vm_score n \<and> (vm_id m = vm_id n \<or> str_less (vm_id n) (vm_id m))"
  unfolding match_less_iff [OF assms]
  using fless_total [OF assms] fless_asym [of "vm_score m" "vm_score n"] str_less_total [of "vm_id m" "vm_id n"]
    str_less_asym [of "vm_id m" "vm_id n"] by auto

interpretation by_score: sort_order match_less "{m. vm_score m \<noteq> FNaN}"
proof unfold_locales
  fix x y z :: vector_match
  assume xy: "x \<in> {m. vm_score m \<noteq> FNaN}" "y \<in> {m. vm_score m \<noteq> FNaN}"
  show "\<not> match_less y x" if "match_less x y"
    using that xy by (auto simp: match_less_iff dest: fless_asym str_less_asym)
  show "\<not> match_less x z"
    if "z \<in> {m. vm_score m \<noteq> FNaN}" "\<not> match_less x y" "\<not> match_less y z"
    using that xy by (auto simp: not_match_less_iff dest: fless_trans str_less_trans)
qed

interpretation by_overlap: sort_order "hit_less terms" UNIV for terms
proof unfold_locales
  fix x y z :: search_result
  show "\<not> hit_less terms y x" if "hit_less terms x y"
    using that str_less_asym by (auto simp: hit_less_def split: if_splits)
  show "\<not> hit_less terms x z" if "\<not> hit_less terms x y" "\<not> hit_less terms y z"
    using that str_less_total [of "sr_url x" "sr_url y"] str_less_total [of "sr_url y" "sr_url z"]
    by (auto simp: hit_less_def split: if_splits dest: str_less_asym str_less_trans)
qed

text \<open>Words are not empty and have no white space in them; joining them with blanks and splitting again is the identity.\<close>

definition is_word :: "string \<Rightarrow> bool" where
  "is_word w \<longleftrightarrow> w \<noteq> [] \<and> (\<forall>c \<in> set w. \<not> is_space c)"

lemma words_from_words: "\<forall>c \<in> set w. \<not> is_space c \<Longrightarrow> x \<in> set (words_from w s) \<Longrightarrow> is_word x"
proof (induction s arbitrary: w)
  case Nil
  then show ?case by (cases "w = []") (simp_all add: is_word_def)
next
  case (Cons c cs)
  show ?case
  proof (cases "is_space c")
    case True
    have more: "is_word x" if "x \<in> set (words_from [] cs)" using that by (intro Cons.IH) simp_all
    show ?thesis using Cons.prems True more by (cases "w = []") (auto simp: is_word_def)
  next
    case False
    with Cons.prems have "x \<in> set (words_from (w @ [c]) cs)" by simp
    moreover have "\<forall>d \<in> set (w @ [c]). \<not> is_space d" using Cons.prems(1) False by simp
    ultimately show ?thesis by (intro Cons.IH)
  qed
qed

lemma words_from_append: "\<forall>c \<in> set x. \<not> is_space c \<Longrightarrow> words_from w (x @ s) = words_from (w @ x) s"
  by (induction x arbitrary: w) auto

lemma blank_is_space: "is_space (CHR '' '')"
  by (simp add: is_space_def char_code_def)

lemma words_join: "\<forall>w \<in> set ws. is_word w \<Longrightarrow> words_from [] (py_join '' '' ws) = ws"
proof (induction ws)
  case (Cons x ws)
  then have x: "\<forall>c \<in> set x. \<not> is_space c" "x \<noteq> []" by (auto simp: is_word_def)
  show ?case
  proof (cases ws)
    case Nil
    then show ?thesis using words_from_append [of x "[]" "[]"] x by simp
  next
    case (Cons y ys)
    then have "py_join '' '' (x # ws) = x @ CHR '' '' # py_join '' '' ws" by simp
    then have "words_from [] (py_join '' '' (x # ws)) = x # words_from [] (py_join '' '' ws)"
      using words_from_append [of x "[]" "CHR '' '' # py_join '' '' ws"] x blank_is_space by simp
    with Cons.IH Cons.prems show ?thesis by simp
  qed
qed simp

lemma py_words_words: "x \<in> set (py_words s) \<Longrightarrow> is_word x"
  unfolding py_words_def by (rule words_from_words) simp_all

lemma slice_to_sublist: "set (slice_to k xs) \<subseteq> set xs" "sorted_wrt P xs \<Longrightarrow> sorted_wrt P (slice_to k xs)"
    "distinct xs \<Longrightarrow> distinct (slice_to k xs)"
  by (auto simp: slice_to_def sorted_wrt_take dest: in_set_takeD)

text \<open>The bytes of the digests: enough for every float, and less than one digest more.\<close>

lemma hash_loop_length:
  assumes "int (length raw) < width * 4 + 64"
  shows "width * 4 \<le> int (length (hash_loop H txt width counter raw)) \<and>
    int (length (hash_loop H txt width counter raw)) < max (int (length raw) + 1) (width * 4 + 64)"
  using assms
proof (induction H "txt" width counter raw rule: hash_loop.induct)
  case (1 H t width counter raw)
  show ?case
  proof (cases "int (length raw) < width * 4")
    case True
    from 1(1) [OF True] True show ?thesis
      by (subst (1 2) hash_loop.simps) (simp add: True max_def split: if_splits)
  next
    case False
    then show ?thesis by (subst (1 2) hash_loop.simps) simp
  qed
qed

subsection \<open>The ports\<close>

text \<open>
  What \<open>EmbeddingProvider\<close> documents: one vector per text, in their order, all of the same dimensionality.
\<close>

locale embedding_provider =
  fixes embed :: "('x, 'f list) embed_port" and width :: int
  assumes embed_law: "embed texts x = (Inr vs, x') \<Longrightarrow>
    length vs = length texts \<and> list_all (\<lambda>v. int (length v) = max 0 width) vs"
begin

lemma embed_one: "embed [t] x = (Inr vs, x') \<Longrightarrow> \<exists>v. vs = [v] \<and> int (length v) = max 0 width"
  using embed_law [of "[t]" x vs x'] by (cases vs) auto

end

interpretation fake_embedding: embedding_provider "fake_embed U H width" width for U H width
  by unfold_locales (auto simp: fake_embed_def ret_def fake_vector_def Let_def list_all_iff)

text \<open>
  What \<open>VectorStore\<close> documents: \<open>upsert\<close> inserts or replaces in one namespace; \<open>query\<close> returns entries of its
  namespace, at most \<open>top_k\<close> of them, and changes nothing.
\<close>

locale vector_store =
  fixes upsert :: "('s, pyfloat list) upsert_port"
    and query :: "('s, pyfloat list) query_port"
    and content :: "'s \<Rightarrow> string \<Rightarrow> string \<rightharpoonup> pyfloat list \<times> pydict"
    and ok :: "'s \<Rightarrow> bool"
  assumes upsert_law: "ok s \<Longrightarrow> upsert vs ns s = (Inr u, s') \<Longrightarrow>
      ok s' \<and> content s' = (content s)(ns := content s ns ++ map_of (rev vs))"
    and query_law: "ok s \<Longrightarrow> query v k ns s = (Inr ms, s') \<Longrightarrow>
      ok s' \<and> content s' = content s \<and> distinct (map vm_id ms) \<and> (0 \<le> k \<longrightarrow> int (length ms) \<le> k) \<and>
      (\<forall>m \<in> set ms. \<exists>vals. content s ns (vm_id m) = Some (vals, vm_metadata m))"
begin

text \<open>A namespace of its own isolates a job: what it retrieves is what it stored.\<close>

lemma retrieved_was_stored:
  assumes "ok s" and "content s ns = Map.empty"
    and "upsert vs ns s = (Inr u, s1)" and "query v k ns s1 = (Inr ms, s2)" and "m \<in> set ms"
  shows "\<exists>vals. (vm_id m, vals, vm_metadata m) \<in> set vs"
proof -
  from upsert_law [OF assms(1,3)] assms(2) have s1: "ok s1" "content s1 ns = map_of (rev vs)" by auto
  from query_law [OF s1(1) assms(4)] assms(5) s1(2) obtain vals
    where "map_of (rev vs) (vm_id m) = Some (vals, vm_metadata m)" by auto
  then have "(vm_id m, vals, vm_metadata m) \<in> set (rev vs)" by (rule map_of_SomeD)
  then show ?thesis by auto
qed

end

definition fake_content :: "fake_store \<Rightarrow> string \<Rightarrow> string \<rightharpoonup> pyfloat list \<times> pydict" where
  "fake_content s ns = map_of (bucket_of s ns)"

definition fake_ok :: "fake_store \<Rightarrow> bool" where
  "fake_ok s \<longleftrightarrow> (\<forall>ns. distinct (map fst (bucket_of s ns)))"

lemma fold_update:
  "map_of (fold (\<lambda>(x, y). AList.update x y) vs b) = map_of b ++ map_of (rev vs)"
  by (induction vs arbitrary: b) (auto simp: update_conv')

lemma fold_update_distinct:
  "distinct (map fst b) \<Longrightarrow>
   distinct (map fst (fold (\<lambda>(x, y). AList.update x y) vs b))"
  by (induction vs arbitrary: b) (auto intro: distinct_update)

lemma bucket_of_update: "bucket_of (AList.update ns b s) ns' = (if ns' = ns then b else bucket_of s ns')"
  by (simp add: bucket_of_def update_conv')

interpretation fake_vectors: vector_store fake_upsert "fake_query U" fake_content fake_ok for U
proof unfold_locales
  fix s s' :: fake_store and vs ns u assume ok: "fake_ok s" and run: "fake_upsert vs ns s = (Inr u, s')"
  then show "fake_ok s' \<and> fake_content s' = (fake_content s)(ns := fake_content s ns ++ map_of (rev vs))"
    by (auto simp: fake_upsert_def fake_ok_def fake_content_def fun_eq_iff bucket_of_update fold_update fold_update_distinct)
next
  fix s s' :: fake_store and v k ns ms assume ok: "fake_ok s" and run: "fake_query U v k ns s = (Inr ms, s')"
  let ?b = "bucket_of s ns"
  let ?f = "\<lambda>(vid, vals, metadata). \<lparr>vm_id = vid, vm_score = cosine U v vals, vm_metadata = metadata\<rparr>"
  let ?sorted = "sort_by match_less (map ?f ?b)"
  have ms: "ms = slice_to k ?sorted" "s' = s" using run by (auto simp: fake_query_def Let_def)
  have "mset (map vm_id ?sorted) = mset (map vm_id (map ?f ?b))" by (simp only: mset_map mset_sort_by)
  moreover have "map vm_id (map ?f ?b) = map fst ?b" by (simp add: split_beta)
  ultimately have "mset (map vm_id ?sorted) = mset (map fst ?b)" by (simp only:)
  from mset_eq_imp_distinct_iff [OF this] have d: "distinct (map vm_id ?sorted)" using ok by (simp add: fake_ok_def)
  have "map vm_id ms = slice_to k (map vm_id ?sorted)" by (simp add: ms slice_to_def take_map)
  moreover have "\<exists>vals. fake_content s ns (vm_id m) = Some (vals, vm_metadata m)" if "m \<in> set ms" for m
  proof -
    from that slice_to_sublist(1) ms have "m \<in> set ?sorted" by fastforce
    then obtain vid vals md where "(vid, vals, md) \<in> set ?b" "vm_id m = vid" "vm_metadata m = md" by auto
    moreover have "distinct (map fst ?b)" using ok by (simp add: fake_ok_def)
    ultimately show ?thesis by (auto simp: fake_content_def)
  qed
  moreover have "0 \<le> k \<Longrightarrow> int (length ms) \<le> k" by (simp add: ms slice_to_def)
  ultimately show "fake_ok s' \<and> fake_content s' = fake_content s \<and> distinct (map vm_id ms) \<and>
      (0 \<le> k \<longrightarrow> int (length ms) \<le> k) \<and>
      (\<forall>m \<in> set ms. \<exists>vals. fake_content s ns (vm_id m) = Some (vals, vm_metadata m))"
    using ok ms slice_to_sublist(3) [OF d, of k] by simp
qed

subsection \<open>Properties\<close>

text \<open>
  The embeddings.  A call returns one vector per text, in their order, each of the configured dimensionality and a
  function of its text alone; the bytes of the digests suffice for all its floats, and the loop that draws
  them stops as soon as they do.
\<close>

theorem fake_embedding_shape:
  "\<exists>vs. fake_embed U H width texts x = (Inr vs, x) \<and> length vs = length texts \<and>
    list_all2 (\<lambda>t v. v = fake_vector U H width t \<and> int (length v) = max 0 width) texts vs \<and>
    (let raw = hash_loop H txt width 0 [] in
       max 0 width * 4 \<le> int (length raw) \<and> int (length raw) < max 1 (width * 4 + 64))"
proof -
  have "int (length (fake_vector U H width t)) = max 0 width" for t by (simp add: fake_vector_def Let_def)
  moreover have "0 \<le> width * 4 + 63 \<Longrightarrow> width * 4 \<le> int (length (hash_loop H txt width 0 [])) \<and>
      int (length (hash_loop H txt width 0 [])) < max 1 (width * 4 + 64)"
    using hash_loop_length [of "[]" width H "txt" 0] by simp
  moreover have "\<not> 0 \<le> width * 4 + 63 \<Longrightarrow> hash_loop H txt width 0 [] = []" by (subst hash_loop.simps) simp
  ultimately show ?thesis
    by (cases "0 \<le> width * 4 + 63") (auto simp: fake_embed_def ret_def list_all2_conv_all_nth Let_def max_def)
qed

text \<open>
  C30. The vector store answers with the nearest vectors.  When no cosine is a NaN and \<open>top_k\<close> is not negative, a query
  returns \<open>top_k\<close> matches, or all entries of its namespace if there are fewer; each is a stored entry with its cosine as the
  score; they come by descending score and, among equal scores, ascending id; no entry that was left out is nearer than
  one that was returned; and nothing is changed.
\<close>

theorem fake_query_nearest:
  assumes "fake_ok s" and "fake_query U v k ns s = (Inr ms, s')" and "0 \<le> k"
    and "\<forall>i vals md. fake_content s ns i = Some (vals, md) \<longrightarrow> cosine U v vals \<noteq> FNaN"
  shows "s' = s \<and> length ms = min (nat k) (card (dom (fake_content s ns))) \<and> distinct (map vm_id ms) \<and>
    (\<forall>m \<in> set ms. \<exists>vals. fake_content s ns (vm_id m) = Some (vals, vm_metadata m) \<and> vm_score m = cosine U v vals) \<and>
    sorted_wrt (\<lambda>m n. fless (vm_score n) (vm_score m) \<or>
      vm_score m = vm_score n \<and> str_less (vm_id m) (vm_id n)) ms \<and>
    (\<forall>i vals md. fake_content s ns i = Some (vals, md) \<longrightarrow> i \<notin> vm_id ` set ms \<longrightarrow>
      (\<forall>m \<in> set ms. \<not> fless (vm_score m) (cosine U v vals)))"
proof -
  let ?b = "bucket_of s ns"
  let ?f = "\<lambda>(vid, vals, metadata). \<lparr>vm_id = vid, vm_score = cosine U v vals, vm_metadata = metadata\<rparr>"
  let ?sorted = "sort_by match_less (map ?f ?b)"
  have d: "distinct (map fst ?b)" using assms(1) by (simp add: fake_ok_def)
  have ms: "ms = take (nat k) ?sorted" "s' = s"
    using assms(2,3) by (auto simp: fake_query_def Let_def slice_to_def)
  have sub: "set ms \<subseteq> set ?sorted" unfolding ms(1) by (rule set_take_subset)
  have entry: "\<exists>vals. fake_content s ns (vm_id m) = Some (vals, vm_metadata m) \<and> vm_score m = cosine U v vals"
    if "m \<in> set ?sorted" for m
  proof -
    from that obtain vid vals md where "(vid, vals, md) \<in> set ?b" "m = ?f (vid, vals, md)" by auto
    with d show ?thesis by (auto simp: fake_content_def)
  qed
  have num: "vm_score m \<noteq> FNaN" if "m \<in> set ?sorted" for m using entry [OF that] assms(4) by metis
  have card: "length ?sorted = card (dom (fake_content s ns))"
    using d by (simp add: fake_content_def dom_map_of_conv_image_fst card_image distinct_map distinct_card
        flip: set_map)
  have ids: "distinct (map vm_id ms)"
    using fake_vectors.query_law [OF assms(1,2)] by simp
  have all: "sorted_wrt (\<lambda>a b. \<not> match_less b a) ?sorted"
    by (rule by_score.sorted_sort) (use num in \<open>simp only: set_sort_by subset_iff mem_Collect_eq, blast\<close>)
  then have ord: "sorted_wrt (\<lambda>a b. \<not> match_less b a) ms" by (simp add: ms sorted_wrt_take)
  have srt: "sorted_wrt (\<lambda>m n. fless (vm_score n) (vm_score m) \<or>
      vm_score m = vm_score n \<and> str_less (vm_id m) (vm_id n)) ms"
    unfolding sorted_wrt_iff_nth_less
  proof (intro allI impI)
    fix i j assume ij: "i < j" "j < length ms"
    then have "ms ! i \<in> set ?sorted" "ms ! j \<in> set ?sorted" using sub by (auto simp del: set_sort_by)
    moreover have "\<not> match_less (ms ! j) (ms ! i)"
      using ord ij by (simp add: sorted_wrt_iff_nth_less)
    moreover have "vm_id (ms ! j) \<noteq> vm_id (ms ! i)"
      using ids ij by (simp add: distinct_conv_nth)
    ultimately show "fless (vm_score (ms ! j)) (vm_score (ms ! i)) \<or>
        vm_score (ms ! i) = vm_score (ms ! j) \<and> str_less (vm_id (ms ! i)) (vm_id (ms ! j))"
      using not_match_less_iff [OF num num, of "ms ! j" "ms ! i"] by auto
  qed
  have out: "\<not> fless (vm_score m) (cosine U v vals)"
    if e: "fake_content s ns i = Some (vals, md)" "i \<notin> vm_id ` set ms" "m \<in> set ms" for i vals md m
  proof -
    have "(i, vals, md) \<in> set ?b" using e(1) map_of_SomeD by (fastforce simp: fake_content_def)
    then have "?f (i, vals, md) \<in> set ?sorted" by (simp only: set_sort_by set_map) (rule imageI)
    moreover have "?f (i, vals, md) \<notin> set ms" using e(2) by (auto simp: image_iff)
    ultimately have x: "?f (i, vals, md) \<in> set (drop (nat k) ?sorted)"
      using ms(1) by (metis Un_iff append_take_drop_id set_append)
    have "sorted_wrt (\<lambda>a b. \<not> match_less b a) (ms @ drop (nat k) ?sorted)" using all ms(1) by simp
    with x e(3) have "\<not> match_less (?f (i, vals, md)) m" by (simp only: sorted_wrt_append) blast
    moreover have "m \<in> set ?sorted" using e(3) sub by blast
    ultimately show ?thesis
      using not_match_less_iff [OF num num, of "?f (i, vals, md)" m] \<open>?f (i, vals, md) \<in> set ?sorted\<close>
      by (auto dest: fless_asym)
  qed
  have ent: "\<exists>vals. fake_content s ns (vm_id m) = Some (vals, vm_metadata m) \<and> vm_score m = cosine U v vals"
    if "m \<in> set ms" for m using that sub entry by blast
  have "length ms = min (nat k) (length ?sorted)" by (simp add: ms min.commute)
  then have len: "length ms = min (nat k) (card (dom (fake_content s ns)))" by (simp only: card)
  show ?thesis by (intro conjI ms(2) len ids srt ballI allI impI ent out)
qed

text \<open>Exact arithmetic, with the roots of small squares, is an instance of the float operations.\<close>

fun fin :: "pyfloat \<Rightarrow> rat" where
  "fin (FFin q) = q"
| "fin _ = 0"

definition exact_floats :: float_ops where
  "exact_floats =
     \<lparr>fl_sum = (\<lambda>xs. FFin (sum_list (map fin xs))), fl_mul = (\<lambda>x y. FFin (fin x * fin y)),
      fl_div = (\<lambda>x y. FFin (fin x / fin y)),
      fl_sqrt = (\<lambda>x. case find (\<lambda>k. of_nat (k * k) = fin x) [0..<10] of None \<Rightarrow> x | Some k \<Rightarrow> FFin (of_nat k))\<rparr>"

definition three_vectors :: fake_store where
  "three_vectors =
     [(''ns'', [(''a'', ([FFin 3, FFin 4], [])), (''b'', ([FFin 1, FFin 0], [])), (''c'', ([FFin 0, FFin 2], []))])]"

theorem fake_query_nearest_witness:
  "\<exists>m n. fake_query exact_floats [FFin 1, FFin 0] 2 ''ns'' three_vectors = (Inr [m, n], three_vectors) \<and>
     vm_id m = ''b'' \<and> vm_id n = ''a'' \<and> fless (vm_score n) (vm_score m) \<and> vm_id m \<noteq> vm_id n"
proof -
  obtain m n where run: "fake_query exact_floats [FFin 1, FFin 0] 2 ''ns'' three_vectors = (Inr [m, n], three_vectors)"
    and ids: "vm_id m = ''b''" "vm_id n = ''a''"
  proof
    show "fake_query exact_floats [FFin 1, FFin 0] 2 ''ns'' three_vectors =
        (Inr [\<lparr>vm_id = ''b'', vm_score = FFin 1, vm_metadata = []\<rparr>,
              \<lparr>vm_id = ''a'', vm_score = FFin (3 / 5), vm_metadata = []\<rparr>], three_vectors)"
      by code_simp
  qed simp_all
  have ok: "fake_ok three_vectors"
    by (auto simp: fake_ok_def bucket_of_def three_vectors_def split: option.split)
  have "cosine exact_floats [FFin 1, FFin 0] vals \<noteq> FNaN" for vals
    by (simp add: cosine_def exact_floats_def Let_def)
  then have num: "\<forall>i vals md. fake_content three_vectors ''ns'' i = Some (vals, md) \<longrightarrow>
      cosine exact_floats [FFin 1, FFin 0] vals \<noteq> FNaN" by simp
  have "0 \<le> (2 :: int)" by simp
  from fake_query_nearest [OF ok run this num] have
    "sorted_wrt (\<lambda>m n. fless (vm_score n) (vm_score m) \<or> vm_score m = vm_score n \<and> str_less (vm_id m) (vm_id n)) [m, n]"
    by (elim conjE)
  moreover have "\<not> str_less ''b'' ''a''" by code_simp
  ultimately show ?thesis using run ids by auto
qed

text \<open>
  The completion is a word budget.  It returns a text whose words are the first \<open>max(1, max_new_tokens)\<close> words of the
  template with the stripped prompt, so it is never empty and never exceeds the budget.
\<close>

theorem fake_complete_budget:
  "\<exists>answer. fake_complete prompt n x = (Inr answer, x) \<and>
    py_words answer = take (nat (max 1 n))
      (py_words (''Based on the provided context, here is the answer to your query. '' @ py_strip prompt)) \<and>
    1 \<le> length (py_words answer) \<and> int (length (py_words answer)) \<le> max 1 n"
proof -
  let ?ws = "py_words (''Based on the provided context, here is the answer to your query. '' @ py_strip prompt)"
  have ne: "?ws \<noteq> []"
    by (simp add: py_words_def is_space_def char_code_def)
  have "py_words (py_join '' '' (take (nat (max 1 n)) ?ws)) = take (nat (max 1 n)) ?ws"
    unfolding py_words_def [of "py_join _ _"]
    by (rule words_join) (blast dest: in_set_takeD intro: py_words_words)
  with ne show ?thesis
    by (cases ?ws) (auto simp: fake_complete_def Let_def ret_def slice_to_def)
qed

text \<open>
  The search always has something to say.  With a positive bound it returns between one and \<open>max_results\<close> different
  documents of the corpus, by descending number of the query's terms they contain; either every one of them contains some
  term, or no document of the corpus does.
\<close>

theorem fake_search_answers:
  assumes "1 \<le> n"
  shows "\<exists>hits. fake_search query n x = (Inr hits, x) \<and> hits \<noteq> [] \<and> int (length hits) \<le> n \<and>
    set hits \<subseteq> set CORPUS \<and> distinct hits \<and>
    sorted_wrt (\<lambda>r q. term_overlap q (query_terms query) \<le> term_overlap r (query_terms query)) hits \<and>
    ((\<forall>r \<in> set hits. 0 < term_overlap r (query_terms query)) \<or>
     (\<forall>r \<in> set CORPUS. term_overlap r (query_terms query) = 0))"
proof -
  let ?t = "query_terms query"
  let ?ranked = "sort_by (hit_less ?t) CORPUS"
  let ?found = "filter (\<lambda>r. 0 < term_overlap r ?t) ?ranked"
  let ?hits = "if ?found = [] then ?ranked else ?found"
  have "distinct CORPUS" by (simp add: CORPUS_def)
  then have d: "distinct ?ranked" by (metis mset_eq_imp_distinct_iff mset_sort_by)
  have "sorted_wrt (\<lambda>a b. \<not> hit_less ?t b a) ?ranked" by (rule by_overlap.sorted_sort) simp
  then have s: "sorted_wrt (\<lambda>r q. term_overlap q ?t \<le> term_overlap r ?t) ?ranked"
    by (rule sorted_wrt_mono_rel [rotated]) (auto simp: hit_less_def split: if_splits)
  have "length ?ranked = 4" by (simp only: length_sort_by) (simp add: CORPUS_def)
  then have "?ranked \<noteq> []" by fastforce
  then have ne: "?hits \<noteq> []" by (simp only: split: if_split) blast
  obtain k where k: "nat n = Suc k" using assms by (cases "nat n") auto
  have run: "fake_search query n x = (Inr (take (nat n) ?hits), x)"
    using assms by (simp add: fake_search_def Let_def ret_def slice_to_def)
  show ?thesis
  proof (intro exI conjI)
    show "fake_search query n x = (Inr (take (nat n) ?hits), x)" by (rule run)
    show "take (nat n) ?hits \<noteq> []" using ne k by (simp del: filter.simps)
    have "length (take (nat n) ?hits) \<le> nat n" by (simp only: length_take min.cobounded2)
    then show "int (length (take (nat n) ?hits)) \<le> n" using assms by linarith
    have "set ?hits \<subseteq> set CORPUS" by auto
    then show "set (take (nat n) ?hits) \<subseteq> set CORPUS" using set_take_subset by fast
    show "distinct (take (nat n) ?hits)" using d by simp
    show "sorted_wrt (\<lambda>r q. term_overlap q ?t \<le> term_overlap r ?t) (take (nat n) ?hits)"
      using s by (simp add: sorted_wrt_take sorted_wrt_filter)
    show "(\<forall>r \<in> set (take (nat n) ?hits). 0 < term_overlap r ?t) \<or> (\<forall>r \<in> set CORPUS. term_overlap r ?t = 0)"
      by (auto simp: filter_empty_conv dest: in_set_takeD)
  qed
qed

text \<open>A query with one matching document, and one with none.\<close>

theorem fake_search_answers_witness:
  "\<exists>hits hits'. fake_search ''Retry BACKOFF?'' 2 () = (Inr hits, ()) \<and> hits \<noteq> [] \<and> int (length hits) \<le> 2 \<and>
     fake_search ''zzz'' 1 () = (Inr hits', ()) \<and> hits' \<noteq> []"
  using fake_search_answers [of 2 "''Retry BACKOFF?''" "()"] fake_search_answers [of 1 "''zzz''" "()"] by auto

end
