(* ===== verification/SdkAdapters.thy ===== *)
theory SdkAdapters
  imports Fakes Retry SdkErrors
begin

section \<open>The SDK providers (\<open>providers/huggingface.py\<close>, \<open>pinecone_store.py\<close>, \<open>search.py\<close>)\<close>

text \<open>
  The three adapters over the client objects of \<open>huggingface_hub\<close>, \<open>pinecone\<close> and \<open>ddgs\<close>, which are
  parameters: records of the calls the adapters make.  What such a call returns is an \<open>sdk_obj\<close>: a plain Python value, a
  list of objects, a numpy array (\<open>OArray v\<close>, \<open>v\<close> being its \<open>tolist()\<close>), or an object with its items, if it
  has \<open>__getitem__\<close>, and its attributes.  A dictionary holds plain values, and an array is never a Pinecone response.
  Python's conversions that depend on more than the model holds are the record \<open>conv\<close>: \<open>float\<close> of an
  \<open>int\<close> or a \<open>str\<close>, \<open>str\<close> and \<open>dict\<close> of a foreign object, and \<open>repr\<close> of its type.

  Every call goes through \<open>_call\<close> (\<open>adapter_call\<close>): retried, offloaded, translated by the adapter's classifier.
\<close>

datatype sdk_obj =
    OVal pyval
  | OList "sdk_obj list"
  | OArray pyval
  | OObj "(string \<times> sdk_obj) list option" "(string \<times> sdk_obj) list"

record conv =
  cv_float_int :: "int \<Rightarrow> pyfloat"
  cv_float_str :: "string \<Rightarrow> exn + pyfloat"
  cv_str :: "sdk_obj \<Rightarrow> string"
  cv_dict :: "sdk_obj \<Rightarrow> exn + pydict"
  cv_type :: "sdk_obj \<Rightarrow> string"

subsection \<open>Conversions\<close>

text \<open>A list comprehension whose element expression may raise.\<close>

primrec collect :: "('a \<Rightarrow> exn + 'b) \<Rightarrow> 'a list \<Rightarrow> exn + 'b list" where
  "collect f [] = Inr []"
| "collect f (x # xs) =
     (case f x of
        Inl e \<Rightarrow> Inl e
      | Inr y \<Rightarrow> (case collect f xs of Inl e \<Rightarrow> Inl e | Inr ys \<Rightarrow> Inr (y # ys)))"

text \<open>\<open>float(x)\<close>, \<open>str(x)\<close>, \<open>dict(x)\<close>, \<open>bool(x)\<close> and iteration.\<close>

definition obj_float :: "conv \<Rightarrow> sdk_obj \<Rightarrow> exn + pyfloat" where
  "obj_float cv x =
     (case x of
        OVal (PFloat f) \<Rightarrow> Inr f
      | OVal (PInt n) \<Rightarrow> Inr (cv_float_int cv n)
      | OVal (PBool b) \<Rightarrow> Inr (FFin (if b then 1 else 0))
      | OVal (PStr s) \<Rightarrow> cv_float_str cv s
      | _ \<Rightarrow> Inl (TypeError (''float() argument must be a string or a real number, not '' @ cv_type cv x)))"

definition obj_str :: "conv \<Rightarrow> sdk_obj \<Rightarrow> string" where
  "obj_str cv x = (case x of OVal (PStr s) \<Rightarrow> s | OVal (PInt n) \<Rightarrow> py_str_int n | _ \<Rightarrow> cv_str cv x)"

fun obj_true :: "sdk_obj \<Rightarrow> bool" where
  "obj_true (OVal PNone) = False"
| "obj_true (OVal (PBool b)) = b"
| "obj_true (OVal (PInt n)) = (n \<noteq> 0)"
| "obj_true (OVal (PFloat f)) = (\<not> feq f (FFin 0))"
| "obj_true (OVal (PStr s)) = (s \<noteq> [])"
| "obj_true (OVal (PList xs)) = (xs \<noteq> [])"
| "obj_true (OVal (PDict kvs)) = (kvs \<noteq> [])"
| "obj_true (OList xs) = (xs \<noteq> [])"
| "obj_true _ = True"

definition obj_dict :: "conv \<Rightarrow> sdk_obj \<Rightarrow> exn + pydict" where
  "obj_dict cv x = (case x of OVal (PDict kvs) \<Rightarrow> Inr kvs | _ \<Rightarrow> cv_dict cv x)"

definition obj_iter :: "conv \<Rightarrow> sdk_obj \<Rightarrow> exn + sdk_obj list" where
  "obj_iter cv x =
     (case x of
        OVal (PList vs) \<Rightarrow> Inr (map OVal vs)
      | OVal (PStr s) \<Rightarrow> Inr (map (\<lambda>c. OVal (PStr [c])) s)
      | OVal (PDict kvs) \<Rightarrow> Inr (map (\<lambda>(k, v). OVal (PStr k)) kvs)
      | OList xs \<Rightarrow> Inr xs
      | OArray (PList vs) \<Rightarrow> Inr (map OVal vs)
      | _ \<Rightarrow> Inl (TypeError (cv_type cv x @ '' object is not iterable'')))"

subsection \<open>Hugging Face\<close>

record 'w hf_client =
  feature_extraction :: "string list \<Rightarrow> string \<Rightarrow> ('w, sdk_obj) io"
  text_generation :: "string \<Rightarrow> string \<Rightarrow> int \<Rightarrow> bool \<Rightarrow> bool \<Rightarrow> ('w, sdk_obj) io"

text \<open>\<open>isinstance(data, list)\<close>, with its elements, and \<open>isinstance(x, (int, float))\<close>.\<close>

fun list_items :: "sdk_obj \<Rightarrow> sdk_obj list option" where
  "list_items (OVal (PList vs)) = Some (map OVal vs)"
| "list_items (OList xs) = Some xs"
| "list_items _ = None"

fun is_number :: "sdk_obj \<Rightarrow> bool" where
  "is_number (OVal (PInt n)) = True"
| "is_number (OVal (PBool b)) = True"
| "is_number (OVal (PFloat f)) = True"
| "is_number _ = False"

definition float_row :: "conv \<Rightarrow> sdk_obj \<Rightarrow> exn + pyfloat list" where
  "float_row cv row = (case obj_iter cv row of Inl e \<Rightarrow> Inl e | Inr xs \<Rightarrow> collect (obj_float cv) xs)"

definition ndarray_to_lists :: "conv \<Rightarrow> sdk_obj \<Rightarrow> nat \<Rightarrow> exn + pyfloat list list" where
  "ndarray_to_lists cv result batch =
     (let data = (case result of OArray v \<Rightarrow> OVal v | _ \<Rightarrow> result);
          rows =
            (case list_items data of
               None \<Rightarrow> Inl (TypeError (''Unexpected feature_extraction output: '' @ cv_type cv result))
             | Some items \<Rightarrow>
                 if items \<noteq> [] \<and> is_number (hd items)
                 then (case collect (obj_float cv) items of Inl e \<Rightarrow> Inl e | Inr row \<Rightarrow> Inr [row])
                 else collect (float_row cv) items)
      in case rows of
           Inl e \<Rightarrow> Inl e
         | Inr rows \<Rightarrow> Inr (if length rows \<noteq> batch \<and> batch = 1 \<and> 1 \<le> length rows then take 1 rows else rows))"

text \<open>
  What an adapter object is built with; \<open>run\<close> is \<open>tenacity\<close> and \<open>installed\<close> whether the SDK can be imported, neither of which the
  constructor takes, and the offloader is the one of \<open>Retry\<close>.
\<close>

record 'w hf_embedding =
  he_client :: "'w hf_client"
  he_model :: string
  he_dim :: int
  he_retry :: retry_settings

definition hf_embedding_call ::
  "('w, sdk_obj) runner \<Rightarrow> bool \<Rightarrow> 'w hf_embedding \<Rightarrow> ('w, sdk_obj) io \<Rightarrow> ('w, sdk_obj) io" where
  "hf_embedding_call run installed A fn =
     adapter_call run thread_offloader_run (classify_hf_error installed) (he_retry A) fn"

definition hf_embed ::
  "conv \<Rightarrow> ('w, sdk_obj) runner \<Rightarrow> bool \<Rightarrow> 'w hf_embedding \<Rightarrow> string list \<Rightarrow> ('w, pyfloat list list) io" where
  "hf_embed cv run installed A texts =
     bindE (hf_embedding_call run installed A (feature_extraction (he_client A) texts (he_model A))) (\<lambda>result.
     liftE (ndarray_to_lists cv result (length texts)))"

record 'w hf_llm =
  hl_client :: "'w hf_client"
  hl_model :: string
  hl_retry :: retry_settings

definition hf_llm_call ::
  "('w, sdk_obj) runner \<Rightarrow> bool \<Rightarrow> 'w hf_llm \<Rightarrow> ('w, sdk_obj) io \<Rightarrow> ('w, sdk_obj) io" where
  "hf_llm_call run installed A fn =
     adapter_call run thread_offloader_run (classify_hf_error installed) (hl_retry A) fn"

definition hf_complete ::
  "conv \<Rightarrow> ('w, sdk_obj) runner \<Rightarrow> bool \<Rightarrow> 'w hf_llm \<Rightarrow> string \<Rightarrow> int \<Rightarrow> ('w, string) io" where
  "hf_complete cv run installed A prompt max_new_tokens =
     bindE (hf_llm_call run installed A
       (text_generation (hl_client A) prompt (hl_model A) max_new_tokens False False)) (\<lambda>result.
     ret (case result of OVal (PStr s) \<Rightarrow> s | _ \<Rightarrow> obj_str cv result))"

subsection \<open>Pinecone\<close>

record 'w pine_index =
  ix_upsert :: "pydict list \<Rightarrow> string \<Rightarrow> ('w, sdk_obj) io"
  ix_query :: "pyfloat list \<Rightarrow> int \<Rightarrow> string \<Rightarrow> bool \<Rightarrow> bool \<Rightarrow> ('w, sdk_obj) io"

text \<open>\<open>_get\<close>: item access on a dictionary or an object with items, else an attribute, else \<open>None\<close>.\<close>

fun sdk_get :: "sdk_obj \<Rightarrow> string \<Rightarrow> sdk_obj" where
  "sdk_get (OVal (PDict kvs)) key = (case map_of kvs key of None \<Rightarrow> OVal PNone | Some v \<Rightarrow> OVal v)"
| "sdk_get (OObj items attrs) key =
     (case Option.bind items (\<lambda>kvs. map_of kvs key) of
        Some v \<Rightarrow> v
      | None \<Rightarrow> (case map_of attrs key of None \<Rightarrow> OVal PNone | Some v \<Rightarrow> v))"
| "sdk_get _ key = OVal PNone"

definition one_match :: "conv \<Rightarrow> sdk_obj \<Rightarrow> exn + vector_match" where
  "one_match cv m =
     (case obj_float cv (sdk_get m ''score'') of
        Inl e \<Rightarrow> Inl e
      | Inr score \<Rightarrow>
          (let md = sdk_get m ''metadata'' in
           case (if obj_true md then obj_dict cv md else Inr []) of
             Inl e \<Rightarrow> Inl e
           | Inr metadata \<Rightarrow>
               Inr \<lparr>vm_id = obj_str cv (sdk_get m ''id''), vm_score = score, vm_metadata = metadata\<rparr>))"

definition matches_from_response :: "conv \<Rightarrow> sdk_obj \<Rightarrow> exn + vector_match list" where
  "matches_from_response cv response =
     (let raw = sdk_get response ''matches'' in
      if \<not> obj_true raw then Inr []
      else case obj_iter cv raw of Inl e \<Rightarrow> Inl e | Inr ms \<Rightarrow> collect (one_match cv) ms)"

record 'w pinecone_store =
  pn_index :: "'w pine_index"
  pn_retry :: retry_settings

definition pine_call ::
  "('w, sdk_obj) runner \<Rightarrow> 'w pinecone_store \<Rightarrow> ('w, sdk_obj) io \<Rightarrow> ('w, sdk_obj) io" where
  "pine_call run A fn = adapter_call run thread_offloader_run classify_pinecone_error (pn_retry A) fn"

definition pine_upsert ::
  "('w, sdk_obj) runner \<Rightarrow> 'w pinecone_store \<Rightarrow> (string \<times> pyfloat list \<times> pydict) list \<Rightarrow> string \<Rightarrow>
   ('w, unit) io" where
  "pine_upsert run A vectors ns =
     (let payload = map (\<lambda>(vid, vals, metadata).
            [(''id'', PStr vid), (''values'', PList (map PFloat vals)), (''metadata'', PDict metadata)]) vectors
      in bindE (pine_call run A (ix_upsert (pn_index A) payload ns)) (\<lambda>u. ret ()))"

definition pine_query ::
  "conv \<Rightarrow> ('w, sdk_obj) runner \<Rightarrow> 'w pinecone_store \<Rightarrow> pyfloat list \<Rightarrow> int \<Rightarrow> string \<Rightarrow>
   ('w, vector_match list) io" where
  "pine_query cv run A vector top_k ns =
     bindE (pine_call run A (ix_query (pn_index A) vector top_k ns True False)) (\<lambda>response.
     liftE (matches_from_response cv response))"

subsection \<open>DuckDuckGo\<close>

text \<open>
  \<open>dd_new\<close> is the factory, \<open>dd_context\<close> whether its objects have \<open>__enter__\<close>; the result of \<open>.text(...)\<close> is the
  list that \<open>list(...)\<close> makes of it.
\<close>

record 'w ddgs_api =
  dd_new :: "('w, nat) io"
  dd_context :: bool
  dd_enter :: "nat \<Rightarrow> ('w, nat) io"
  dd_exit :: "nat \<Rightarrow> 'w \<Rightarrow> 'w"
  dd_text :: "nat \<Rightarrow> string \<Rightarrow> string \<Rightarrow> string \<Rightarrow> int \<Rightarrow> ('w, pydict list) io"

record 'w ddgs_adapter =
  dg_factory :: "'w ddgs_api"
  dg_region :: string
  dg_retry :: retry_settings

definition run_text :: "'w ddgs_adapter \<Rightarrow> string \<Rightarrow> int \<Rightarrow> ('w, pydict list) io" where
  "run_text A query max_results =
     (let D = dg_factory A
      in bindE (dd_new D) (\<lambda>ddgs.
           if dd_context D
           then bindE (dd_enter D ddgs) (\<lambda>client.
                  finallyE (dd_text D client query (dg_region A) ''moderate'' max_results) (dd_exit D ddgs))
           else dd_text D ddgs query (dg_region A) ''moderate'' max_results))"

definition normalize_hits :: "conv \<Rightarrow> pydict list \<Rightarrow> search_result list" where
  "normalize_hits cv raw =
     map (\<lambda>hit. \<lparr>sr_title = obj_str cv (OVal (payload_get hit ''title'' (PStr []))),
                 sr_url = obj_str cv (OVal (payload_get hit ''href'' (PStr []))),
                 sr_snippet = obj_str cv (OVal (payload_get hit ''body'' (PStr [])))\<rparr>) raw"

definition ddgs_call ::
  "('w, pydict list) runner \<Rightarrow> bool \<Rightarrow> 'w ddgs_adapter \<Rightarrow> ('w, pydict list) io \<Rightarrow> ('w, pydict list) io" where
  "ddgs_call run installed A fn =
     adapter_call run thread_offloader_run (classify_ddgs_error installed) (dg_retry A) fn"

definition ddgs_search ::
  "conv \<Rightarrow> ('w, pydict list) runner \<Rightarrow> bool \<Rightarrow> 'w ddgs_adapter \<Rightarrow> string \<Rightarrow> int \<Rightarrow>
   ('w, search_result list) io" where
  "ddgs_search cv run installed A query max_results =
     bindE (ddgs_call run installed A (run_text A query max_results)) (\<lambda>raw.
     ret (normalize_hits cv raw))"

subsection \<open>Lemmas\<close>

lemma collect_map: "(\<And>x. x \<in> set xs \<Longrightarrow> f (g x) = Inr (h x)) \<Longrightarrow> collect f (map g xs) = Inr (map h xs)"
  by (induction xs) auto

lemma obj_simps [simp]:
  "obj_float cv (OVal (PFloat f)) = Inr f" "obj_str cv (OVal (PStr s)) = s" "obj_dict cv (OVal (PDict kvs)) = Inr kvs"
  "obj_iter cv (OVal (PList vs)) = Inr (map OVal vs)" "obj_iter cv (OList xs) = Inr xs"
  by (simp_all add: obj_float_def obj_str_def obj_dict_def obj_iter_def)

lemma float_row_floats [simp]: "float_row cv (OVal (PList (map PFloat row))) = Inr row"
  using collect_map [of row "obj_float cv" "OVal \<circ> PFloat" id] by (simp add: float_row_def)

text \<open>A call that succeeds at once, or that fails at once with an error that is not retried.\<close>

lemma adapter_call_ok:
  assumes "tenacity_laws run" and "fn s = (Inr x, s')"
  shows "adapter_call run thread_offloader_run classify rs fn s = (Inr x, s')"
  unfolding adapter_call_def thread_offloader.off_id
  by (rule tenacity_success [OF assms(1)]) (simp add: tryE_def assms(2))

lemma adapter_call_fails:
  assumes "tenacity_laws run" and "fn s = (Inl e, s')" and "\<not> is_transient (classify e)"
  shows "adapter_call run thread_offloader_run classify rs fn s = (Inl (classify e), s')"
  unfolding adapter_call_def thread_offloader.off_id
  by (rule tenacity_not_retried [OF assms(1)]) (simp_all add: tryE_def raiseE_def assms(2,3) retrying_def)

text \<open>A match as the SDK may present it: a dictionary, or an object with items or with attributes.\<close>

definition match_dict :: "vector_match \<Rightarrow> pyval" where
  "match_dict m =
     PDict [(''id'', PStr (vm_id m)), (''score'', PFloat (vm_score m)), (''metadata'', PDict (vm_metadata m))]"

definition match_fields :: "vector_match \<Rightarrow> (string \<times> sdk_obj) list" where
  "match_fields m =
     [(''id'', OVal (PStr (vm_id m))), (''score'', OVal (PFloat (vm_score m))), (''metadata'', OVal (PDict (vm_metadata m)))]"

lemma one_match_styles:
  "one_match cv (OVal (match_dict m)) = Inr m" "one_match cv (OObj (Some (match_fields m)) as) = Inr m"
  "one_match cv (OObj None (match_fields m)) = Inr m"
  by (simp_all add: one_match_def match_dict_def match_fields_def Let_def)

subsection \<open>Properties\<close>

text \<open>
  What the Hugging Face adapter makes of an answer, over any lawful \<open>tenacity\<close>.  A two-dimensional array comes out as its
  rows, for a single text as the first row only; a flat vector comes out as one row; anything that is neither an array nor a
  list is a \<open>TypeError\<close>.  The number of rows is not compared with the number of texts, nor their length with \<open>dim\<close>.
\<close>

theorem hf_embed_shapes:
  assumes "tenacity_laws run" and "feature_extraction (he_client A) texts (he_model A) w = (Inr result, w')"
  shows "(result = OArray (PList (map (\<lambda>row. PList (map PFloat row)) rows)) \<longrightarrow>
      hf_embed cv run installed A texts w = (Inr (if length texts = 1 then take 1 rows else rows), w')) \<and>
    (result = OArray (PList (map PFloat row)) \<longrightarrow> row \<noteq> [] \<longrightarrow>
      hf_embed cv run installed A texts w = (Inr [row], w')) \<and>
    (result = OVal (PStr t) \<longrightarrow> (\<exists>m. hf_embed cv run installed A texts w = (Inl (TypeError m), w')))"
proof -
  have run: "hf_embed cv run installed A texts w = (ndarray_to_lists cv result (length texts), w')"
    using adapter_call_ok [OF assms(1), where fn = "feature_extraction (he_client A) texts (he_model A)"] assms(2)
    by (simp add: hf_embed_def hf_embedding_call_def bindE_def liftE_def)
  have two: "ndarray_to_lists cv (OArray (PList (map (\<lambda>row. PList (map PFloat row)) rows))) (length texts) =
      Inr (if length texts = 1 then take 1 rows else rows)"
  proof -
    have "collect (float_row cv) (map (\<lambda>row. OVal (PList (map PFloat row))) rows) = Inr (map id rows)"
      by (rule collect_map) simp
    then have c: "collect (float_row cv) (map (OVal \<circ> (\<lambda>row. PList (map PFloat row))) rows) = Inr rows"
      by (simp add: comp_def)
    have "rows \<noteq> [] \<Longrightarrow> \<not> is_number (hd (map (OVal \<circ> (\<lambda>row. PList (map PFloat row))) rows))"
      by (cases rows) auto
    with c show ?thesis by (cases rows) (auto simp: ndarray_to_lists_def Let_def)
  qed
  have flat: "ndarray_to_lists cv (OArray (PList (map PFloat row))) n = Inr [row]" if "row \<noteq> []" for n
  proof -
    have "collect (obj_float cv) (map (\<lambda>f. OVal (PFloat f)) row) = Inr (map id row)" by (rule collect_map) simp
    with that show ?thesis by (cases row) (simp_all add: ndarray_to_lists_def Let_def comp_def)
  qed
  show ?thesis using run two flat by (simp add: ndarray_to_lists_def Let_def)
qed

text \<open>Python's conversions, as far as the witnesses need them, and a client that answers at once.\<close>

definition plain_conv :: conv where
  "plain_conv =
     \<lparr>cv_float_int = (\<lambda>n. FFin (of_int n)), cv_float_str = (\<lambda>s. Inl (ValueError ''could not convert string to float'')),
      cv_str = (\<lambda>x. ''<object>''), cv_dict = (\<lambda>x. Inl (TypeError ''cannot convert to a dictionary'')),
      cv_type = (\<lambda>x. ''<class>'')\<rparr>"

definition tokens_client :: "unit hf_client" where
  "tokens_client =
     \<lparr>feature_extraction = (\<lambda>texts model. ret (OArray (PList [PList [PFloat (FFin 1)], PList [PFloat (FFin 2)]]))),
      text_generation = (\<lambda>prompt model n d s. ret (OVal (PStr prompt)))\<rparr>"

definition tokens_adapter :: "unit hf_embedding" where
  "tokens_adapter = \<lparr>he_client = tokens_client, he_model = ''m'', he_dim = 1, he_retry = default_retry\<rparr>"

text \<open>Two rows for one text: the first is taken; two rows for three texts: both are returned.\<close>

theorem hf_embed_shapes_witness:
  "hf_embed plain_conv loop_runner True tokens_adapter [''t''] () = (Inr [[FFin 1]], ()) \<and>
   hf_embed plain_conv loop_runner True tokens_adapter [''t'', ''u'', ''v''] () =
     (Inr [[FFin 1], [FFin 2]], ())"
proof -
  let ?r = "OArray (PList (map (\<lambda>row. PList (map PFloat row)) [[FFin 1], [FFin 2]]))"
  have fe: "feature_extraction (he_client tokens_adapter) texts (he_model tokens_adapter) () = (Inr ?r, ())" for texts
    by (simp add: tokens_adapter_def tokens_client_def ret_def)
  have "hf_embed plain_conv loop_runner True tokens_adapter texts () =
      (Inr (if length texts = 1 then take 1 [[FFin 1], [FFin 2]] else [[FFin 1], [FFin 2]]), ())" for texts
    by (rule hf_embed_shapes [OF loop_runner_laws fe, THEN conjunct1, THEN mp]) (rule refl)
  from this [of "[''t'']"] this [of "[''t'', ''u'', ''v'']"] show ?thesis by simp
qed

text \<open>
  A Pinecone query does not depend on how the SDK presents its answer: dictionaries, objects with item access and objects with
  attributes all give the matches they stand for, in their order, each with its metadata (an empty one included); an
  answer without matches gives none.
\<close>

theorem pinecone_response_styles:
  assumes "tenacity_laws run" and "ix_query (pn_index A) vector k ns True False w = (Inr response, w')"
    and "response \<in> {OVal (PDict [(''matches'', PList (map match_dict ms))]),
      OObj (Some [(''matches'', OList (map (\<lambda>m. OObj (Some (match_fields m)) []) ms))]) [],
      OObj None [(''matches'', OList (map (\<lambda>m. OObj None (match_fields m)) ms))],
      OObj (Some []) [(''matches'', OList (map (\<lambda>m. OVal (match_dict m)) ms))]}"
  shows "pine_query cv run A vector k ns w = (Inr ms, w')"
proof -
  have run: "pine_query cv run A vector k ns w = (matches_from_response cv response, w')"
    using adapter_call_ok [OF assms(1), where fn = "ix_query (pn_index A) vector k ns True False"] assms(2)
    by (simp add: pine_query_def pine_call_def bindE_def liftE_def)
  have c: "collect (one_match cv) (map g ms) = Inr ms" if "\<And>m. one_match cv (g m) = Inr m" for g
    using collect_map [of ms "one_match cv" g id] that by simp
  have ms: "map OVal (map match_dict ms) = map (\<lambda>m. OVal (match_dict m)) ms" by simp
  from assms(3) have "matches_from_response cv response = Inr ms"
    by (cases "ms = []") (auto simp: matches_from_response_def Let_def c one_match_styles ms simp del: map_map)
  with run show ?thesis by simp
qed

text \<open>An index whose answer is an object with attributes.\<close>

definition attr_index :: "unit pine_index" where
  "attr_index =
     \<lparr>ix_upsert = (\<lambda>payload ns. ret (OVal PNone)),
      ix_query = (\<lambda>v k ns md vals. ret (OObj None [(''matches'', OList [OObj None
        [(''id'', OVal (PStr ''a'')), (''score'', OVal (PFloat (FFin 1))), (''metadata'', OVal (PDict []))]])]))\<rparr>"

definition attr_store :: "unit pinecone_store" where
  "attr_store = \<lparr>pn_index = attr_index, pn_retry = default_retry\<rparr>"

theorem pinecone_response_styles_witness:
  "pine_query plain_conv loop_runner attr_store [FFin 1] 3 ''ns'' () =
     (Inr [\<lparr>vm_id = ''a'', vm_score = FFin 1, vm_metadata = []\<rparr>], ())"
proof -
  let ?m = "\<lparr>vm_id = ''a'', vm_score = FFin 1, vm_metadata = []\<rparr>"
  have "ix_query (pn_index attr_store) [FFin 1] 3 ''ns'' True False () =
      (Inr (OObj None [(''matches'', OList (map (\<lambda>m. OObj None (match_fields m)) [?m]))]), ())"
    by (simp add: attr_store_def attr_index_def ret_def match_fields_def)
  from pinecone_response_styles [OF loop_runner_laws this, of "[?m]"] show ?thesis by simp
qed

text \<open>
  A web search runs in a session of its own that is closed whatever happens: when the session could be opened, the state after
  the call is the one after \<open>.text(...)\<close> with that session closed; the hits come out one by one, with an empty string for
  a missing field; and an error that is not worth a retry comes out as its translation.
\<close>

theorem ddgs_search_closes_session:
  assumes "dg_factory A = D" and "tenacity_laws run" and "dd_new D w = (Inr h, w1)" and "dd_context D" and "dd_enter D h w1 = (Inr client, w2)"
    and "dd_text D client query (dg_region A) ''moderate'' n w2 = (r, w3)"
    and "\<And>e. r = Inl e \<Longrightarrow> \<not> is_transient (classify_ddgs_error installed e)"
  shows "ddgs_search cv run installed A query n w =
    (case r of
       Inl e \<Rightarrow> Inl (classify_ddgs_error installed e)
     | Inr raw \<Rightarrow> Inr (normalize_hits cv raw), dd_exit D h w3) \<and>
    (\<forall>raw. r = Inr raw \<longrightarrow> length (normalize_hits cv raw) = length raw)"
proof -
  have body: "run_text A query n w = (r, dd_exit D h w3)"
    using assms(1,3-6) by (simp add: run_text_def Let_def bindE_def finallyE_def)
  show ?thesis
  proof (cases r)
    case (Inl e)
    with adapter_call_fails [OF assms(2), of "run_text A query n" w e "dd_exit D h w3"
        "classify_ddgs_error installed" "dg_retry A"] body assms(7) show ?thesis
      by (simp add: ddgs_search_def ddgs_call_def bindE_def)
  next
    case (Inr raw)
    with adapter_call_ok [OF assms(2), of "run_text A query n" w raw "dd_exit D h w3"
        "classify_ddgs_error installed" "dg_retry A"] body show ?thesis
      by (simp add: ddgs_search_def ddgs_call_def bindE_def ret_def normalize_hits_def)
  qed
qed

text \<open>A session counter as the world: one session is open during the call, none after it.\<close>

definition one_hit :: "int ddgs_api" where
  "one_hit =
     \<lparr>dd_new = ret 7, dd_context = True, dd_enter = (\<lambda>h n. (Inr h, n + 1)), dd_exit = (\<lambda>h n. n - 1),
      dd_text = (\<lambda>h q region safe n. ret [[(''title'', PStr ''T''), (''href'', PStr ''u'')]])\<rparr>"

definition one_hit_search :: "int ddgs_adapter" where
  "one_hit_search = \<lparr>dg_factory = one_hit, dg_region = ''wt-wt'', dg_retry = default_retry\<rparr>"

theorem ddgs_search_closes_session_witness:
  "ddgs_search plain_conv loop_runner True one_hit_search ''q'' 5 0 =
     (Inr [\<lparr>sr_title = ''T'', sr_url = ''u'', sr_snippet = []\<rparr>], 0)"
proof -
  have "dg_factory one_hit_search = one_hit" "tenacity_laws loop_runner" "dd_new one_hit 0 = (Inr 7, 0)" "dd_context one_hit" "dd_enter one_hit 7 0 = (Inr 7, 1)"
    "dd_text one_hit 7 ''q'' (dg_region one_hit_search) ''moderate'' 5 1 = (Inr [[(''title'', PStr ''T''), (''href'', PStr ''u'')]], 1)"
    by (simp_all add: one_hit_search_def one_hit_def ret_def loop_runner_laws)
  from ddgs_search_closes_session [OF this, of True plain_conv] show ?thesis
    by (simp add: normalize_hits_def payload_get_def one_hit_def)
qed

end
