(* ===== verification/Container.thy ===== *)
theory Container
  imports SdkAdapters ObjectStore Settling
begin

section \<open>The composition root (\<open>providers/bundle.py\<close>, \<open>container.py\<close>, \<open>engine.py\<close>, \<open>api/app.py\<close>)\<close>

text \<open>
  How a process chooses its providers, builds its resources and gives them back.  The constructors of the
  third-party packages are parameters: \<open>sdks\<close> those of the provider SDKs, \<open>platform\<close> those of the thread
  pool, SQLAlchemy, redis-py and boto3, the clocks, and what \<open>asyncio\<close> and \<open>signal\<close> register.  A thread pool, an engine and a Redis client are handles (numbers); \<open>pf_sessions\<close> and
  \<open>pf_redis_api\<close> are what such a handle offers to the repository and the broker.  Nothing is assumed
  of them but the locale \<open>resource_platform\<close>: which handles are held after a constructor or a closing call.

  The world of a process is the triple of what Redis holds, what the database holds and the rest, as in \<open>Routing\<close>.
  The S3 client and the SDKs act on the rest; the provider bundle works over the pair of the fake vector store,
  which is empty in a new process, and the rest.
\<close>

subsection \<open>Provider selection\<close>

record 'p provider_bundle =
  pb_embed :: "('p, pyfloat list) embed_port"
  pb_upsert :: "('p, pyfloat list) upsert_port"
  pb_query :: "('p, pyfloat list) query_port"
  pb_complete :: "'p complete_port"
  pb_search :: "'p search_port"

record 'w sdks =
  sdk_inference_client :: "string \<Rightarrow> ('w, 'w hf_client) io"
  sdk_pinecone :: "string \<Rightarrow> ('w, string \<Rightarrow> ('w, 'w pine_index) io) io"
  sdk_ddgs :: "'w ddgs_api"
  sdk_installed :: bool
  sdk_run :: "('w, sdk_obj) runner"
  sdk_run_hits :: "('w, pydict list) runner"
  sdk_conv :: conv
  sdk_floats :: float_ops
  sdk_blake2b :: "string \<Rightarrow> string \<Rightarrow> nat \<Rightarrow> char"

definition build_providers :: "'w sdks \<Rightarrow> settings \<Rightarrow> ('w, (fake_store \<times> 'w) provider_bundle) io" where
  "build_providers K s =
     (let ps = st_providers s; rs = st_retry s in
      bindE (case st_huggingface_token s of
               Some token \<Rightarrow>
                 bindE (sdk_inference_client K token) (\<lambda>client.
                 let emb = \<lparr>he_client = client, he_model = ps_hf_embedding_model ps,
                     he_dim = ps_embedding_dim ps, he_retry = rs\<rparr>;
                   gen = \<lparr>hl_client = client, hl_model = ps_hf_llm_model ps, hl_retry = rs\<rparr>
                 in ret (\<lambda>texts. on_snd (hf_embed (sdk_conv K) (sdk_run K) (sdk_installed K) emb texts),
                      \<lambda>prompt n. on_snd (hf_complete (sdk_conv K) (sdk_run K) (sdk_installed K) gen prompt n)))
             | None \<Rightarrow>
                 ret (\<lambda>texts. fake_embed (sdk_floats K) (sdk_blake2b K) (ps_embedding_dim ps) texts,
                      \<lambda>prompt n. fake_complete prompt n)) (\<lambda>(embedding, llm).
      bindE (case st_pinecone_api_key s of
               Some key \<Rightarrow>
                 bindE (sdk_pinecone K key) (\<lambda>pc.
                 bindE (pc (ps_pinecone_index ps)) (\<lambda>index.
                 let store = \<lparr>pn_index = index, pn_retry = rs\<rparr>
                 in ret (\<lambda>vectors ns. on_snd (pine_upsert (sdk_run K) store vectors ns),
                      \<lambda>v k ns. on_snd (pine_query (sdk_conv K) (sdk_run K) store v k ns))))
             | None \<Rightarrow>
                 ret (\<lambda>vectors ns. on_fst (fake_upsert vectors ns),
                      \<lambda>v k ns. on_fst (fake_query (sdk_floats K) v k ns))) (\<lambda>(ups, qry).
      ret \<lparr>pb_embed = embedding, pb_upsert = ups, pb_query = qry, pb_complete = llm,
           pb_search =
             (if ps_enable_web_search ps
              then (\<lambda>q n. on_snd (ddgs_search (sdk_conv K) (sdk_run_hits K) (sdk_installed K)
                     \<lparr>dg_factory = sdk_ddgs K, dg_region = ps_search_region ps, dg_retry = rs\<rparr> q n))
              else (\<lambda>q n. fake_search q n))\<rparr>)))"

text \<open>The bundle of the fakes, and the diagnostic summary that goes by the truth value of a secret.\<close>

definition fake_bundle :: "'w sdks \<Rightarrow> int \<Rightarrow> (fake_store \<times> 'w) provider_bundle" where
  "fake_bundle K width =
     \<lparr>pb_embed = fake_embed (sdk_floats K) (sdk_blake2b K) width, pb_upsert = (\<lambda>vectors ns. on_fst (fake_upsert vectors ns)),
      pb_query = (\<lambda>v k ns. on_fst (fake_query (sdk_floats K) v k ns)), pb_complete = fake_complete,
      pb_search = fake_search\<rparr>"

definition secret_true :: "string option \<Rightarrow> bool" where
  "secret_true v = (case v of None \<Rightarrow> False | Some s \<Rightarrow> s \<noteq> [])"

definition provider_modes :: "settings \<Rightarrow> (string \<times> string) list" where
  "provider_modes s =
     (let mode = (\<lambda>real. if real then ''real'' else ''fake'');
          hf = mode (secret_true (st_huggingface_token s));
          pc = mode (secret_true (st_pinecone_api_key s))
      in [(''embedding'', hf), (''llm'', hf), (''vector'', pc),
          (''search'', mode (ps_enable_web_search (st_providers s)))])"

subsection \<open>The platform\<close>

record engine_options =
  eo_url :: string
  eo_echo :: bool
  eo_pool_pre_ping :: bool
  eo_pool_size :: int
  eo_max_overflow :: int
  eo_pool_recycle :: int

record s3_options =
  s3o_endpoint_url :: "string option"
  s3o_access_key_id :: "string option"
  s3o_secret_access_key :: "string option"
  s3o_region :: string
  s3o_signature_version :: string
  s3o_addressing_style :: string
  s3o_max_attempts :: int

record ('q, 'd, 'x) platform =
  pf_thread_pool :: "int \<Rightarrow> string \<Rightarrow> ('q \<times> 'd \<times> 'x, nat) io"
  pf_set_default_executor :: "nat \<Rightarrow> ('q \<times> 'd \<times> 'x, unit) io"
  pf_shutdown :: "nat \<Rightarrow> bool \<Rightarrow> bool \<Rightarrow> ('q \<times> 'd \<times> 'x, unit) io"
  pf_create_async_engine :: "engine_options \<Rightarrow> ('q \<times> 'd \<times> 'x, nat) io"
  pf_sessions :: "nat \<Rightarrow> bool \<Rightarrow> 'd session"
  pf_dispose :: "nat \<Rightarrow> ('q \<times> 'd \<times> 'x, unit) io"
  pf_redis_from_url :: "string \<Rightarrow> string \<Rightarrow> bool \<Rightarrow> ('q \<times> 'd \<times> 'x, nat) io"
  pf_redis_api :: "nat \<Rightarrow> 'q redis"
  pf_redis_aclose :: "nat \<Rightarrow> ('q \<times> 'd \<times> 'x, unit) io"
  pf_boto3_s3 :: "s3_options \<Rightarrow> ('q \<times> 'd \<times> 'x, 'x s3_client) io"
  pf_run :: "('x, unit) runner"
  pf_run_bytes :: "('x, string) runner"
  pf_run_publish :: "('d \<times> 'q, unit) runner"
  pf_select_1 :: "nat \<Rightarrow> ('d, unit) io"
  pf_ping :: "nat \<Rightarrow> ('q, unit) io"
  pf_utcnow :: "'x \<Rightarrow> int \<times> 'x"
  pf_monotonic :: "'x \<Rightarrow> rat \<times> 'x"
  pf_str :: "pyval \<Rightarrow> string"
  pf_add_signal_handler :: "string \<Rightarrow> ('q \<times> 'd \<times> 'x, unit) io"
  pf_signal :: "string \<Rightarrow> ('q \<times> 'd \<times> 'x, unit) io"
  pf_sdks :: "'x sdks"

type_synonym ('q, 'd, 'x, 'a) process_io = "('q \<times> 'd \<times> 'x, 'a) io"

definition on_rest :: "('x, 'a) io \<Rightarrow> ('q, 'd, 'x, 'a) process_io" where
  "on_rest m = on_snd (on_snd m)"

definition build_executor :: "('q, 'd, 'x) platform \<Rightarrow> int \<Rightarrow> ('q, 'd, 'x, nat) process_io" where
  "build_executor P max_workers = pf_thread_pool P max_workers ''aie-offload''"

definition install_default_executor :: "('q, 'd, 'x) platform \<Rightarrow> nat \<Rightarrow> ('q, 'd, 'x, unit) process_io" where
  "install_default_executor P executor = pf_set_default_executor P executor"

definition build_engine :: "('q, 'd, 'x) platform \<Rightarrow> settings \<Rightarrow> ('q, 'd, 'x, nat) process_io" where
  "build_engine P s =
     pf_create_async_engine P
       \<lparr>eo_url = st_database_url s, eo_echo = False, eo_pool_pre_ping = True, eo_pool_size = 10,
        eo_max_overflow = 20, eo_pool_recycle = 1800\<rparr>"

definition build_session_factory :: "('q, 'd, 'x) platform \<Rightarrow> nat \<Rightarrow> 'd session" where
  "build_session_factory P engine = pf_sessions P engine False"

definition dispose :: "('q, 'd, 'x) platform \<Rightarrow> nat \<Rightarrow> ('q, 'd, 'x, unit) process_io" where
  "dispose P engine = pf_dispose P engine"

definition build_s3_client :: "('q, 'd, 'x) platform \<Rightarrow> object_store_settings \<Rightarrow> ('q, 'd, 'x, 'x s3_client) process_io" where
  "build_s3_client P s =
     pf_boto3_s3 P
       \<lparr>s3o_endpoint_url = os_endpoint_url s,
        s3o_access_key_id = (if secret_true (os_access_key_id s) then os_access_key_id s else None),
        s3o_secret_access_key = (if secret_true (os_secret_access_key s) then os_secret_access_key s else None),
        s3o_region = os_region s, s3o_signature_version = ''s3v4'',
        s3o_addressing_style = (if os_force_path_style s then ''path'' else ''auto''), s3o_max_attempts = 0\<rparr>"

subsection \<open>\<open>AppContainer\<close>\<close>

record ('q, 'd, 'x) container =
  ct_settings :: settings
  ct_engine :: nat
  ct_session_factory :: "'d session"
  ct_repository :: "'d repository"
  ct_redis :: nat
  ct_executor :: nat
  ct_object_store :: "'x s3_store"
  ct_queue :: "'q producer"
  ct_providers :: "(fake_store \<times> 'x) provider_bundle"
  ct_installed_executor :: bool

definition create :: "('q, 'd, 'x) platform \<Rightarrow> settings \<Rightarrow> ('q, 'd, 'x, ('q, 'd, 'x) container) process_io" where
  "create P s =
     bindE (build_executor P (st_offload_max_workers s)) (\<lambda>executor.
     bindE (install_default_executor P executor) (\<lambda>u.
     bindE (build_engine P s) (\<lambda>engine.
     let session_factory = build_session_factory P engine; repository = sql_repository session_factory in
     bindE (pf_redis_from_url P (st_redis_url s) ''utf-8'' False) (\<lambda>redis.
     bindE (build_s3_client P (st_object_store s)) (\<lambda>s3_client.
     let store = \<lparr>so_client = s3_client, so_bucket = os_bucket (st_object_store s), so_retry = st_retry s,
                  so_run = pf_run P, so_run_bytes = pf_run_bytes P\<rparr> in
     bindE (if \<not> is_prod s then on_rest (ensure_bucket store) else ret ()) (\<lambda>u.
     let keys = keys_from_settings (st_broker s); queue = producer_init (pf_redis_api P redis) keys (st_broker s) in
     bindE (on_rest (build_providers (pf_sdks P) s)) (\<lambda>providers.
     ret \<lparr>ct_settings = s, ct_engine = engine, ct_session_factory = session_factory, ct_repository = repository,
          ct_redis = redis, ct_executor = executor, ct_object_store = store, ct_queue = queue,
          ct_providers = providers, ct_installed_executor = True\<rparr>)))))))"

definition aclose ::
  "('q, 'd, 'x) platform \<Rightarrow> ('q, 'd, 'x) container \<Rightarrow> ('q, 'd, 'x, ('q, 'd, 'x) container) process_io" where
  "aclose P c =
     bindE (tryE (pf_shutdown P (ct_executor c) False True) (\<lambda>exc. ret ())) (\<lambda>u.
     let c = c\<lparr>ct_installed_executor := False\<rparr> in
     bindE (tryE (pf_redis_aclose P (ct_redis c)) (\<lambda>exc. ret ())) (\<lambda>u.
     bindE (tryE (dispose P (ct_engine c)) (\<lambda>exc. ret ())) (\<lambda>u.
     ret c)))"

text \<open>
  The lifespan of the API around the serving of requests (\<open>body\<close>), with a container of its own or an injected one.
\<close>

definition lifespan ::
  "('q, 'd, 'x) platform \<Rightarrow> settings \<Rightarrow> ('q, 'd, 'x) container option \<Rightarrow>
   (('q, 'd, 'x) container \<Rightarrow> ('q, 'd, 'x, 'a) process_io) \<Rightarrow> ('q, 'd, 'x, 'a) process_io" where
  "lifespan P s container body =
     (case container of
        None \<Rightarrow> bindE (create P s) (\<lambda>created. finallyE (body created) (\<lambda>w. snd (aclose P created w)))
      | Some injected \<Rightarrow> body injected)"

text \<open>The \<open>PipelineContext\<close> that \<open>run_worker\<close> makes of the container.\<close>

definition worker_context ::
  "(pyval \<Rightarrow> string) \<Rightarrow> ('q, 'd, 'x) container \<Rightarrow> (fake_store \<times> 'x, pyfloat list) pipeline_ctx" where
  "worker_context to_str c =
     \<lparr>pc_search = pb_search (ct_providers c), pc_embed = pb_embed (ct_providers c), pc_upsert = pb_upsert (ct_providers c),
      pc_query = pb_query (ct_providers c), pc_complete = pb_complete (ct_providers c),
      pc_put_bytes = (\<lambda>k d t. on_snd (put_bytes (ct_object_store c) k d t)), pc_str = to_str\<rparr>"

subsection \<open>What is held\<close>

lemma bind_step: "m s = (Inr x, t) \<Longrightarrow> bindE m f s = f x t"
  by (simp add: bindE_def)

lemma bind_ret: "bindE (ret x) f = f x" and bind_lift: "bindE (liftE (Inr x)) f = f x"
  by (simp_all add: fun_eq_iff bindE_def ret_def liftE_def)

lemma keeps_bind_returned:
  assumes "keeps I m" and "\<And>x s s'. m s = (Inr x, s') \<Longrightarrow> keeps I (f x)"
  shows "keeps I (bindE m f)"
proof (rule keepsI)
  fix s r s' assume "I s" and run: "bindE m f s = (r, s')"
  obtain q t where m: "m s = (q, t)" by (cases "m s")
  with keepsD [OF assms(1) \<open>I s\<close>] have "I t" by simp
  with m run assms(2) show "I s'" by (cases q) (auto simp: bindE_def dest: keepsD)
qed

datatype resource = Pool nat | Engine nat | RedisClient nat

text \<open>
  A constructor that returns has acquired its handle, one that raises nothing; a closing call that returns has released its handle,
  one that raises may not have; everything else keeps what is held.
\<close>

locale resource_platform =
  fixes P :: "('q, 'd, 'x) platform" and held :: "'q \<times> 'd \<times> 'x \<Rightarrow> resource set"
  assumes pool_law: "pf_thread_pool P n pre w = (r, w') \<Longrightarrow>
      held w' = (case r of Inl e \<Rightarrow> held w | Inr h \<Rightarrow> insert (Pool h) (held w))"
    and engine_law: "pf_create_async_engine P eo w = (r, w') \<Longrightarrow>
      held w' = (case r of Inl e \<Rightarrow> held w | Inr h \<Rightarrow> insert (Engine h) (held w))"
    and redis_law: "pf_redis_from_url P url enc dec w = (r, w') \<Longrightarrow>
      held w' = (case r of Inl e \<Rightarrow> held w | Inr h \<Rightarrow> insert (RedisClient h) (held w))"
    and shutdown_law: "pf_shutdown P h wait cancel w = (u, w') \<Longrightarrow>
      held w' = held w - {Pool h} \<or> (\<exists>e. u = Inl e) \<and> held w' = held w"
    and redis_close_law: "pf_redis_aclose P h w = (u, w') \<Longrightarrow>
      held w' = held w - {RedisClient h} \<or> (\<exists>e. u = Inl e) \<and> held w' = held w"
    and dispose_law: "pf_dispose P h w = (u, w') \<Longrightarrow>
      held w' = held w - {Engine h} \<or> (\<exists>e. u = Inl e) \<and> held w' = held w"
    and default_keeps: "keeps (\<lambda>w. held w = H) (pf_set_default_executor P h)"
    and loop_signal_keeps: "keeps (\<lambda>w. held w = H) (pf_add_signal_handler P sig)"
    and signal_keeps: "keeps (\<lambda>w. held w = H) (pf_signal P sig)"
    and boto_keeps: "keeps (\<lambda>w. held w = H) (pf_boto3_s3 P opts)"
    and s3_keeps: "pf_boto3_s3 P opts w = (Inr client, w') \<Longrightarrow>
      keeps (\<lambda>x. held (q, (d, x)) = H) (head_bucket client b) \<and> keeps (\<lambda>x. held (q, (d, x)) = H) (create_bucket client b)"
    and hf_keeps: "keeps (\<lambda>x. held (q, (d, x)) = H) (sdk_inference_client (pf_sdks P) token)"
    and pinecone_keeps: "keeps (\<lambda>x. held (q, (d, x)) = H) (sdk_pinecone (pf_sdks P) key)"
    and index_keeps: "sdk_pinecone (pf_sdks P) key x = (Inr pc, x') \<Longrightarrow> keeps (\<lambda>x. held (q, (d, x)) = H) (pc name)"
    and tenacity: "tenacity_laws (pf_run P)"
begin

lemma keeps_adapter_call:
  assumes "keeps (\<lambda>x. held (q, (d, x)) = H) fn" and "retry_settings_ok rs"
  shows "keeps (\<lambda>x. held (q, (d, x)) = H) (adapter_call (pf_run P) thread_offloader_run classify rs fn)"
proof (rule keepsI)
  fix x r x' assume x: "held (q, (d, x)) = H" and run: "adapter_call (pf_run P) thread_offloader_run classify rs fn x = (r, x')"
  let ?body = "tryE (thread_offloader_run fn) (\<lambda>exc. raiseE (classify exc))"
  have "keeps (\<lambda>x. held (q, (d, x)) = H) ?body"
    unfolding thread_offloader.off_id by (intro keeps_try assms keeps_raise)
  moreover obtain es where "attempts_ok ?body x es r x'"
    using retrying_trace [OF tenacity assms(2)] run unfolding adapter_call_def by blast
  ultimately show "held (q, (d, x')) = H" by (rule attempts_ok_keeps [where I = "\<lambda>x. held (q, (d, x)) = H", OF _ x])
qed

lemma keeps_on_rest: "(\<And>q d. keeps (\<lambda>x. held (q, (d, x)) = H) m) \<Longrightarrow> keeps (\<lambda>w. held w = H) (on_rest m)"
proof (rule keepsI)
  fix w r w' assume m: "\<And>q d. keeps (\<lambda>x. held (q, (d, x)) = H) m" and w: "held w = H" "on_rest m w = (r, w')"
  obtain q d x where "w = (q, (d, x))" by (cases w)
  moreover obtain y where "m x = (r, y)" "w' = (q, (d, y))"
    using w(2) calculation by (cases "m x") (simp add: on_rest_def on_snd_def zoomE_def)
  ultimately show "held w' = H" using keepsD [OF m [of q d]] w(1) by simp
qed

lemma keeps_ensure_bucket:
  assumes "pf_boto3_s3 P opts w = (Inr client, w')" and "so_client store = client" and "so_run store = pf_run P"
    and "retry_settings_ok (so_retry store)"
  shows "keeps (\<lambda>w. held w = H) (on_rest (ensure_bucket store))"
proof (rule keeps_on_rest)
  fix q d
  have "keeps (\<lambda>x. held (q, (d, x)) = H) (s3_call_no_retry (head_bucket client b))" for b
    unfolding s3_call_no_retry_def thread_offloader.off_id
    by (intro keeps_try conjunct1 [OF s3_keeps [OF assms(1)]]) (simp split: if_split add: keeps_raise)
  then have "keeps (\<lambda>x. held (q, (d, x)) = H) (bucket_exists store)"
    unfolding bucket_exists_def assms(2)
    by (intro keeps_tryElse) (auto split: if_split)
  moreover have "keeps (\<lambda>x. held (q, (d, x)) = H) (s3_call store (create_bucket client b))" for b
    unfolding s3_call_def assms(3) by (rule keeps_adapter_call [OF conjunct2 [OF s3_keeps [OF assms(1)]] assms(4)])
  ultimately show "keeps (\<lambda>x. held (q, (d, x)) = H) (ensure_bucket store)"
    unfolding ensure_bucket_def assms(2) by (intro keeps_bind) (auto split: if_split)
qed

lemma keeps_build_providers: "keeps (\<lambda>w. held w = H) (on_rest (build_providers (pf_sdks P) s))"
proof (rule keeps_on_rest)
  fix q d
  let ?keeps = "keeps (\<lambda>x. held (q, (d, x)) = H)"
  have hf: "?keeps (case st_huggingface_token s of None \<Rightarrow> ret a
      | Some token \<Rightarrow> bindE (sdk_inference_client (pf_sdks P) token) (\<lambda>x. ret (f x)))" for a and f :: "_ \<Rightarrow> 'y"
    by (auto split: option.split intro!: keeps_bind hf_keeps)
  have pc: "?keeps (case st_pinecone_api_key s of None \<Rightarrow> ret a
      | Some key \<Rightarrow> bindE (sdk_pinecone (pf_sdks P) key) (\<lambda>pc. bindE (pc name) (\<lambda>x. ret (f x))))"
    for a name and f :: "_ \<Rightarrow> 'y"
    by (auto split: option.split intro!: keeps_bind_returned [OF pinecone_keeps] keeps_bind dest: index_keeps)
  show "?keeps (build_providers (pf_sdks P) s)"
    unfolding build_providers_def Let_def
    by (intro keeps_bind hf) (auto intro!: keeps_bind pc split: prod.split)
qed

text \<open>Construction only acquires; what a container that was returned holds is its three handles.\<close>

lemma keeps_grows: "(\<And>H. keeps (\<lambda>w. held w = H) m) \<Longrightarrow> keeps (\<lambda>w. H \<subseteq> held w) m"
  unfolding keeps_def by metis

lemma keeps_held: "(\<And>H. keeps (\<lambda>w. held w = H) m) \<Longrightarrow> m w = (r, w') \<Longrightarrow> held w' = held w"
  using keepsD [of "\<lambda>v. held v = held w" m w r w'] by simp

text \<open>What is left of \<open>create\<close> once the Redis client exists keeps what is held.\<close>

lemma rest_keeps:
  assumes "retry_settings_ok rs"
  shows "keeps (\<lambda>w. held w = H) (bindE (pf_boto3_s3 P opts) (\<lambda>client.
    bindE (if dev then on_rest (ensure_bucket \<lparr>so_client = client, so_bucket = b, so_retry = rs, so_run = pf_run P, so_run_bytes = g\<rparr>)
      else ret ()) (\<lambda>u. bindE (on_rest (build_providers (pf_sdks P) s)) (\<lambda>providers. ret (mk client providers)))))"
  by (intro keeps_bind_returned [OF boto_keeps] keeps_bind keeps_build_providers)
    (auto split: if_split intro: keeps_ensure_bucket simp: assms)

lemma create_rest_keeps:
  assumes "retry_settings_ok (st_retry s)" and "create P s w = (r, w')"
    and "pf_thread_pool P (st_offload_max_workers s) ''aie-offload'' w = (Inr x, w1)"
    and "pf_set_default_executor P x w1 = (Inr (), w2)" and "build_engine P s w2 = (Inr g, w3)"
    and "pf_redis_from_url P (st_redis_url s) ''utf-8'' False w3 = (Inr q, w4)"
  shows "held w' = held w4"
proof -
  note run = assms(2) [unfolded create_def build_executor_def install_default_executor_def Let_def build_s3_client_def
      bind_step [of "pf_thread_pool P n pre" for n pre, OF assms(3)]
      bind_step [of "pf_set_default_executor P h" for h, OF assms(4)]
      bind_step [of "build_engine P s", OF assms(5)]
      bind_step [of "pf_redis_from_url P url enc dec" for url enc dec, OF assms(6)]]
  show ?thesis by (rule keeps_held [OF rest_keeps [OF assms(1)] run])
qed

lemma create_returned:
  assumes "retry_settings_ok (st_retry s)" and "create P s w = (Inr c, w')"
  shows "held w' = held w \<union> {Pool (ct_executor c), Engine (ct_engine c), RedisClient (ct_redis c)}"
  using assms(2) unfolding create_def Let_def build_executor_def install_default_executor_def build_engine_def
    build_s3_client_def
proof (elim bind_InrE, goal_cases)
  case (1 executor w1 u w2 engine w3 redis w4 client w5 u' w6 providers w7)
  let ?store = "\<lparr>so_client = client, so_bucket = os_bucket (st_object_store s), so_retry = st_retry s,
      so_run = pf_run P, so_run_bytes = pf_run_bytes P\<rparr>"
  have "held w1 = insert (Pool executor) (held w)" using pool_law [OF 1(1)] by simp
  moreover have "held w2 = held w1" by (rule keeps_held [OF default_keeps 1(2)])
  moreover have "held w3 = insert (Engine engine) (held w2)" using engine_law [OF 1(3)] by simp
  moreover have "held w4 = insert (RedisClient redis) (held w3)" using redis_law [OF 1(4)] by simp
  moreover have "held w5 = held w4" by (rule keeps_held [OF boto_keeps 1(5)])
  moreover have "held w6 = held w5"
    by (rule keeps_held [of "if \<not> is_prod s then on_rest (ensure_bucket ?store) else ret ()" w5 "Inr u'" w6, OF _ 1(6)]) (use assms(1) in \<open>auto intro!: keeps_ensure_bucket [OF 1(5)]\<close>)
  moreover have "held w7 = held w6" by (rule keeps_held [OF keeps_build_providers 1(7)])
  moreover have "w' = w7" "ct_executor c = executor" "ct_engine c = engine" "ct_redis c = redis"
    using 1(8) by (auto simp: ret_def)
  ultimately show ?case by auto
qed

text \<open>Closing a container whose closing calls return leaves nothing of it.\<close>

lemma aclose_returns:
  assumes "retry_settings_ok (st_retry s)" and "create P s w = (Inr c, w1)" and "held w2 = held w1"
    and "\<forall>h v. fst (pf_shutdown P h False True v) = Inr () \<and> fst (pf_redis_aclose P h v) = Inr () \<and>
      fst (pf_dispose P h v) = Inr ()"
  shows "held (snd (aclose P c w2)) \<subseteq> held w"
proof -
  obtain v1 where 1: "pf_shutdown P (ct_executor c) False True w2 = (Inr (), v1)" using assms(4) by (metis prod.collapse)
  obtain v2 where 2: "pf_redis_aclose P (ct_redis c) v1 = (Inr (), v2)" using assms(4) by (metis prod.collapse)
  obtain v3 where 3: "pf_dispose P (ct_engine c) v2 = (Inr (), v3)" using assms(4) by (metis prod.collapse)
  have "snd (aclose P c w2) = v3" using 1 2 3 by (simp add: aclose_def dispose_def eff_defs Let_def)
  moreover have "held v3 = held w2 - {Pool (ct_executor c)} - {RedisClient (ct_redis c)} - {Engine (ct_engine c)}"
    using shutdown_law [OF 1] redis_close_law [OF 2] dispose_law [OF 3] by auto
  ultimately show ?thesis using create_returned [OF assms(1,2)] assms(3) by auto
qed

end

text \<open>
  A platform that counts: the rest of its world is the next handle and the handles that are held; Redis and the database are the
  in-memory ones.  With \<open>down\<close> the object store does not answer.
\<close>

type_synonym counting_world = "mem_redis \<times> jobs_db \<times> nat \<times> resource list"

definition acquire :: "(nat \<Rightarrow> resource) \<Rightarrow> (counting_world, nat) io" where
  "acquire mk = on_rest (\<lambda>x. (Inr (fst x), (fst x + 1, mk (fst x) # snd x)))"

definition release :: "resource \<Rightarrow> (counting_world, unit) io" where
  "release y = on_rest (\<lambda>x. (Inr (), (fst x, filter (\<lambda>z. z \<noteq> y) (snd x))))"

lemma acquire_simps [simp]: "acquire mk (q, (d, (n, held))) = (Inr n, (q, (d, (n + 1, mk n # held))))"
  and release_simps [simp]: "release y (q, (d, (n, held))) = (Inr (), (q, (d, (n, filter (\<lambda>z. z \<noteq> y) held))))"
  by (simp_all add: acquire_def release_def on_rest_def on_snd_def zoomE_def)

definition no_endpoint :: sdk_error where
  "no_endpoint =
     \<lparr>sdk_mro = [''botocore.exceptions.EndpointConnectionError'', ''botocore.exceptions.BotoCoreError''],
      sdk_name = ''EndpointConnectionError'', sdk_text = ''Could not connect to the endpoint'',
      sdk_repr = ''EndpointConnectionError()'', sdk_status = None, sdk_response_status = None,
      sdk_client_response = \<lparr>cr_code = None, cr_message = None, cr_status = None\<rparr>\<rparr>"

definition counting_sdks :: "(nat \<times> resource list) sdks" where
  "counting_sdks =
     \<lparr>sdk_inference_client = (\<lambda>t. ret \<lparr>feature_extraction = (\<lambda>ts m. ret (OArray (PList []))),
        text_generation = (\<lambda>p m n d st. ret (OVal (PStr p)))\<rparr>),
      sdk_pinecone = (\<lambda>k. ret (\<lambda>n. ret \<lparr>ix_upsert = (\<lambda>p ns. ret (OVal PNone)),
        ix_query = (\<lambda>v k ns md vals. ret (OVal (PDict [])))\<rparr>)),
      sdk_ddgs = \<lparr>dd_new = ret 0, dd_context = False, dd_enter = ret, dd_exit = (\<lambda>h w. w),
        dd_text = (\<lambda>h q r sf n. ret [])\<rparr>,
      sdk_installed = True, sdk_run = loop_runner, sdk_run_hits = loop_runner, sdk_conv = plain_conv,
      sdk_floats = exact_floats, sdk_blake2b = (\<lambda>txt salt i. CHR ''0'')\<rparr>"

definition counting_s3 :: "bool \<Rightarrow> (nat \<times> resource list) s3_client" where
  "counting_s3 down =
     \<lparr>head_bucket = (\<lambda>b. if down then raiseE (SdkError no_endpoint) else ret ()), create_bucket = (\<lambda>b. ret ()),
      put_object = (\<lambda>b k d ct. ret ()), get_object = (\<lambda>b k. ret 0), body_read = (\<lambda>h. ret []),
      body_close = (\<lambda>h w. w)\<rparr>"

definition counting_platform :: "bool \<Rightarrow> (mem_redis, jobs_db, nat \<times> resource list) platform" where
  "counting_platform down =
     \<lparr>pf_thread_pool = (\<lambda>n pre. acquire Pool), pf_set_default_executor = (\<lambda>h. ret ()),
      pf_shutdown = (\<lambda>h wait cancel. release (Pool h)), pf_create_async_engine = (\<lambda>eo. acquire Engine),
      pf_sessions = (\<lambda>h expire. table_session), pf_dispose = (\<lambda>h. release (Engine h)),
      pf_redis_from_url = (\<lambda>url enc dec. acquire RedisClient), pf_redis_api = (\<lambda>h. mem_client),
      pf_redis_aclose = (\<lambda>h. release (RedisClient h)),
      pf_boto3_s3 = (\<lambda>opts. ret (counting_s3 down)),
      pf_run = loop_runner, pf_run_bytes = loop_runner, pf_run_publish = loop_runner,
      pf_select_1 = (\<lambda>h. ret ()), pf_ping = (\<lambda>h. ret ()), pf_utcnow = (\<lambda>x. (5, x)), pf_monotonic = (\<lambda>x. (0, x)),
      pf_str = (\<lambda>v. []), pf_add_signal_handler = (\<lambda>sig. ret ()), pf_signal = (\<lambda>sig. ret ()),
      pf_sdks = counting_sdks\<rparr>"

abbreviation handles :: "counting_world \<Rightarrow> resource set" where
  "handles w \<equiv> set (snd (snd (snd w)))"

interpretation counting: resource_platform "counting_platform down" handles for down
proof unfold_locales
  show "keeps (\<lambda>x. handles (q, (d, x)) = H) (head_bucket client b) \<and> keeps (\<lambda>x. handles (q, (d, x)) = H) (create_bucket client b)"
    if "pf_boto3_s3 (counting_platform down) opts w = (Inr client, w')" for opts w client w' q d H b
    using that by (cases down) (auto simp: counting_platform_def counting_s3_def ret_def keeps_def raiseE_def)
  show "tenacity_laws (pf_run (counting_platform down))" by (simp add: counting_platform_def loop_runner_laws)
qed (auto simp: counting_platform_def counting_sdks_def acquire_def release_def on_rest_def on_snd_def zoomE_def ret_def keeps_def
    split: prod.splits)

lemma counting_put:
  "put_bytes \<lparr>so_client = counting_s3 False, so_bucket = b, so_retry = rs, so_run = loop_runner, so_run_bytes = g\<rparr> key data t v =
     (Inr (''s3://'' @ b @ ''/'' @ key), v)"
proof -
  have "loop_runner p (tryE (ret ()) h) v = (Inr (), v)" for p h
    by (rule tenacity_success [OF loop_runner_laws]) (simp add: tryE_def ret_def)
  then show ?thesis
    by (simp add: put_bytes_def s3_call_def adapter_call_def counting_s3_def thread_offloader.off_id bindE_def ret_def)
qed

lemma counting_simps:
  "pf_thread_pool (counting_platform down) k pre = acquire Pool" "pf_set_default_executor (counting_platform down) h = ret ()"
  "pf_create_async_engine (counting_platform down) eo = acquire Engine"
  "pf_redis_from_url (counting_platform down) url enc dec = acquire RedisClient"
  "pf_boto3_s3 (counting_platform down) opts = ret (counting_s3 down)" "pf_run (counting_platform down) = loop_runner"
  "pf_run_bytes (counting_platform down) = loop_runner" "pf_sdks (counting_platform down) = counting_sdks"
  "pf_shutdown (counting_platform down) h wait cancel = release (Pool h)" "pf_dispose (counting_platform down) h = release (Engine h)"
  "pf_redis_aclose (counting_platform down) h = release (RedisClient h)" "pf_redis_api (counting_platform down) h = mem_client"
  "pf_sessions (counting_platform down) h expire = table_session" "pf_run_publish (counting_platform down) = loop_runner"
  "pf_monotonic (counting_platform down) = (\<lambda>x. (0, x))" "pf_utcnow (counting_platform down) = (\<lambda>x. (5, x))"
  "pf_add_signal_handler (counting_platform down) sig = ret ()"
  by (simp_all add: counting_platform_def)

lemma default_settings_simps:
  "st_retry default_settings = default_retry" "ps_embedding_dim (st_providers default_settings) = 384"
  "\<not> is_prod default_settings" "st_broker default_settings = default_broker" "retry_settings_ok default_retry"
  by (simp_all add: default_settings_def default_providers_def is_prod_def retry_settings_ok_def default_retry_def)

text \<open>Three handles are taken; an object store that is down ends the start-up after the third.\<close>

definition blank :: counting_world where
  "blank = (mem_start, (empty_db, (0, [])))"

definition three_held :: counting_world where
  "three_held = (mem_start, (empty_db, (3, [RedisClient 2, Engine 1, Pool 0])))"

lemma on_rest_ret: "on_rest (ret x) = ret x" and on_rest_raise: "on_rest (raiseE e) = raiseE e"
  by (simp_all add: fun_eq_iff on_rest_def on_snd_def zoomE_def ret_def raiseE_def)

lemma sample_create_endpoint:
  "\<exists>c. create (counting_platform False) (default_settings\<lparr>st_api_keys := ks,
         st_object_store := default_object_store\<lparr>os_endpoint_url := url, os_force_path_style := path\<rparr>\<rparr>) blank = (Inr c, three_held) \<and>
     ct_executor c = 0 \<and> ct_engine c = 1 \<and> ct_redis c = 2 \<and> ct_providers c = fake_bundle counting_sdks 384 \<and>
     ct_object_store c = \<lparr>so_client = counting_s3 False, so_bucket = os_bucket default_object_store,
       so_retry = default_retry, so_run = loop_runner, so_run_bytes = loop_runner\<rparr>"
proof -
  let ?os = "default_object_store\<lparr>os_endpoint_url := url, os_force_path_style := path\<rparr>"
  let ?s = "default_settings\<lparr>st_api_keys := ks, st_object_store := ?os\<rparr>"
  have bucket: "so_client st = counting_s3 False \<Longrightarrow> ensure_bucket st = ret ()" for st
    by (simp add: fun_eq_iff ensure_bucket_def bucket_exists_def s3_call_no_retry_def thread_offloader.off_id counting_s3_def
        eff_defs)
  have fakes: "build_providers K ?s = ret (fake_bundle K 384)" for K :: "(nat \<times> resource list) sdks"
    by (simp add: fun_eq_iff build_providers_def default_settings_def default_providers_def fake_bundle_def bindE_def ret_def)
  have same: "is_prod ?s = is_prod default_settings" by (simp add: is_prod_def)
  show ?thesis
    by (simp add: create_def build_executor_def install_default_executor_def build_engine_def build_s3_client_def Let_def fakes bucket
        counting_simps default_settings_simps same on_rest_ret bindE_def ret_def blank_def three_held_def)
qed

lemma sample_create:
  "\<exists>c. create (counting_platform False) (default_settings\<lparr>st_api_keys := ks\<rparr>) blank = (Inr c, three_held) \<and>
     ct_executor c = 0 \<and> ct_engine c = 1 \<and> ct_redis c = 2 \<and> ct_providers c = fake_bundle counting_sdks 384 \<and>
     ct_object_store c = \<lparr>so_client = counting_s3 False, so_bucket = os_bucket default_object_store,
       so_retry = default_retry, so_run = loop_runner, so_run_bytes = loop_runner\<rparr>"
proof -
  have "default_settings\<lparr>st_api_keys := ks,
      st_object_store := default_object_store\<lparr>os_endpoint_url := None, os_force_path_style := False\<rparr>\<rparr> =
    default_settings\<lparr>st_api_keys := ks\<rparr>" by (simp add: default_settings_def default_object_store_def)
  with sample_create_endpoint [where ks = ks and url = None and path = False] show ?thesis by (simp only:)
qed

lemma sample_create_default:
  obtains c where "create (counting_platform False) default_settings blank = (Inr c, three_held)"
    and "ct_executor c = 0" and "ct_engine c = 1" and "ct_redis c = 2" and "ct_providers c = fake_bundle counting_sdks 384"
    and "ct_object_store c = \<lparr>so_client = counting_s3 False, so_bucket = os_bucket default_object_store,
       so_retry = default_retry, so_run = loop_runner, so_run_bytes = loop_runner\<rparr>"
proof -
  have "default_settings\<lparr>st_api_keys := []\<rparr> = default_settings" by (simp add: default_settings_def)
  with sample_create [of "[]"] that show thesis by (metis (no_types))
qed

lemma sample_create_down:
  "\<exists>e. create (counting_platform True) default_settings blank = (Inl e, three_held) \<and> is_transient e"
proof -
  define e where "e = classify_botocore_error (SdkError no_endpoint)"
  have e: "is_transient e"
    by (simp add: e_def classifiers no_endpoint_def CLIENT_ERROR_def TRANSIENT_BOTOCORE_TYPES_def)
  have "http_status (SdkError no_endpoint) \<noteq> 404" by (simp add: http_status_def no_endpoint_def opt_get_def)
  then have bucket: "so_client st = counting_s3 True \<Longrightarrow> ensure_bucket st = raiseE e" for st
    using e by (simp add: fun_eq_iff ensure_bucket_def bucket_exists_def s3_call_no_retry_def thread_offloader.off_id
        counting_s3_def eff_defs e_def)
  have "create (counting_platform True) default_settings blank = (Inl e, three_held)"
    by (simp add: create_def build_executor_def install_default_executor_def build_engine_def build_s3_client_def Let_def bindE_def
        counting_simps default_settings_simps bucket on_rest_raise ret_def raiseE_def blank_def three_held_def)
  with e show ?thesis by blast
qed

subsection \<open>Properties\<close>

text \<open>
  Teardown is best effort and complete.  \<open>aclose\<close> never raises; whatever its three calls return or raise, each of
  them is made, in the order executor, Redis, engine, on the state its predecessor left; it acquires nothing, and a handle
  whose closing call returned is released.
\<close>

theorem aclose_best_effort:
  assumes "resource_platform P held"
    and "pf_shutdown P (ct_executor c) False True w = (r1, w1)" and "pf_redis_aclose P (ct_redis c) w1 = (r2, w2)"
    and "pf_dispose P (ct_engine c) w2 = (r3, w3)"
  shows "aclose P c w = (Inr (c\<lparr>ct_installed_executor := False\<rparr>), w3) \<and> held w3 \<subseteq> held w \<and>
    (r1 = Inr () \<longrightarrow> Pool (ct_executor c) \<notin> held w3) \<and> (r2 = Inr () \<longrightarrow> RedisClient (ct_redis c) \<notin> held w3) \<and>
    (r3 = Inr () \<longrightarrow> Engine (ct_engine c) \<notin> held w3)"
proof -
  have "aclose P c w = (Inr (c\<lparr>ct_installed_executor := False\<rparr>), w3)"
    using assms(2-4) by (cases r1; cases r2; cases r3) (simp_all add: aclose_def dispose_def eff_defs Let_def)
  moreover note resource_platform.shutdown_law [OF assms(1,2)] resource_platform.redis_close_law [OF assms(1,3)]
    resource_platform.dispose_law [OF assms(1,4)]
  ultimately show ?thesis by auto
qed

theorem aclose_best_effort_witness:
  "\<exists>c w3. create (counting_platform False) default_settings blank = (Inr c, three_held) \<and>
     handles three_held = {Pool 0, Engine 1, RedisClient 2} \<and>
     aclose (counting_platform False) c three_held = (Inr (c\<lparr>ct_installed_executor := False\<rparr>), w3) \<and> handles w3 = {}"
proof -
  obtain c where c: "create (counting_platform False) default_settings blank = (Inr c, three_held)"
    "ct_executor c = 0" "ct_engine c = 1" "ct_redis c = 2" by (rule sample_create_default) blast
  have steps: "pf_shutdown (counting_platform False) (ct_executor c) False True three_held =
      (Inr (), (mem_start, (empty_db, (3, [RedisClient 2, Engine 1]))))"
    "pf_redis_aclose (counting_platform False) (ct_redis c) (mem_start, (empty_db, (3, [RedisClient 2, Engine 1]))) =
      (Inr (), (mem_start, (empty_db, (3, [Engine 1]))))"
    "pf_dispose (counting_platform False) (ct_engine c) (mem_start, (empty_db, (3, [Engine 1]))) =
      (Inr (), (mem_start, (empty_db, (3, []))))"
    by (simp_all add: counting_simps c three_held_def)
  from aclose_best_effort [OF counting.resource_platform_axioms steps] c(1) show ?thesis by (auto simp: three_held_def)
qed

text \<open>
  The lifespan gives back what it took.  When the container could be created, its closing calls return, and the work in
  between keeps what is held (whether it returns or raises), then the lifespan ends with the work's result and holds
  nothing that was not held before.
\<close>

theorem lifespan_returns_resources:
  assumes "resource_platform P held" and "retry_settings_ok (st_retry s)"
    and "create P s w = (Inr c, w1)" and "work c w1 = (r, w2)" and "held w2 = held w1"
    and "\<forall>h v. fst (pf_shutdown P h False True v) = Inr () \<and> fst (pf_redis_aclose P h v) = Inr () \<and>
      fst (pf_dispose P h v) = Inr ()"
  shows "\<exists>w'. lifespan P s None work w = (r, w') \<and> held w' \<subseteq> held w"
  using resource_platform.aclose_returns [OF assms(1-3,5,6)] assms(3,4) by (simp add: lifespan_def bindE_def finallyE_def)

theorem lifespan_returns_resources_witness:
  "\<exists>w'. lifespan (counting_platform False) default_settings None (\<lambda>c. raiseE (ValueError ''crash'')) blank =
       ((Inl (ValueError ''crash'')) :: exn + unit, w') \<and> handles w' = {}"
proof -
  obtain c where c: "create (counting_platform False) default_settings blank = (Inr c, three_held)"
    by (rule sample_create_default) blast
  have ok: "retry_settings_ok (st_retry default_settings)" by (simp add: default_settings_simps)
  have work: "(\<lambda>c. raiseE (ValueError ''crash'')) c three_held = ((Inl (ValueError ''crash'')) :: exn + unit, three_held)"
    by (simp add: raiseE_def)
  have closers: "\<forall>h v. fst (pf_shutdown (counting_platform False) h False True v) = Inr () \<and>
      fst (pf_redis_aclose (counting_platform False) h v) = Inr () \<and> fst (pf_dispose (counting_platform False) h v) = Inr ()"
    by (simp add: counting_simps release_def on_rest_def on_snd_def zoomE_def)
  from lifespan_returns_resources [OF counting.resource_platform_axioms ok c,
      where work = "\<lambda>c. raiseE (ValueError ''crash'')", OF work refl closers]
  show ?thesis by (simp add: blank_def)
qed

text \<open>
  A start-up that fails gives nothing back.  When \<open>create\<close> raises after the executor, the engine and the Redis client
  exist (outside production an object store that does not answer is enough), the lifespan ends with that exception and
  without any closing call: the three handles are still held.
\<close>

theorem failed_startup_leaks:
  assumes "resource_platform P held" and "retry_settings_ok (st_retry s)"
    and "create P s w = (Inl e, w')" and "pf_thread_pool P (st_offload_max_workers s) ''aie-offload'' w = (Inr x, w1)"
    and "pf_set_default_executor P x w1 = (Inr (), w2)" and "build_engine P s w2 = (Inr g, w3)"
    and "pf_redis_from_url P (st_redis_url s) ''utf-8'' False w3 = (Inr q, w4)"
  shows "lifespan P s None work w = (Inl e, w') \<and> {Pool x, Engine g, RedisClient q} \<subseteq> held w'"
proof -
  have "held w4 = {Pool x, Engine g, RedisClient q} \<union> held w"
    using resource_platform.pool_law [OF assms(1,4)]
      resource_platform.keeps_held [OF assms(1) resource_platform.default_keeps [OF assms(1)] assms(5)]
      resource_platform.engine_law [OF assms(1) assms(6) [unfolded build_engine_def]]
      resource_platform.redis_law [OF assms(1,7)] by auto
  with resource_platform.create_rest_keeps [OF assms] assms(3) show ?thesis
    by (simp add: lifespan_def bindE_def)
qed

text \<open>The object store that does not answer: \<open>head_bucket\<close> is not retried, and its error ends \<open>create\<close>.\<close>

theorem failed_startup_leaks_witness:
  "\<exists>e w'. lifespan (counting_platform True) default_settings None (\<lambda>c. ret ()) blank = (Inl e, w') \<and> is_transient e \<and>
     {Pool 0, Engine 1, RedisClient 2} \<subseteq> handles w'"
proof -
  let ?P = "counting_platform True"
  have ok: "retry_settings_ok (st_retry default_settings)" by (simp add: default_settings_simps)
  obtain e where run: "create ?P default_settings blank = (Inl e, three_held)" "is_transient e" using sample_create_down by blast
  have steps: "pf_thread_pool ?P k pre blank = (Inr 0, (mem_start, (empty_db, (1, [Pool 0]))))"
    "pf_set_default_executor ?P 0 (mem_start, (empty_db, (1, [Pool 0]))) = (Inr (), (mem_start, (empty_db, (1, [Pool 0]))))"
    "build_engine ?P default_settings (mem_start, (empty_db, (1, [Pool 0]))) = (Inr 1, (mem_start, (empty_db, (2, [Engine 1, Pool 0]))))"
    "pf_redis_from_url ?P url enc dec (mem_start, (empty_db, (2, [Engine 1, Pool 0]))) = (Inr 2, three_held)"
    for k pre url enc dec
    by (simp_all add: counting_simps build_engine_def ret_def blank_def three_held_def)
  from failed_startup_leaks [OF counting.resource_platform_axioms ok run(1) steps(1,2,3,4), of "\<lambda>c. ret ()"] run(2)
  show ?thesis by auto
qed

lemma fake_search_corpus:
  obtains hits where "\<And>v. fake_search query n v = (Inr hits, v)" and "set hits \<subseteq> set CORPUS"
proof -
  let ?ranked = "sort_by (hit_less (query_terms query)) CORPUS"
  let ?found = "filter (\<lambda>r. 0 < term_overlap r (query_terms query)) ?ranked"
  have "set (slice_to n (if ?found = [] then ?ranked else ?found)) \<subseteq> set CORPUS"
    using slice_to_sublist(1) [of n] by (fastforce split: if_splits simp del: filter.simps)
  then show thesis by (rule that [rotated]) (simp add: fake_search_def Let_def ret_def)
qed

lemma fake_rag_ends:
  assumes "ct_providers c = fake_bundle K width" and "payload_ok RAG_QUERY (j_payload job)"
  obtains data store' where "rag_run (worker_context to_str c) job (store, w) =
      on_snd (put_bytes (ct_object_store c) (result_key job ''.json'') data ''application/json'') (store', w)"
    and "\<And>ns. ns \<noteq> ''job:'' @ uuid_str (j_id job) \<Longrightarrow> fake_content store' ns = fake_content store ns"
    and "\<And>i x. fake_content store' (''job:'' @ uuid_str (j_id job)) i = Some x \<Longrightarrow>
      fake_content store (''job:'' @ uuid_str (j_id job)) i = Some x \<or>
      (\<exists>r \<in> set CORPUS. snd x = [(''text'', PStr (sr_snippet r))])"
proof -
  let ?ns = "''job:'' @ uuid_str (j_id job)"
  obtain query where q: "require_str (j_payload job) ''query'' = Inr query"
    using assms(2) require_str_cases [of "j_payload job" "''query''"] by auto
  obtain k where k: "optional_int (j_payload job) ''top_k'' 3 = Inr k"
    using assms(2) optional_int_cases [of "j_payload job" "''top_k''" 3] by auto
  obtain hits where hits: "fake_search query (k * 2) v = (Inr hits, v)" "set hits \<subseteq> set CORPUS"
    for v :: "fake_store \<times> 'a"
    by (rule fake_search_corpus) blast
  define records where "records = rag_records (zip (map (fake_vector (sdk_floats K) (sdk_blake2b K) width)
      (map sr_snippet hits)) (map sr_snippet hits))"
  define store' where "store' = (if records = [] then store else snd (fake_upsert records ?ns store))"
  have content: "fake_content store' ns =
      (if ns = ?ns then fake_content store ns ++ map_of (rev records) else fake_content store ns)" for ns
    by (auto simp: store'_def fake_upsert_def fake_content_def bucket_of_update fold_update)
  have snippets: "\<exists>r \<in> set CORPUS. snd x = [(''text'', PStr (sr_snippet r))]"
    if "map_of (rev records) i = Some x" for i x
  proof -
    from map_of_SomeD [OF that] obtain r where "r \<in> set hits" "snd x = [(''text'', PStr (sr_snippet r))]"
      by (auto simp: records_def rag_records_def set_zip) (metis nth_mem)
    with hits(2) show ?thesis by blast
  qed
  have zipped: "zip_strict (map f xs) xs = Inr (zip (map f xs) xs)" for f :: "string \<Rightarrow> pyfloat list" and xs
    by (simp add: zip_strict_def)
  have empty: "records = [] \<longleftrightarrow> hits = []" by (simp add: records_def rag_records_def zip_eq_Nil_iff)
  have ups: "on_fst (fake_upsert records ?ns) (store, w) = (Inr (), (store', w))" if "hits \<noteq> []"
    using that empty by (simp add: on_fst_def zoomE_def fake_upsert_def store'_def)
  obtain matches where qry: "on_fst (fake_query (sdk_floats K) (fake_vector (sdk_floats K) (sdk_blake2b K) width query) k ?ns)
      (store', w) = (Inr matches, (store', w))"
    by (simp add: on_fst_def zoomE_def fake_query_def Let_def)
  obtain answer where llm: "\<And>p. fake_complete p 512 = (ret (answer p) :: (fake_store \<times> 'a, string) io)"
    by (simp only: fake_complete_def Let_def)
  have "\<exists>data. rag_run (worker_context to_str c) job (store, w) =
      on_snd (put_bytes (ct_object_store c) (result_key job ''.json'') data ''application/json'') (store', w)"
  proof (cases "hits = []")
    case True
    with empty have "store' = store" "rag_records (zip [] []) = ([] :: (string \<times> pyfloat list \<times> pydict) list)"
      by (simp_all add: store'_def rag_records_def)
    with True show ?thesis
      by (simp add: rag_run_def worker_context_def assms(1) fake_bundle_def bindE_def liftE_def ret_def q k hits(1) Let_def
        fake_embed_def zip_strict_def llm) (intro exI, rule refl)
  next
    case False
    have emb: "fake_embed U H n xs v = (Inr (map (fake_vector U H n) xs), v)" for U H n xs v
      by (simp add: fake_embed_def ret_def)
    have "map sr_snippet hits \<noteq> []" "records \<noteq> []" using False empty by simp_all
    then show ?thesis
      by (simp only: rag_run_def worker_context_def assms(1) fake_bundle_def pipeline_ctx.simps provider_bundle.simps Let_def
          q k bind_ret bind_lift bind_step [OF hits(1)] bind_step [OF emb] zipped records_def [symmetric] if_True not_False_eq_True
          bind_step [of "on_fst (fake_upsert records ?ns)", OF ups [OF False]] unpack_one.simps list.map bind_step [of "on_fst (fake_query U v n ns)" for U v n ns, OF qry] llm bool_simps) (intro exI, rule refl)
  qed
  then obtain data where run: "rag_run (worker_context to_str c) job (store, w) =
      on_snd (put_bytes (ct_object_store c) (result_key job ''.json'') data ''application/json'') (store', w)" by blast
  show thesis by (rule that [OF run]) (use content snippets in \<open>auto simp: map_add_Some_iff\<close>)
qed

text \<open>
  A process without provider secrets answers every well-formed query.  With the fakes and an object store that writes,
  a RAG job whose payload is well-formed returns; it touches no namespace of the vector store but the job's own,
  and what it stores there is a snippet of the corpus.
\<close>

theorem fake_rag_completes:
  assumes "ct_providers c = fake_bundle K width" and "payload_ok RAG_QUERY (j_payload job)"
    and "\<forall>key data t v. \<exists>ref v'. put_bytes (ct_object_store c) key data t v = (Inr ref, v')"
  shows "\<exists>ref store' w'. rag_run (worker_context to_str c) job (store, w) = (Inr ref, (store', w')) \<and>
    (\<forall>ns. ns \<noteq> ''job:'' @ uuid_str (j_id job) \<longrightarrow> fake_content store' ns = fake_content store ns) \<and>
    (\<forall>i x. fake_content store' (''job:'' @ uuid_str (j_id job)) i = Some x \<longrightarrow>
      fake_content store (''job:'' @ uuid_str (j_id job)) i = Some x \<or>
      (\<exists>r \<in> set CORPUS. snd x = [(''text'', PStr (sr_snippet r))]))"
proof -
  obtain data store' where run: "rag_run (worker_context to_str c) job (store, w) =
      on_snd (put_bytes (ct_object_store c) (result_key job ''.json'') data ''application/json'') (store', w)"
    and content: "\<And>ns. ns \<noteq> ''job:'' @ uuid_str (j_id job) \<Longrightarrow> fake_content store' ns = fake_content store ns"
    "\<And>i x. fake_content store' (''job:'' @ uuid_str (j_id job)) i = Some x \<Longrightarrow>
      fake_content store (''job:'' @ uuid_str (j_id job)) i = Some x \<or>
      (\<exists>r \<in> set CORPUS. snd x = [(''text'', PStr (sr_snippet r))])"
    by (rule fake_rag_ends [OF assms(1,2)]) blast
  obtain ref w' where "put_bytes (ct_object_store c) (result_key job ''.json'') data ''application/json'' w = (Inr ref, w')"
    using assms(3) by blast
  with run have "rag_run (worker_context to_str c) job (store, w) = (Inr ref, (store', w'))" by (simp add: on_snd_def zoomE_def)
  with content show ?thesis by (intro exI [of _ ref] exI [of _ store'] exI [of _ w']) blast
qed

theorem fake_rag_completes_witness:
  "\<exists>c ref store' w'. create (counting_platform False) default_settings blank = (Inr c, three_held) \<and>
     rag_run (worker_context (\<lambda>v. []) c) (job_new RAG_QUERY [(''query'', PStr ''retry backoff'')] 1 0 0) ([], (3, [])) =
       (Inr ref, (store', w'))"
proof -
  obtain c where c: "create (counting_platform False) default_settings blank = (Inr c, three_held)"
    "ct_providers c = fake_bundle counting_sdks 384"
    "ct_object_store c = \<lparr>so_client = counting_s3 False, so_bucket = os_bucket default_object_store,
       so_retry = default_retry, so_run = loop_runner, so_run_bytes = loop_runner\<rparr>"
    by (rule sample_create_default) blast
  have put: "\<forall>key data t v. \<exists>ref v'. put_bytes (ct_object_store c) key data t v = (Inr ref, v')"
    by (simp only: c counting_put) blast
  have payload: "payload_ok RAG_QUERY (j_payload (job_new RAG_QUERY [(''query'', PStr ''retry backoff'')] 1 0 0))"
    by (simp add: job_new_def str_field_def int_field_def)
  from fake_rag_completes [OF c(2) payload put, where store = "[]" and w = "(3, [])" and to_str = "\<lambda>v. []"]
  obtain ref store' w' where run: "rag_run (worker_context (\<lambda>v. []) c)
      (job_new RAG_QUERY [(''query'', PStr ''retry backoff'')] 1 0 0) ([], (3, [])) = (Inr ref, (store', w'))"
    by (elim exE conjE) (rule that)
  show ?thesis by (intro exI conjI) (rule c(1), rule run)
qed

end
