(* ===== verification/Processes.thy ===== *)
theory Processes
  imports Container WorkerLoop
begin

section \<open>The two processes (\<open>api/dependencies.py\<close>, \<open>api/routes\<close>, \<open>worker/runner.py\<close>)\<close>

text \<open>
  What the API and the worker make of a container: the routes with the dependencies that FastAPI resolves for them, and the
  worker from its signal handlers to its teardown.  Both act on the triple of Redis, database and rest.  The worker's vector
  store, when it is the fake, lives in the process: it is empty when the container is built and gone when the process ends.
\<close>

subsection \<open>The API\<close>

definition get_settings :: "('q, 'd, 'x) container \<Rightarrow> settings" where
  "get_settings c = ct_settings c"

definition get_queue :: "('q, 'd, 'x) container \<Rightarrow> 'q producer" where
  "get_queue c = ct_queue c"

definition get_object_store :: "('q, 'd, 'x) container \<Rightarrow> 'x s3_store" where
  "get_object_store c = ct_object_store c"

definition get_repository :: "('q, 'd, 'x) container \<Rightarrow> 'd repository" where
  "get_repository c = ct_repository c"

definition on_store_and_queue :: "('d \<times> 'q, 'a) io \<Rightarrow> ('q, 'd, 'x, 'a) process_io" where
  "on_store_and_queue m = zoomE (\<lambda>(q, (d, x)). (d, q)) (\<lambda>(d, q) (q0, (d0, x)). (q, (d, x))) m"

definition post_job ::
  "('q, 'd, 'x) platform \<Rightarrow> ('q, 'd, 'x) container \<Rightarrow> string option \<Rightarrow> job_payload \<Rightarrow> uuid \<Rightarrow> int \<Rightarrow> int \<Rightarrow>
   ('q, 'd, 'x, response) process_io" where
  "post_job P c presented payload fresh created_at updated_at =
     on_store_and_queue
       (submit_job (get_settings c) presented payload (get_repository c) (publish (get_queue c)) (pf_run_publish P)
          fresh created_at updated_at)"

definition get_job_status ::
  "('q, 'd, 'x) container \<Rightarrow> string option \<Rightarrow> uuid \<Rightarrow> ('q, 'd, 'x, response) process_io" where
  "get_job_status c presented i = on_snd (on_fst (get_job (get_settings c) presented (get_repository c) i))"

definition get_ready ::
  "('q, 'd, 'x) platform \<Rightarrow> ('q, 'd, 'x) container \<Rightarrow>
   ('q, 'd, 'x, int \<times> readiness_status) process_io" where
  "get_ready P c =
     readiness (on_snd (on_fst (pf_select_1 P (ct_engine c)))) (on_fst (pf_ping P (ct_redis c)))
       (on_rest (bucket_exists (ct_object_store c)))"

text \<open>
  \<open>create_app\<close>: the lifespan with the settings given, else those that the environment gives (\<open>env\<close>), which an injected
  container makes irrelevant.
\<close>

definition create_app ::
  "('q, 'd, 'x) platform \<Rightarrow> settings \<Rightarrow> settings option \<Rightarrow> ('q, 'd, 'x) container option \<Rightarrow>
   (('q, 'd, 'x) container \<Rightarrow> ('q, 'd, 'x, 'a) process_io) \<Rightarrow> ('q, 'd, 'x, 'a) process_io" where
  "create_app P env settings container body =
     lifespan P (case settings of None \<Rightarrow> env | Some s \<Rightarrow> s) container body"

subsection \<open>The worker\<close>

text \<open>
  \<open>_install_signal_handlers\<close>: \<open>pf_add_signal_handler\<close> registers \<open>stop.set\<close> with the loop, \<open>pf_signal\<close> the handler that
  marshals it into the loop.
\<close>

definition install_signal_handlers :: "('q, 'd, 'x) platform \<Rightarrow> ('q, 'd, 'x, unit) process_io" where
  "install_signal_handlers P =
     tryE (forE [''SIGINT'', ''SIGTERM''] (pf_add_signal_handler P))
       (\<lambda>exc. if isinstance exc [''NotImplementedError''] then forE [''SIGINT'', ''SIGTERM''] (pf_signal P) else raiseE exc)"

definition in_process :: "('x \<Rightarrow> 'a \<times> 'x) \<Rightarrow> fake_store \<times> 'x \<Rightarrow> 'a \<times> (fake_store \<times> 'x)" where
  "in_process f w = (fst (f (snd w)), (fst w, snd (f (snd w))))"

definition worker_externals :: "('q, 'd, 'x) platform \<Rightarrow> ('q, 'd, 'x) container \<Rightarrow> (fake_store \<times> 'x) externals" where
  "worker_externals P c =
     pipeline_externals (in_process (pf_utcnow P)) (in_process (pf_monotonic P)) (worker_context (pf_str P) c)"

definition worker_consumer ::
  "('q, 'd, 'x) platform \<Rightarrow> settings \<Rightarrow> ('q, 'd, 'x) container \<Rightarrow> string \<Rightarrow> ('q, 'd, fake_store \<times> 'x) consumer" where
  "worker_consumer P s c name =
     consumer_init (pf_redis_api P (ct_redis c)) (keys_from_settings (st_broker s)) (st_broker s) (ct_repository c)
       (processor_call (ct_repository c) (worker_externals P c)) (ct_queue c) (in_process (pf_utcnow P)) name"

definition enter :: "'q \<times> 'd \<times> 'x \<Rightarrow> 'q \<times> 'd \<times> fake_store \<times> 'x" where
  "enter w = (fst w, (fst (snd w), ([], snd (snd w))))"

definition leave :: "'q \<times> 'd \<times> fake_store \<times> 'x \<Rightarrow> 'q \<times> 'd \<times> 'x" where
  "leave w = (fst w, (fst (snd w), snd (snd (snd w))))"

text \<open>
  \<open>run_worker\<close> on a container, with the stop event \<open>stop\<close>, the interleavings \<open>sw\<close> and the fuel \<open>n\<close> of \<open>WorkerLoop\<close>; then \<open>main\<close>
  around it.
\<close>

definition serve ::
  "('q, 'd, 'x) platform \<Rightarrow> settings \<Rightarrow> ('q, 'd, 'x) container \<Rightarrow> string \<Rightarrow> ('x \<Rightarrow> bool) \<Rightarrow>
   (('q, 'd, fake_store \<times> 'x) cstate \<Rightarrow> ('q, 'd, fake_store \<times> 'x) cstate) \<Rightarrow> nat \<Rightarrow> (exn, 'q \<times> 'd \<times> 'x, unit) run" where
  "serve P s c name stop sw n w =
     map_option (\<lambda>(r, st). (r, leave (cs_world st)))
       (run_worker (worker_consumer P s c name) (\<lambda>x. stop (snd x)) sw n (consumer_start_state (enter w)))"

definition worker_main ::
  "('q, 'd, 'x) platform \<Rightarrow> settings \<Rightarrow> string \<Rightarrow> ('x \<Rightarrow> bool) \<Rightarrow>
   (('q, 'd, fake_store \<times> 'x) cstate \<Rightarrow> ('q, 'd, fake_store \<times> 'x) cstate) \<Rightarrow> nat \<Rightarrow> (exn, 'q \<times> 'd \<times> 'x, unit) run" where
  "worker_main P s name stop sw n =
     run_after (install_signal_handlers P) (\<lambda>u.
     run_after (create P s) (\<lambda>container.
     run_finally (serve P s container name stop sw n) (\<lambda>w. snd (aclose P container w))))"

text \<open>The worker of a container reaches its loop, and some pass of it leaves it saturated before the signal.\<close>

definition worker_stuck ::
  "('q, 'd, 'x) platform \<Rightarrow> settings \<Rightarrow> ('q, 'd, 'x) container \<Rightarrow> string \<Rightarrow> ('x \<Rightarrow> bool) \<Rightarrow>
   (('q, 'd, fake_store \<times> 'x) cstate \<Rightarrow> ('q, 'd, fake_store \<times> 'x) cstate) \<Rightarrow> 'q \<times> 'd \<times> 'x \<Rightarrow> bool" where
  "worker_stuck P s c name stop sw w \<longleftrightarrow>
     (let k = worker_consumer P s c name
      in case consumer_start k (consumer_start_state (enter w)) of
           (Inl e, st) \<Rightarrow> False
         | (Inr u, st) \<Rightarrow> gets_stuck k (\<lambda>x. stop (snd x)) sw st)"

subsection \<open>Lemmas\<close>

text \<open>What \<open>create\<close> wires together, and that the worker's consumer is the one of the other theories.\<close>

lemma created_wiring:
  assumes "create P s w = (Inr c, w')"
  shows "ct_settings c = s" "ct_repository c = sql_repository (pf_sessions P (ct_engine c) False)"
    "ct_queue c = producer_init (pf_redis_api P (ct_redis c)) (keys_from_settings (st_broker s)) (st_broker s)"
    "so_bucket (ct_object_store c) = os_bucket (st_object_store s)" "so_retry (ct_object_store c) = st_retry s"
    "so_run (ct_object_store c) = pf_run P"
  using assms unfolding create_def Let_def build_session_factory_def
  by (auto elim!: bind_InrE simp: ret_def)

lemma created_providers:
  fixes P :: "('q, 'd, 'x) platform"
  assumes "create P s w = (Inr c, w')"
  obtains x y where "build_providers (pf_sdks P) s x = (Inr (ct_providers c), y)"
proof -
  have "\<exists>v v'. on_rest (build_providers (pf_sdks P) s) (v :: 'q \<times> 'd \<times> 'x) = (Inr (ct_providers c), v')"
    using assms unfolding create_def Let_def
  proof (elim bind_InrE, goal_cases)
    case (1 executor w1 u w2 engine w3 redis w4 client w5 u' w6 providers w7)
    from 1(8) have "ct_providers c = providers" by (auto simp: ret_def)
    then show ?case by (simp only:) (rule exI, rule exI, rule 1(7))
  qed
  with that show thesis by (auto simp: on_rest_def on_snd_def zoomE_def split: prod.splits)
qed

lemma worker_consumer_built:
  assumes "create P s w = (Inr c, w')"
  shows "worker_consumer P s c name =
    build_consumer (pf_redis_api P (ct_redis c)) (pf_sessions P (ct_engine c) False) (st_broker s) (worker_externals P c) name"
  by (simp add: worker_consumer_def build_consumer_def created_wiring [OF assms] worker_externals_def pipeline_externals_def)

lemma no_secrets_fakes:
  assumes "create P s w = (Inr c, w')"
    and "st_huggingface_token s = None" and "st_pinecone_api_key s = None" and "\<not> ps_enable_web_search (st_providers s)"
  shows "ct_providers c = fake_bundle (pf_sdks P) (ps_embedding_dim (st_providers s))"
  by (rule created_providers [OF assms(1)])
    (use assms(2-4) in \<open>simp add: build_providers_def fake_bundle_def bindE_def ret_def Let_def\<close>)

lemma put_bytes_returns:
  assumes "tenacity_laws (so_run st)" and "\<And>v. \<exists>v'. put_object (so_client st) (so_bucket st) k data t v = (Inr (), v')"
  shows "\<exists>v'. put_bytes st k data t v = (Inr (''s3://'' @ so_bucket st @ ''/'' @ k), v')"
proof -
  obtain v' where "put_object (so_client st) (so_bucket st) k data t v = (Inr (), v')" using assms(2) by blast
  then have "tryE (thread_offloader_run (put_object (so_client st) (so_bucket st) k data t)) h v = (Inr (), v')" for h
    by (simp add: thread_offloader.off_id tryE_def)
  with tenacity_success [OF assms(1)] show ?thesis
    by (simp add: put_bytes_def s3_call_def adapter_call_def bindE_def ret_def)
qed

lemma keeps_signal_handlers:
  assumes "resource_platform P held"
  shows "keeps (\<lambda>w. held w = H) (install_signal_handlers P)"
proof -
  have "keeps (\<lambda>w. held w = H) (forE xs f)" if "\<And>x. keeps (\<lambda>w. held w = H) (f x)" for xs and f :: "string \<Rightarrow> ('a \<times> 'b \<times> 'c, unit) io"
    by (induction xs) (auto intro!: keeps_bind that)
  note loops = this [OF resource_platform.loop_signal_keeps [OF assms]] this [OF resource_platform.signal_keeps [OF assms]]
  show ?thesis
    unfolding install_signal_handlers_def by (intro keeps_try loops) (simp only: loops keeps_raise split: if_split, simp)
qed

abbreviation signal_near ::
  "('x \<Rightarrow> bool) \<Rightarrow> ('x \<Rightarrow> nat) \<Rightarrow> (('q, 'd, fake_store \<times> 'x) cstate \<Rightarrow> ('q, 'd, fake_store \<times> 'x) cstate) \<Rightarrow> bool" where
  "signal_near stop ticks sw \<equiv> signal_due (\<lambda>x. stop (snd x)) (\<lambda>x. ticks (snd x)) sw"

lemma start_state:
  assumes "ensure_group (co_redis k) (co_keys k) (fst w) = (r, q)"
  shows "consumer_start k (consumer_start_state (enter w)) = (r, consumer_start_state (q, snd (enter w)))"
  using assms
  by (simp add: consumer_start_def on_redis_def on_world_def on_fst_def zoomE_def consumer_start_state_def enter_def)

lemma start_world: "cs_world (consumer_start_state w) = w"
  by (simp add: consumer_start_state_def)

lemma serve_end:
  assumes "signal_near stop ticks sw"
  shows "(\<exists>w'. \<forall>n > ticks (snd (snd w)). serve P s c name stop sw n w =
      Some (fst (ensure_group (co_redis (worker_consumer P s c name)) (co_keys (worker_consumer P s c name)) (fst w)), w')) \<or>
    worker_stuck P s c name stop sw w \<and> (\<forall>n. serve P s c name stop sw n w = None)"
proof -
  let ?k = "worker_consumer P s c name"
  obtain r q where g: "ensure_group (co_redis ?k) (co_keys ?k) (fst w) = (r, q)"
    by (cases "ensure_group (co_redis ?k) (co_keys ?k) (fst w)")
  note start = start_state [OF g]
  let ?st = "consumer_start_state (q, snd (enter w))"
  show ?thesis
  proof (cases r)
    case (Inl e)
    then show ?thesis
      by (intro disjI1 exI [of _ "leave (q, snd (enter w))"])
        (simp add: g start serve_def run_worker_def run_after_def start_world)
  next
    case (Inr u)
    have run: "run_worker ?k (\<lambda>x. stop (snd x)) sw n (consumer_start_state (enter w)) =
        run_consumer ?k (\<lambda>x. stop (snd x)) sw n ?st" for n
      by (simp add: run_worker_def run_after_def start Inr)
    have ticks: "ticks (snd (snd (snd (cs_world ?st)))) = ticks (snd (snd w))"
      by (simp add: start_world enter_def)
    from run_consumer_end [OF assms, of ?st ?k] show ?thesis
      unfolding ticks
    proof (elim disjE exE conjE)
      fix s' assume "\<forall>n > ticks (snd (snd w)). run_consumer ?k (\<lambda>x. stop (snd x)) sw n ?st = Some (Inr (), s')"
      then show ?thesis
        by (intro disjI1 exI [of _ "leave (cs_world s')"]) (simp add: serve_def run g Inr)
    next
      assume "gets_stuck ?k (\<lambda>x. stop (snd x)) sw ?st" "\<forall>n. run_consumer ?k (\<lambda>x. stop (snd x)) sw n ?st = None"
      then show ?thesis by (simp add: worker_stuck_def serve_def run start Inr)
    qed
  qed
qed

text \<open>A worker on the counting platform, whose stop event is set before its first pass.\<close>

lemma sample_signals: "install_signal_handlers (counting_platform False) blank = (Inr (), blank)"
  by (simp add: install_signal_handlers_def counting_simps eff_defs)

lemma sample_group: "fst (ensure_group mem_client (keys_from_settings default_broker) mem_start) = Inr ()"
  by (simp add: ensure_group_def mem_client_def mem_command_def mem_xgroup_create_def mem_start_def tryE_def)

lemma sample_serve:
  assumes "create (counting_platform False) s blank = (Inr c, three_held)" and "st_broker s = default_broker"
  shows "\<exists>w'. serve (counting_platform False) s c name (\<lambda>x. True) (\<lambda>s. s) n three_held = Some (Inr (), w') \<and>
    handles w' = handles three_held"
  using sample_group
  by (cases "ensure_group mem_client (keys_from_settings default_broker) mem_start")
    (simp add: serve_def run_worker_def run_after_def consumer_start_def on_redis_def on_world_def on_fst_def zoomE_def
      consumer_start_state_def enter_def leave_def run_consumer_def run_finally_def drain_def passes_stopped stopped_def
      worker_consumer_built [OF assms(1)] counting_simps assms(2) three_held_def)

lemma sample_near: "signal_near (\<lambda>x. True) (\<lambda>x. 0) sw"
  by (simp add: signal_due_def stopped_def)

lemma sample_closing:
  "\<forall>h v. fst (pf_shutdown (counting_platform False) h False True v) = Inr () \<and>
     fst (pf_redis_aclose (counting_platform False) h v) = Inr () \<and> fst (pf_dispose (counting_platform False) h v) = Inr ()"
  by (simp add: counting_simps release_def on_rest_def on_snd_def zoomE_def)

subsection \<open>Properties\<close>

text \<open>
  How the worker's \<open>main\<close> ends.  When its start-up and the closing calls return, nothing else keeps a handle and a stop signal
  is on its way, then, whatever the passes raise and however its tasks interleave, it returns normally, unless the
  consumer group could not be ensured, whose exception it then passes on, and in both cases it has given back what it
  took; or its loop gets stuck, and it never ends.
\<close>

theorem worker_main_ends:
  assumes "resource_platform P held" and "retry_settings_ok (st_retry s)"
    and "install_signal_handlers P w = (Inr (), w0)" and "create P s w0 = (Inr c, w1)"
    and "\<forall>n r w2. serve P s c name stop sw n w1 = Some (r, w2) \<longrightarrow> held w2 = held w1"
    and "\<forall>h v. fst (pf_shutdown P h False True v) = Inr () \<and> fst (pf_redis_aclose P h v) = Inr () \<and>
      fst (pf_dispose P h v) = Inr ()"
    and "signal_near stop ticks sw"
  shows "(\<exists>w'. held w' \<subseteq> held w \<and> (\<forall>n > ticks (snd (snd w1)). worker_main P s name stop sw n w =
      Some (fst (ensure_group (pf_redis_api P (ct_redis c)) (keys_from_settings (st_broker s)) (fst w1)), w'))) \<or>
    worker_stuck P s c name stop sw w1 \<and> (\<forall>n. worker_main P s name stop sw n w = None)"
proof -
  have start: "held w0 = held w" by (rule resource_platform.keeps_held [OF assms(1) keeps_signal_handlers [OF assms(1)] assms(3)])
  have main: "worker_main P s name stop sw n w =
      map_option (\<lambda>(r, w2). (r, snd (aclose P c w2))) (serve P s c name stop sw n w1)" for n
    using assms(3,4) by (simp add: worker_main_def run_after_def run_finally_def)
  from serve_end [OF assms(7), of w1 P s c name] show ?thesis
  proof (elim disjE exE conjE)
    fix w2
    assume ends: "\<forall>n > ticks (snd (snd w1)). serve P s c name stop sw n w1 =
      Some (fst (ensure_group (co_redis (worker_consumer P s c name)) (co_keys (worker_consumer P s c name)) (fst w1)), w2)"
    with assms(5) have "held w2 = held w1" by blast
    from resource_platform.aclose_returns [OF assms(1,2,4) this assms(6)] start ends show ?thesis
      by (intro disjI1 exI [of _ "snd (aclose P c w2)"]) (simp add: main worker_consumer_built [OF assms(4)])
  qed (simp add: main)
qed

theorem worker_main_ends_witness:
  "\<exists>w'. worker_main (counting_platform False) default_settings ''w'' (\<lambda>x. True) (\<lambda>s. s) 1 blank = Some (Inr (), w') \<and>
     handles w' = {}"
proof -
  obtain c where c: "create (counting_platform False) default_settings blank = (Inr c, three_held)"
    by (rule sample_create_default) blast
  have ok: "retry_settings_ok (st_retry default_settings)" by (simp add: default_settings_simps)
  note serve = sample_serve [OF c default_settings_simps(4), of "''w''"]
  then have kept: "\<forall>n r w2. serve (counting_platform False) default_settings c ''w'' (\<lambda>x. True) (\<lambda>s. s) n three_held = Some (r, w2) \<longrightarrow>
      handles w2 = handles three_held" by (metis option.inject prod.inject)
  have "worker_main (counting_platform False) default_settings ''w'' (\<lambda>x. True) (\<lambda>s. s) n blank \<noteq> None" for n
    using serve [of n] c sample_signals by (auto simp: worker_main_def run_after_def run_finally_def)
  with worker_main_ends [OF counting.resource_platform_axioms ok sample_signals c kept sample_closing sample_near] sample_group
  show ?thesis by (auto simp: counting_simps default_settings_simps three_held_def blank_def)
qed

end
