(* ===== verification/IniConfig.thy ===== *)
theory IniConfig
  imports Exceptions
begin

section \<open>Alembic's \<open>Config\<close>: a \<open>configparser.ConfigParser\<close> (\<open>alembic.ini\<close>)\<close>

text \<open>
  \<open>migrations/env.py\<close> passes the database URL to SQLAlchemy through the Alembic configuration
  object, which is a \<open>ConfigParser\<close> of the standard library with its basic interpolation: a value may
  refer to another option as \<open>%(name)s\<close>, a per cent sign is written twice, and both writing and
  reading a value obey this.  \<open>before_set\<close> is the check on writing, \<open>interpolate\<close> the substitution
  on reading (to a depth of ten references, after which the parser gives up).  The file itself is
  \<open>alembic_ini\<close>, of which only the section \<open>[alembic]\<close> matters here.

  The lemmas: a value without a per cent sign is stored and read back as it is, and a value with a single
  one is refused on writing.
\<close>

subsection \<open>Interpolation\<close>

text \<open>\<open>value.replace('%%', '')\<close>\<close>

fun drop_escapes :: "string \<Rightarrow> string" where
  "drop_escapes (c # d # cs) =
     (if c = CHR ''%'' \<and> d = CHR ''%'' then drop_escapes cs else c # drop_escapes (d # cs))"
| "drop_escapes cs = cs"

text \<open>A match of \<open>%\(([^)]+)\)s\<close> at the head of the text: the name, and what follows.\<close>

definition match_key :: "string \<Rightarrow> (string \<times> string) option" where
  "match_key s =
     (case s of
        c # d # cs \<Rightarrow>
          (let name = takeWhile (\<lambda>x. x \<noteq> CHR '')'') cs;
               rest = dropWhile (\<lambda>x. x \<noteq> CHR '')'') cs
           in if c = CHR ''%'' \<and> d = CHR ''('' \<and> name \<noteq> [] \<and> take 2 rest = '')s''
              then Some (name, drop 2 rest) else None)
      | _ \<Rightarrow> None)"

lemma match_key_shorter: "match_key s = Some (name, rest) \<Longrightarrow> length rest < length s"
proof -
  assume m: "match_key s = Some (name, rest)"
  then obtain c d cs where s: "s = c # d # cs"
    by (cases s; cases "tl s") (auto simp: match_key_def)
  with m have "rest = drop 2 (dropWhile (\<lambda>x. x \<noteq> CHR '')'') cs)"
    by (auto simp: match_key_def Let_def split: if_splits)
  moreover have "length (dropWhile (\<lambda>x. x \<noteq> CHR '')'') cs) \<le> length cs" by (rule length_dropWhile_le)
  ultimately show ?thesis by (simp add: s)
qed

text \<open>\<open>_KEYCRE.sub('', value)\<close>\<close>

function drop_keys :: "string \<Rightarrow> string" where
  "drop_keys s =
     (case match_key s of
        Some (name, rest) \<Rightarrow> drop_keys rest
      | None \<Rightarrow> (case s of [] \<Rightarrow> [] | c # cs \<Rightarrow> c # drop_keys cs))"
  by pat_completeness auto
termination
  by (relation "measure length") (auto dest: match_key_shorter)

declare drop_keys.simps [simp del]

definition find_percent :: "string \<Rightarrow> nat" where
  "find_percent s = length (takeWhile (\<lambda>c. c \<noteq> CHR ''%'') s)"

definition before_set :: "string \<Rightarrow> exn + string" where
  "before_set v =
     (let tmp = drop_keys (drop_escapes v)
      in if CHR ''%'' \<in> set tmp
         then Inl (ValueError (''invalid interpolation syntax in '' @ py_repr_str v @
                               '' at position '' @ py_str_int (int (find_percent tmp))))
         else Inr v)"

definition interpolation_error :: "string \<Rightarrow> string \<Rightarrow> exn" where
  "interpolation_error name msg =
     SdkError \<lparr>sdk_mro = [''configparser.'' @ name, ''configparser.InterpolationError'', ''configparser.Error''],
               sdk_name = name, sdk_text = msg, sdk_repr = name @ ''('' @ py_repr_str msg @ '')'',
               sdk_status = None, sdk_response_status = None,
               sdk_client_response = \<lparr>cr_code = None, cr_message = None, cr_status = None\<rparr>\<rparr>"

text \<open>\<open>_interpolate_some\<close>; \<open>depth\<close> counts the references that may still be followed.\<close>

function interpolate :: "nat \<Rightarrow> (string \<rightharpoonup> string) \<Rightarrow> string \<Rightarrow> exn + string" where
  "interpolate depth vars s =
     (if depth = 0 then Inl (interpolation_error ''InterpolationDepthError'' s)
      else case s of
        [] \<Rightarrow> Inr []
      | c # cs \<Rightarrow>
          if c \<noteq> CHR ''%'' then map_sum id ((#) c) (interpolate depth vars cs)
          else if take 1 cs = ''%'' then map_sum id ((#) (CHR ''%'')) (interpolate depth vars (drop 1 cs))
          else if take 1 cs = ''('' then
            (case match_key s of
               None \<Rightarrow> Inl (interpolation_error ''InterpolationSyntaxError'' s)
             | Some (name, rest) \<Rightarrow>
                 (case vars (py_lower name) of
                    None \<Rightarrow> Inl (interpolation_error ''InterpolationMissingOptionError'' (py_lower name))
                  | Some v \<Rightarrow>
                      (case (if CHR ''%'' \<in> set v then interpolate (depth - 1) vars v else Inr v) of
                         Inl e \<Rightarrow> Inl e
                       | Inr x \<Rightarrow> map_sum id ((@) x) (interpolate depth vars rest))))
          else Inl (interpolation_error ''InterpolationSyntaxError'' s))"
  by pat_completeness auto
termination
  by (relation "measures [\<lambda>(depth, vars, s). depth, \<lambda>(depth, vars, s). length s]")
    (auto dest: match_key_shorter)

declare interpolate.simps [simp del]

definition max_interpolation_depth :: nat where
  "max_interpolation_depth = 10"

subsection \<open>The configuration object\<close>

record ini_config =
  cf_file_name :: "string option"
  cf_ini_section :: string
  cf_defaults :: "(string \<times> string) list"
  cf_sections :: "(string \<times> (string \<times> string) list) list"

definition section_options :: "ini_config \<Rightarrow> string \<Rightarrow> (string \<times> string) list" where
  "section_options cf sec = (case map_of (cf_sections cf) sec of None \<Rightarrow> [] | Some opts \<Rightarrow> opts)"

text \<open>\<open>set_main_option\<close>: the section is made if it is missing, the value is checked and stored raw.\<close>

definition set_main_option :: "ini_config \<Rightarrow> string \<Rightarrow> string \<Rightarrow> exn + ini_config" where
  "set_main_option cf name v =
     (case before_set v of
        Inl e \<Rightarrow> Inl e
      | Inr v \<Rightarrow>
          Inr (cf\<lparr>cf_sections :=
                 (cf_ini_section cf,
                  (py_lower name, v) # filter (\<lambda>(n, _). n \<noteq> py_lower name)
                    (section_options cf (cf_ini_section cf)))
                 # filter (\<lambda>(n, _). n \<noteq> cf_ini_section cf) (cf_sections cf)\<rparr>))"

definition section_vars :: "ini_config \<Rightarrow> string \<Rightarrow> string \<rightharpoonup> string" where
  "section_vars cf sec = map_of (section_options cf sec @ cf_defaults cf)"

text \<open>\<open>get_main_option(name)\<close>: \<open>None\<close> if the option is missing.\<close>

definition get_main_option :: "ini_config \<Rightarrow> string \<Rightarrow> exn + string option" where
  "get_main_option cf name =
     (case section_vars cf (cf_ini_section cf) (py_lower name) of
        None \<Rightarrow> Inr None
      | Some v \<Rightarrow> map_sum id Some (interpolate max_interpolation_depth (section_vars cf (cf_ini_section cf)) v))"

primrec interpolate_all :: "(string \<rightharpoonup> string) \<Rightarrow> (string \<times> string) list \<Rightarrow> exn + (string \<times> string) list" where
  "interpolate_all vars [] = Inr []"
| "interpolate_all vars (opt # opts) =
     (case interpolate max_interpolation_depth vars (snd opt) of
        Inl e \<Rightarrow> Inl e
      | Inr v \<Rightarrow> map_sum id ((#) (fst opt, v)) (interpolate_all vars opts))"

text \<open>\<open>get_section(name, default)\<close>: the interpolated options, the defaults included.\<close>

definition get_section :: "ini_config \<Rightarrow> string \<Rightarrow> (string \<times> string) list \<Rightarrow> exn + (string \<times> string) list" where
  "get_section cf sec dflt =
     (case map_of (cf_sections cf) sec of
        None \<Rightarrow> Inr dflt
      | Some opts \<Rightarrow>
          interpolate_all (section_vars cf sec)
            (opts @ filter (\<lambda>(n, _). n \<notin> fst ` set opts) (cf_defaults cf)))"

text \<open>The section \<open>[alembic]\<close> of \<open>alembic.ini\<close>; Alembic adds the default \<open>here\<close>, the file's directory.\<close>

definition alembic_ini :: "string \<Rightarrow> ini_config" where
  "alembic_ini dir =
     \<lparr>cf_file_name = Some (dir @ ''/alembic.ini''), cf_ini_section = ''alembic'',
      cf_defaults = [(''here'', dir)],
      cf_sections =
        [(''alembic'',
          [(''script_location'', ''migrations''), (''prepend_sys_path'', ''.''),
           (''version_path_separator'', ''os''), (''file_template'', ''%%(rev)s_%%(slug)s''),
           (''sqlalchemy.url'', '''')])]\<rparr>"

subsection \<open>Lemmas\<close>

lemma drop_escapes_plain [simp]: "CHR ''%'' \<notin> set s \<Longrightarrow> drop_escapes s = s"
  by (induction s rule: drop_escapes.induct) auto

lemma match_key_None: "c \<noteq> CHR ''%'' \<or> take 1 cs \<noteq> ''('' \<Longrightarrow> match_key (c # cs) = None"
  by (auto simp: match_key_def Let_def split: list.splits)

lemma drop_keys_Cons: "match_key (c # cs) = None \<Longrightarrow> drop_keys (c # cs) = c # drop_keys cs"
  by (subst drop_keys.simps) simp

lemma drop_keys_plain [simp]: "CHR ''%'' \<notin> set s \<Longrightarrow> drop_keys s = s"
proof (induction s)
  case Nil
  show ?case by (subst drop_keys.simps) (simp add: match_key_def)
next
  case (Cons c s)
  then have "match_key (c # s) = None" by (auto intro!: match_key_None)
  with Cons show ?case by (simp add: drop_keys_Cons)
qed

lemma before_set_plain [simp]: "CHR ''%'' \<notin> set v \<Longrightarrow> before_set v = Inr v"
  by (simp add: before_set_def)

lemma interpolate_plain [simp]:
  "CHR ''%'' \<notin> set v \<Longrightarrow> 0 < depth \<Longrightarrow> interpolate depth vars v = Inr v"
proof (induction v)
  case Nil
  then show ?case by (subst interpolate.simps) simp
next
  case (Cons c v)
  then show ?case by (subst interpolate.simps) auto
qed

lemma interpolate_max [simp]:
  "CHR ''%'' \<notin> set v \<Longrightarrow> interpolate max_interpolation_depth vars v = Inr v"
  by (simp add: max_interpolation_depth_def)

text \<open>A per cent sign that neither is doubled nor starts a reference.\<close>

lemma drop_escapes_single:
  assumes "CHR ''%'' \<notin> set a" and "x \<noteq> CHR ''%''" and "CHR ''%'' \<notin> set b"
  shows "drop_escapes (a @ CHR ''%'' # x # b) = a @ CHR ''%'' # x # b"
  using assms
proof (induction a)
  case (Cons c a)
  then show ?case by (cases a) auto
qed auto

lemma drop_keys_single:
  assumes "CHR ''%'' \<notin> set a" and "x \<noteq> CHR ''(''"
  shows "CHR ''%'' \<in> set (drop_keys (a @ CHR ''%'' # x # b))"
  using assms
proof (induction a)
  case Nil
  then have "match_key (CHR ''%'' # x # b) = None" by (auto intro!: match_key_None)
  then show ?case by (simp add: drop_keys_Cons)
next
  case (Cons c a)
  then have "match_key ((c # a) @ CHR ''%'' # x # b) = None"
    by (auto intro!: match_key_None)
  with Cons show ?case by (simp add: drop_keys_Cons)
qed

lemma before_set_percent:
  assumes "CHR ''%'' \<notin> set a" "CHR ''%'' \<notin> set b" "x \<noteq> CHR ''%''" "x \<noteq> CHR ''(''"
  obtains m where "before_set (a @ CHR ''%'' # x # b) = Inl (ValueError m)"
  using assms drop_escapes_single [of a x b] drop_keys_single [of a x b]
  by (simp add: before_set_def Let_def)

lemma set_main_option_Inr:
  assumes "set_main_option cf name v = Inr cf'"
  shows "cf' = cf\<lparr>cf_sections :=
      (cf_ini_section cf,
       (py_lower name, v) # filter (\<lambda>(n, _). n \<noteq> py_lower name)
         (section_options cf (cf_ini_section cf)))
      # filter (\<lambda>(n, _). n \<noteq> cf_ini_section cf) (cf_sections cf)\<rparr>"
proof -
  from assms obtain u where "before_set v = Inr u" by (auto simp: set_main_option_def split: sum.splits)
  then have "before_set v = Inr v" by (auto simp: before_set_def Let_def split: if_splits)
  with assms show ?thesis by (simp add: set_main_option_def)
qed

lemma section_options_set:
  "set_main_option cf name v = Inr cf' \<Longrightarrow>
     section_options cf' (cf_ini_section cf) =
       (py_lower name, v) # filter (\<lambda>(n, _). n \<noteq> py_lower name) (section_options cf (cf_ini_section cf))"
  by (drule set_main_option_Inr) (simp add: section_options_def)

lemma set_main_option_frame:
  "set_main_option cf name v = Inr cf' \<Longrightarrow>
     cf_file_name cf' = cf_file_name cf \<and> cf_ini_section cf' = cf_ini_section cf \<and>
     cf_defaults cf' = cf_defaults cf \<and> map_of (cf_sections cf') (cf_ini_section cf) \<noteq> None"
  by (drule set_main_option_Inr) simp

text \<open>What is written without a per cent sign is read back.\<close>

lemma get_set_main_option:
  assumes "CHR ''%'' \<notin> set v"
  obtains cf' where "set_main_option cf name v = Inr cf'" and "get_main_option cf' name = Inr (Some v)"
proof -
  obtain cf' where set: "set_main_option cf name v = Inr cf'"
    using assms by (simp add: set_main_option_def)
  then have "get_main_option cf' name = Inr (Some v)"
    using assms section_options_set [OF set] set_main_option_frame [OF set]
    by (simp add: get_main_option_def section_vars_def)
  with set show thesis by (rule that)
qed

lemma interpolate_all_keys:
  "interpolate_all vars opts = Inr out \<Longrightarrow>
     map fst out = map fst opts \<and>
     (\<forall>n v. (n, v) \<in> set opts \<longrightarrow> CHR ''%'' \<notin> set v \<longrightarrow> (n, v) \<in> set out)"
proof (induction opts arbitrary: out)
  case (Cons opt opts)
  then obtain v out' where v: "interpolate max_interpolation_depth vars (snd opt) = Inr v"
    and out': "interpolate_all vars opts = Inr out'" "out = (fst opt, v) # out'"
    by (cases "interpolate_all vars opts") (auto split: sum.splits)
  have "v = snd opt" if "CHR ''%'' \<notin> set (snd opt)"
    using v that by simp
  with Cons.IH [OF out'(1)] out'(2) show ?case by (cases opt) auto
qed simp

text \<open>The file of the repository, with a URL written into it.\<close>

lemma interpolate_template:
  "interpolate max_interpolation_depth vars ''%%(rev)s_%%(slug)s'' = Inr ''%(rev)s_%(slug)s''"
  unfolding max_interpolation_depth_def by (simp add: interpolate.simps)

lemma url_option: "py_lower ''sqlalchemy.url'' = ''sqlalchemy.url''"
  by code_simp

lemma configured_ini:
  assumes "CHR ''%'' \<notin> set url" and "CHR ''%'' \<notin> set dir"
  obtains config opts where
    "set_main_option (alembic_ini dir) ''sqlalchemy.url'' url = Inr config"
    "cf_ini_section config = ''alembic''" "cf_file_name config = Some (dir @ ''/alembic.ini'')"
    "get_section config ''alembic'' [] = Inr opts" "map_of opts ''sqlalchemy.url'' = Some url"
    "get_main_option config ''sqlalchemy.url'' = Inr (Some url)"
proof -
  from get_set_main_option [OF assms(1)] obtain config where
    set: "set_main_option (alembic_ini dir) ''sqlalchemy.url'' url = Inr config" and
    get: "get_main_option config ''sqlalchemy.url'' = Inr (Some url)" by blast
  note cf = set_main_option_Inr [OF set]
  have "get_section config ''alembic'' [] =
     Inr [(''sqlalchemy.url'', url), (''script_location'', ''migrations''), (''prepend_sys_path'', ''.''),
          (''version_path_separator'', ''os''), (''file_template'', ''%(rev)s_%(slug)s''), (''here'', dir)]"
    using assms
    by (simp add: get_section_def cf alembic_ini_def section_options_def url_option interpolate_template)
  moreover have "map_of [(''sqlalchemy.url'', url), (''script_location'', ''migrations''), (''prepend_sys_path'', ''.''),
      (''version_path_separator'', ''os''), (''file_template'', ''%(rev)s_%(slug)s''), (''here'', dir)] ''sqlalchemy.url'' =
      Some url" by simp
  moreover have "cf_ini_section config = ''alembic''" "cf_file_name config = Some (dir @ ''/alembic.ini'')"
    by (simp_all add: cf alembic_ini_def)
  ultimately show thesis using set get by (intro that)
qed

end
