(* ===== verification/Migration.thy ===== *)
theory Migration
  imports Schema IniConfig Settings
begin

section \<open>The migrations (\<open>migrations/versions/0001_create_jobs_table.py\<close>, \<open>migrations/env.py\<close>)\<close>

text \<open>
  \<open>upgrade\<close> and \<open>downgrade\<close> are the two functions of the revision, over the four operations of
  \<open>alembic.op\<close> that they call (the record \<open>ddl\<close>, a parameter).  \<open>do_run_migrations\<close>,
  \<open>run_async_migrations\<close>, \<open>run_migrations_offline\<close>, \<open>run_migrations_online\<close> and
  \<open>env_main\<close> are \<open>env.py\<close>, over the functions of \<open>alembic.context\<close> and of SQLAlchemy's
  asynchronous engine (the records \<open>alembic_context\<close> and \<open>async_engine_api\<close>).

  The locale \<open>alembic_op\<close> states what PostgreSQL promises of the four statements: a statement that
  fails changes nothing, a table or index is created under a fresh name only, dropping a table drops its
  indexes.  \<open>alembic_runner\<close> adds the context: \<open>begin_transaction\<close> commits or rolls back, and
  \<open>run_migrations\<close> brings a database at no revision to revision 0001 by \<open>upgrade\<close> and leaves one
  that is there already alone.  Both are interpreted on \<open>catalog\<close>, a database catalog with
  PostgreSQL's common name space of tables and indexes and a schedule of operational faults.
\<close>

subsection \<open>The operations of \<open>alembic.op\<close>\<close>

record 'd ddl =
  op_create_table :: "string \<Rightarrow> table_arg list \<Rightarrow> ('d, unit) io"
  op_create_index :: "string \<Rightarrow> string \<Rightarrow> string list \<Rightarrow> ('d, unit) io"
  op_drop_index :: "string \<Rightarrow> string \<Rightarrow> ('d, unit) io"
  op_drop_table :: "string \<Rightarrow> ('d, unit) io"

subsection \<open>Revision 0001\<close>

definition revision :: string where
  "revision = ''0001''"

definition down_revision :: "string option" where
  "down_revision = None"

definition upgrade :: "'d ddl \<Rightarrow> ('d, unit) io" where
  "upgrade op =
     bindE (op_create_table op ''jobs'' create_jobs_args) (\<lambda>_.
     bindE (op_create_index op ''ix_jobs_type'' ''jobs'' [''type'']) (\<lambda>_.
     bindE (op_create_index op ''ix_jobs_status'' ''jobs'' [''status'']) (\<lambda>_.
       op_create_index op ''ix_jobs_status_created_at'' ''jobs'' [''status'', ''created_at''])))"

definition downgrade :: "'d ddl \<Rightarrow> ('d, unit) io" where
  "downgrade op =
     bindE (op_drop_index op ''ix_jobs_status_created_at'' ''jobs'') (\<lambda>_.
     bindE (op_drop_index op ''ix_jobs_status'' ''jobs'') (\<lambda>_.
     bindE (op_drop_index op ''ix_jobs_type'' ''jobs'') (\<lambda>_.
       op_drop_table op ''jobs'')))"

subsection \<open>What the statements promise\<close>

type_synonym index_map = "string \<rightharpoonup> string \<times> string list"

definition drop_indexes_of :: "string \<Rightarrow> index_map \<Rightarrow> index_map" where
  "drop_indexes_of t ixs n =
     (case ixs n of Some (t', cols) \<Rightarrow> if t' = t then None else Some (t', cols) | None \<Rightarrow> None)"

text \<open>Every index is an index of a table that is there.\<close>

definition consistent :: "(string \<rightharpoonup> table) \<Rightarrow> index_map \<Rightarrow> bool" where
  "consistent tabs ixs \<longleftrightarrow> (\<forall>n t cols. ixs n = Some (t, cols) \<longrightarrow> tabs t \<noteq> None)"

lemma consistentD: "consistent tabs ixs \<Longrightarrow> ixs n = Some (t, cols) \<Longrightarrow> tabs t \<noteq> None"
  unfolding consistent_def by blast

locale alembic_op =
  fixes op :: "'d ddl"
    and tables :: "'d \<Rightarrow> string \<rightharpoonup> table"
    and indexes :: "'d \<Rightarrow> index_map"
  assumes create_table_law: "op_create_table op t args d = (r, d') \<Longrightarrow>
      (case r of Inl e \<Rightarrow> tables d' = tables d \<and> indexes d' = indexes d
       | Inr u \<Rightarrow> tables d t = None \<and> tables d' = (tables d)(t \<mapsto> table_of args) \<and> indexes d' = indexes d)"
    and create_index_law: "op_create_index op n t cols d = (r, d') \<Longrightarrow>
      tables d' = tables d \<and>
      (case r of Inl e \<Rightarrow> indexes d' = indexes d
       | Inr u \<Rightarrow> indexes d n = None \<and> indexes d' = (indexes d)(n \<mapsto> (t, cols)))"
    and drop_index_law: "op_drop_index op n t d = (r, d') \<Longrightarrow>
      tables d' = tables d \<and>
      (case r of Inl e \<Rightarrow> indexes d' = indexes d
       | Inr u \<Rightarrow> indexes d n \<noteq> None \<and> indexes d' = (indexes d)(n := None))"
    and drop_table_law: "op_drop_table op t d = (r, d') \<Longrightarrow>
      (case r of Inl e \<Rightarrow> tables d' = tables d \<and> indexes d' = indexes d
       | Inr u \<Rightarrow> tables d t \<noteq> None \<and> tables d' = (tables d)(t := None) \<and>
           indexes d' = drop_indexes_of t (indexes d))"
begin

lemma upgrade_effect:
  assumes "upgrade op d = (Inr (), d')"
  shows "tables d ''jobs'' = None \<and> tables d' = (tables d)(''jobs'' \<mapsto> migrated_table) \<and>
    indexes d ''ix_jobs_type'' = None \<and> indexes d ''ix_jobs_status'' = None \<and>
    indexes d ''ix_jobs_status_created_at'' = None \<and>
    indexes d' = (indexes d)(''ix_jobs_type'' \<mapsto> (''jobs'', [''type'']),
      ''ix_jobs_status'' \<mapsto> (''jobs'', [''status'']),
      ''ix_jobs_status_created_at'' \<mapsto> (''jobs'', [''status'', ''created_at'']))"
proof -
  from assms obtain d1 d2 d3 where
    1: "op_create_table op ''jobs'' create_jobs_args d = (Inr (), d1)" and
    2: "op_create_index op ''ix_jobs_type'' ''jobs'' [''type''] d1 = (Inr (), d2)" and
    3: "op_create_index op ''ix_jobs_status'' ''jobs'' [''status''] d2 = (Inr (), d3)" and
    4: "op_create_index op ''ix_jobs_status_created_at'' ''jobs'' [''status'', ''created_at''] d3 = (Inr (), d')"
    by (auto simp: upgrade_def bindE_def split: prod.splits sum.splits)
  from create_table_law [OF 1] create_index_law [OF 2] create_index_law [OF 3] create_index_law [OF 4]
  show ?thesis by (simp add: migrated_table_def split: if_splits)
qed

lemma downgrade_effect:
  assumes "downgrade op d = (Inr (), d')"
  shows "tables d ''jobs'' \<noteq> None \<and> tables d' = (tables d)(''jobs'' := None) \<and>
    indexes d' = drop_indexes_of ''jobs''
      ((indexes d)(''ix_jobs_status_created_at'' := None, ''ix_jobs_status'' := None, ''ix_jobs_type'' := None))"
proof -
  from assms obtain d1 d2 d3 where
    1: "op_drop_index op ''ix_jobs_status_created_at'' ''jobs'' d = (Inr (), d1)" and
    2: "op_drop_index op ''ix_jobs_status'' ''jobs'' d1 = (Inr (), d2)" and
    3: "op_drop_index op ''ix_jobs_type'' ''jobs'' d2 = (Inr (), d3)" and
    4: "op_drop_table op ''jobs'' d3 = (Inr (), d')"
    by (auto simp: downgrade_def bindE_def split: prod.splits sum.splits)
  from drop_index_law [OF 1] drop_index_law [OF 2] drop_index_law [OF 3] drop_table_law [OF 4]
  show ?thesis by simp
qed

text \<open>No index of a table that is not there: so dropping the new table's indexes drops no old one.\<close>

lemma drop_indexes_fresh:
  assumes "consistent (tables d) (indexes d)" and "tables d t = None"
  shows "drop_indexes_of t (indexes d) = indexes d"
proof
  fix n
  show "drop_indexes_of t (indexes d) n = indexes d n"
    using assms by (fastforce simp: drop_indexes_of_def consistent_def split: option.splits)
qed

lemma upgrade_downgrade:
  assumes cons: "consistent (tables d) (indexes d)"
    and up: "upgrade op d = (Inr (), d1)" and down: "downgrade op d1 = (Inr (), d2)"
  shows "tables d2 = tables d \<and> indexes d2 = indexes d"
proof -
  note u = upgrade_effect [OF up]
  have "tables d2 = tables d"
  proof -
    have "tables d2 = (tables d1)(''jobs'' := None)" using downgrade_effect [OF down] by simp
    also have "\<dots> = tables d" using u by auto
    finally show ?thesis .
  qed
  moreover have "indexes d2 = indexes d"
  proof -
    have "(indexes d1)(''ix_jobs_status_created_at'' := None, ''ix_jobs_status'' := None,
        ''ix_jobs_type'' := None) = indexes d"
      using u by auto
    then show ?thesis using downgrade_effect [OF down] drop_indexes_fresh [OF cons, of "''jobs''"] u by simp
  qed
  ultimately show ?thesis ..
qed

end

subsection \<open>A PostgreSQL catalog\<close>

text \<open>
  Tables, explicit indexes and the indexes of primary keys share one name space; a primary key without a
  name is called \<open><table>_pkey\<close>.  \<open>cat_faults\<close> says which of the coming statements fail.
\<close>

record catalog =
  cat_tables :: "string \<rightharpoonup> table"
  cat_indexes :: index_map
  cat_pkeys :: "(string \<times> string) list"
  cat_faults :: "sdk_error option list"

definition pkey_name :: "string \<Rightarrow> table_arg list \<Rightarrow> string" where
  "pkey_name t args = (case snd (arg_primary_key args) of None \<Rightarrow> t @ ''_pkey'' | Some n \<Rightarrow> n)"

definition name_taken :: "'a catalog_scheme \<Rightarrow> string \<Rightarrow> bool" where
  "name_taken d n \<longleftrightarrow> cat_tables d n \<noteq> None \<or> cat_indexes d n \<noteq> None \<or> n \<in> fst ` set (cat_pkeys d)"

definition ddl_error :: "string \<Rightarrow> string \<Rightarrow> exn" where
  "ddl_error t msg = db_error ''ProgrammingError'' (t @ msg)"

definition ddl_statement ::
  "('a catalog_scheme \<Rightarrow> exn + 'a catalog_scheme) \<Rightarrow> ('a catalog_scheme, unit) io" where
  "ddl_statement f d =
     (case cat_faults d of
        Some x # fs \<Rightarrow> (Inl (SdkError x), d\<lparr>cat_faults := fs\<rparr>)
      | fs \<Rightarrow>
          (case f d of
             Inl e \<Rightarrow> (Inl e, d\<lparr>cat_faults := tl fs\<rparr>)
           | Inr d' \<Rightarrow> (Inr (), d'\<lparr>cat_faults := tl fs\<rparr>)))"

definition cat_create_table :: "string \<Rightarrow> table_arg list \<Rightarrow> 'a catalog_scheme \<Rightarrow> exn + 'a catalog_scheme" where
  "cat_create_table t args d =
     (if name_taken d t \<or> name_taken d (pkey_name t args) \<or> pkey_name t args = t
      then Inl (ddl_error t '' already exists'')
      else Inr (d\<lparr>cat_tables := (cat_tables d)(t \<mapsto> table_of args),
                  cat_pkeys := (pkey_name t args, t) # cat_pkeys d\<rparr>))"

definition cat_create_index :: "string \<Rightarrow> string \<Rightarrow> string list \<Rightarrow> 'a catalog_scheme \<Rightarrow> exn + 'a catalog_scheme" where
  "cat_create_index n t cols d =
     (case cat_tables d t of
        None \<Rightarrow> Inl (ddl_error t '' does not exist'')
      | Some tab \<Rightarrow>
          if name_taken d n then Inl (ddl_error n '' already exists'')
          else if \<not> set cols \<subseteq> col_name ` set (tb_columns tab)
          then Inl (ddl_error t '' has no such column'')
          else Inr (d\<lparr>cat_indexes := (cat_indexes d)(n \<mapsto> (t, cols))\<rparr>))"

definition cat_drop_index :: "string \<Rightarrow> string \<Rightarrow> 'a catalog_scheme \<Rightarrow> exn + 'a catalog_scheme" where
  "cat_drop_index n t d =
     (if cat_indexes d n = None then Inl (ddl_error n '' does not exist'')
      else Inr (d\<lparr>cat_indexes := (cat_indexes d)(n := None)\<rparr>))"

definition cat_drop_table :: "string \<Rightarrow> 'a catalog_scheme \<Rightarrow> exn + 'a catalog_scheme" where
  "cat_drop_table t d =
     (if cat_tables d t = None then Inl (ddl_error t '' does not exist'')
      else Inr (d\<lparr>cat_tables := (cat_tables d)(t := None),
                  cat_indexes := drop_indexes_of t (cat_indexes d),
                  cat_pkeys := filter (\<lambda>(n, t'). t' \<noteq> t) (cat_pkeys d)\<rparr>))"

definition catalog_ddl :: "'a catalog_scheme ddl" where
  "catalog_ddl =
     \<lparr>op_create_table = (\<lambda>t args. ddl_statement (cat_create_table t args)),
      op_create_index = (\<lambda>n t cols. ddl_statement (cat_create_index n t cols)),
      op_drop_index = (\<lambda>n t. ddl_statement (cat_drop_index n t)),
      op_drop_table = (\<lambda>t. ddl_statement (cat_drop_table t))\<rparr>"

lemmas catalog_defs = catalog_ddl_def ddl_statement_def cat_create_table_def cat_create_index_def
  cat_drop_index_def cat_drop_table_def

interpretation pg_op: alembic_op catalog_ddl cat_tables cat_indexes
proof
  fix t args d r d'
  assume "op_create_table catalog_ddl t args d = (r, d')"
  then show "case r of Inl e \<Rightarrow> cat_tables d' = cat_tables d \<and> cat_indexes d' = cat_indexes d
     | Inr u \<Rightarrow> cat_tables d t = None \<and> cat_tables d' = (cat_tables d)(t \<mapsto> table_of args) \<and>
         cat_indexes d' = cat_indexes d"
    by (auto simp: catalog_defs name_taken_def split: list.splits option.splits sum.splits if_splits)
next
  fix n t cols d r d'
  assume "op_create_index catalog_ddl n t cols d = (r, d')"
  then show "cat_tables d' = cat_tables d \<and>
     (case r of Inl e \<Rightarrow> cat_indexes d' = cat_indexes d
      | Inr u \<Rightarrow> cat_indexes d n = None \<and> cat_indexes d' = (cat_indexes d)(n \<mapsto> (t, cols)))"
    by (auto simp: catalog_defs name_taken_def split: list.splits option.splits sum.splits if_splits)
next
  fix n t d r d'
  assume "op_drop_index catalog_ddl n t d = (r, d')"
  then show "cat_tables d' = cat_tables d \<and>
     (case r of Inl e \<Rightarrow> cat_indexes d' = cat_indexes d
      | Inr u \<Rightarrow> cat_indexes d n \<noteq> None \<and> cat_indexes d' = (cat_indexes d)(n := None))"
    by (auto simp: catalog_defs split: list.splits option.splits sum.splits if_splits)
next
  fix t d r d'
  assume "op_drop_table catalog_ddl t d = (r, d')"
  then show "case r of Inl e \<Rightarrow> cat_tables d' = cat_tables d \<and> cat_indexes d' = cat_indexes d
     | Inr u \<Rightarrow> cat_tables d t \<noteq> None \<and> cat_tables d' = (cat_tables d)(t := None) \<and>
         cat_indexes d' = drop_indexes_of t (cat_indexes d)"
    by (auto simp: catalog_defs split: list.splits option.splits sum.splits if_splits)
qed

text \<open>On a catalog where the names are free and no statement fails, the revision can be applied and undone.\<close>

definition jobs_free :: "'a catalog_scheme \<Rightarrow> bool" where
  "jobs_free d \<longleftrightarrow>
     list_all (\<lambda>n. \<not> name_taken d n)
       [''jobs'', ''pk_jobs'', ''ix_jobs_type'', ''ix_jobs_status'', ''ix_jobs_status_created_at'']"

lemma jobs_columns:
  "col_name ` set (tb_columns (table_of create_jobs_args)) =
     {''id'', ''type'', ''status'', ''payload'', ''result_ref'', ''error'', ''attempts'', ''created_at'',
      ''updated_at'', ''duration_ms''}"
  by (simp add: table_of_def create_jobs_args_def)

lemma pkey_jobs: "pkey_name t create_jobs_args = ''pk_jobs''"
  by (simp add: pkey_name_def create_jobs_args_def)

lemma upgrade_catalog:
  assumes "jobs_free d" and "cat_faults d = []"
  shows "upgrade catalog_ddl d =
    (Inr (), d\<lparr>cat_tables := (cat_tables d)(''jobs'' \<mapsto> migrated_table),
       cat_indexes := (cat_indexes d)(''ix_jobs_type'' \<mapsto> (''jobs'', [''type'']),
         ''ix_jobs_status'' \<mapsto> (''jobs'', [''status'']),
         ''ix_jobs_status_created_at'' \<mapsto> (''jobs'', [''status'', ''created_at''])),
       cat_pkeys := (''pk_jobs'', ''jobs'') # cat_pkeys d\<rparr>)"
  using assms
  by (simp add: upgrade_def bindE_def catalog_defs jobs_free_def name_taken_def jobs_columns pkey_jobs
      migrated_table_def)

subsection \<open>\<open>migrations/env.py\<close>\<close>

type_synonym metadata = "(string \<times> table \<times> (string \<times> string list) list) list"

text \<open>\<open>target_metadata = Base.metadata\<close>\<close>

definition target_metadata :: metadata where
  "target_metadata = [(jobs_tablename, declared_table, declared_indexes)]"

record 'c configure_args =
  ca_connection :: "'c option"
  ca_url :: "string option"
  ca_target_metadata :: metadata
  ca_compare_type :: bool
  ca_compare_server_default :: bool
  ca_literal_binds :: bool
  ca_dialect_opts :: "(string \<times> string) list"

record ('w, 'c) alembic_context =
  cx_is_offline_mode :: bool
  cx_configure :: "'c configure_args \<Rightarrow> ('w, unit) io"
  cx_begin_transaction :: "('w, unit) io \<Rightarrow> ('w, unit) io"
  cx_run_migrations :: "('w, unit) io"

datatype poolclass = NullPool | QueuePool

record ('w, 'c, 'e) async_engine_api =
  ea_engine_from_config :: "(string \<times> string) list \<Rightarrow> string \<Rightarrow> poolclass \<Rightarrow> ('w, 'e) io"
  ea_connect :: "'e \<Rightarrow> ('c \<Rightarrow> ('w, unit) io) \<Rightarrow> ('w, unit) io"
  ea_run_sync :: "'c \<Rightarrow> ('c \<Rightarrow> ('w, unit) io) \<Rightarrow> ('w, unit) io"
  ea_dispose :: "'e \<Rightarrow> ('w, unit) io"

definition do_run_migrations :: "('w, 'c) alembic_context \<Rightarrow> 'c \<Rightarrow> ('w, unit) io" where
  "do_run_migrations cx connection =
     bindE (cx_configure cx
              \<lparr>ca_connection = Some connection, ca_url = None, ca_target_metadata = target_metadata,
               ca_compare_type = True, ca_compare_server_default = True, ca_literal_binds = False,
               ca_dialect_opts = []\<rparr>) (\<lambda>_.
       cx_begin_transaction cx (cx_run_migrations cx))"

definition run_async_migrations ::
  "('w, 'c) alembic_context \<Rightarrow> ('w, 'c, 'e) async_engine_api \<Rightarrow> ini_config \<Rightarrow> ('w, unit) io" where
  "run_async_migrations cx ea config =
     bindE (liftE (get_section config (cf_ini_section config) [])) (\<lambda>section.
     bindE (ea_engine_from_config ea section ''sqlalchemy.'' NullPool) (\<lambda>connectable.
     bindE (ea_connect ea connectable (\<lambda>connection.
              ea_run_sync ea connection (do_run_migrations cx))) (\<lambda>_.
       ea_dispose ea connectable)))"

definition run_migrations_offline :: "('w, 'c) alembic_context \<Rightarrow> ini_config \<Rightarrow> ('w, unit) io" where
  "run_migrations_offline cx config =
     bindE (liftE (get_main_option config ''sqlalchemy.url'')) (\<lambda>url.
     bindE (cx_configure cx
              \<lparr>ca_connection = None, ca_url = url, ca_target_metadata = target_metadata,
               ca_compare_type = False, ca_compare_server_default = False, ca_literal_binds = True,
               ca_dialect_opts = [(''paramstyle'', ''named'')]\<rparr>) (\<lambda>_.
       cx_begin_transaction cx (cx_run_migrations cx)))"

text \<open>\<open>asyncio.run\<close> runs the coroutine to its end and re-raises what it raises.\<close>

definition run_migrations_online ::
  "('w, 'c) alembic_context \<Rightarrow> ('w, 'c, 'e) async_engine_api \<Rightarrow> ini_config \<Rightarrow> ('w, unit) io" where
  "run_migrations_online cx ea config = run_async_migrations cx ea config"

text \<open>
  The module body, which Alembic executes: the URL of \<open>Settings()\<close> goes into the configuration, logging
  is configured from the file if there is one (\<open>fileConfig\<close>, a parameter), and the mode decides.
\<close>

definition env_main ::
  "('w, 'c) alembic_context \<Rightarrow> ('w, 'c, 'e) async_engine_api \<Rightarrow> (string \<Rightarrow> ('w, unit) io) \<Rightarrow>
   ('w, settings) io \<Rightarrow> ini_config \<Rightarrow> ('w, unit) io" where
  "env_main cx ea fileConfig load_settings config =
     bindE load_settings (\<lambda>settings.
     bindE (liftE (set_main_option config ''sqlalchemy.url'' (st_database_url settings))) (\<lambda>config.
     bindE (case cf_file_name config of None \<Rightarrow> ret () | Some f \<Rightarrow> fileConfig f) (\<lambda>_.
       if cx_is_offline_mode cx then run_migrations_offline cx config
       else run_migrations_online cx ea config)))"

subsection \<open>What the context and the engine promise\<close>

text \<open>
  What the migrations see of a database: its tables, its indexes and the revision Alembic has recorded in
  a table of its own (which the first component leaves out).  \<open>migrates before after\<close> is what a successful run
  does: a database at revision 0001 is left alone, one at no revision gets the table \<open>jobs\<close> with its
  three indexes and is at revision 0001.
\<close>

type_synonym db_view = "(string \<rightharpoonup> table) \<times> index_map \<times> string option"

fun migrates :: "db_view \<Rightarrow> db_view \<Rightarrow> bool" where
  "migrates (tabs, ixs, ver) (tabs', ixs', ver') \<longleftrightarrow>
     ver' = Some revision \<and>
     (ver = Some revision \<and> tabs' = tabs \<and> ixs' = ixs \<or>
      ver = down_revision \<and> tabs ''jobs'' = None \<and>
      tabs' = tabs(''jobs'' \<mapsto> migrated_table) \<and>
      ixs' = ixs(''ix_jobs_type'' \<mapsto> (''jobs'', [''type'']),
        ''ix_jobs_status'' \<mapsto> (''jobs'', [''status'']),
        ''ix_jobs_status_created_at'' \<mapsto> (''jobs'', [''status'', ''created_at''])))"

lemma migrates_twice: "migrates v v1 \<Longrightarrow> migrates v1 v2 \<Longrightarrow> v2 = v1"
  by (cases v; cases v1; cases v2) (auto simp: down_revision_def revision_def)

locale alembic_runner = alembic_op op tables indexes
  for op :: "'d ddl" and tables :: "'d \<Rightarrow> string \<rightharpoonup> table" and indexes :: "'d \<Rightarrow> index_map" +
  fixes cx :: "('d, 'c) alembic_context" and version :: "'d \<Rightarrow> string option"
  assumes configure_law: "cx_configure cx args d = (r, d') \<Longrightarrow>
      (tables d', indexes d', version d') = (tables d, indexes d, version d)"
    and transaction_law: "cx_begin_transaction cx m d = (r, d') \<Longrightarrow>
      (\<exists>e. r = Inl e \<and> (tables d', indexes d', version d') = (tables d, indexes d, version d)) \<or>
      (\<exists>d1. m d = (Inr (), d1) \<and> r = Inr () \<and>
         (tables d', indexes d', version d') = (tables d1, indexes d1, version d1))"
    and run_law: "cx_run_migrations cx d = (Inr (), d') \<Longrightarrow>
      version d' = Some revision \<and>
      (version d = down_revision \<and>
         (\<exists>d1. upgrade op d = (Inr (), d1) \<and> tables d' = tables d1 \<and> indexes d' = indexes d1) \<or>
       version d = Some revision \<and> tables d' = tables d \<and> indexes d' = indexes d)"
begin

definition view :: "'d \<Rightarrow> db_view" where
  "view d = (tables d, indexes d, version d)"

lemma wp_transaction_run:
  "wpE (cx_begin_transaction cx (cx_run_migrations cx))
     (\<lambda>_ d'. migrates (view d) (view d')) (\<lambda>_ d'. view d' = view d) d"
proof (rule wpE_I)
  fix e d' assume "cx_begin_transaction cx (cx_run_migrations cx) d = (Inl e, d')"
  from transaction_law [OF this] show "view d' = view d" by (auto simp: view_def)
next
  fix u d' assume "cx_begin_transaction cx (cx_run_migrations cx) d = (Inr u, d')"
  from transaction_law [OF this] obtain d1 where run: "cx_run_migrations cx d = (Inr (), d1)"
    and d': "tables d' = tables d1" "indexes d' = indexes d1" "version d' = version d1" by auto
  from run_law [OF run] show "migrates (view d) (view d')"
  proof (elim conjE disjE exE)
    fix d2 assume "version d1 = Some revision" "version d = down_revision" "upgrade op d = (Inr (), d2)"
      "tables d1 = tables d2" "indexes d1 = indexes d2"
    then show ?thesis using upgrade_effect [of d d2] d' by (simp add: view_def)
  next
    assume "version d1 = Some revision" "version d = Some revision" "tables d1 = tables d" "indexes d1 = indexes d"
    then show ?thesis using d' by (simp add: view_def)
  qed
qed

lemma wp_do_run_migrations:
  "wpE (do_run_migrations cx connection)
     (\<lambda>_ d'. migrates (view d) (view d')) (\<lambda>_ d'. view d' = view d) d"
  unfolding do_run_migrations_def wp_bind
proof (rule wpE_I)
  fix e d' assume "cx_configure cx
      \<lparr>ca_connection = Some connection, ca_url = None, ca_target_metadata = target_metadata,
       ca_compare_type = True, ca_compare_server_default = True, ca_literal_binds = False,
       ca_dialect_opts = []\<rparr> d = (Inl e, d')"
  from configure_law [OF this] show "view d' = view d" by (simp add: view_def)
next
  fix u d1 assume "cx_configure cx
      \<lparr>ca_connection = Some connection, ca_url = None, ca_target_metadata = target_metadata,
       ca_compare_type = True, ca_compare_server_default = True, ca_literal_binds = False,
       ca_dialect_opts = []\<rparr> d = (Inr u, d1)"
  from configure_law [OF this] have v: "view d1 = view d" by (simp add: view_def)
  show "wpE (cx_begin_transaction cx (cx_run_migrations cx))
      (\<lambda>_ d'. migrates (view d) (view d')) (\<lambda>_ d'. view d' = view d) d1"
    using wp_transaction_run [of d1] unfolding v .
qed

end

text \<open>
  The engine: a connection may fail to open, and closing it, the hop to the synchronous world or the disposal
  may raise after the body has run, but none of them touches the schema.
\<close>

locale migration_engine = alembic_runner op tables indexes cx version
  for op :: "'d ddl" and tables :: "'d \<Rightarrow> string \<rightharpoonup> table" and indexes :: "'d \<Rightarrow> index_map"
    and cx :: "('d, 'c) alembic_context" and version :: "'d \<Rightarrow> string option" +
  fixes ea :: "('d, 'c, 'e) async_engine_api"
  assumes from_config_law: "ea_engine_from_config ea opts prefix pool d = (re, d') \<Longrightarrow>
      (tables d', indexes d', version d') = (tables d, indexes d, version d)"
    and connect_law: "ea_connect ea e body d = (r, d') \<Longrightarrow>
      (\<exists>x. r = Inl x \<and> (tables d', indexes d', version d') = (tables d, indexes d, version d)) \<or>
      (\<exists>c d0 r1 d1. (tables d0, indexes d0, version d0) = (tables d, indexes d, version d) \<and>
         body c d0 = (r1, d1) \<and> (tables d', indexes d', version d') = (tables d1, indexes d1, version d1) \<and>
         (r = r1 \<or> (\<exists>x. r = Inl x)))"
    and run_sync_law: "ea_run_sync ea c f d = (r, d') \<Longrightarrow>
      (\<exists>x. r = Inl x \<and> (tables d', indexes d', version d') = (tables d, indexes d, version d)) \<or>
      f c d = (r, d')"
    and dispose_law: "ea_dispose ea e d = (r, d') \<Longrightarrow>
      (tables d', indexes d', version d') = (tables d, indexes d, version d)"
begin

lemma wp_run_sync:
  "wpE (ea_run_sync ea c (do_run_migrations cx))
     (\<lambda>_ d'. migrates (view d) (view d')) (\<lambda>_ d'. view d' = view d) d"
proof (rule wpE_I)
  fix e d' assume "ea_run_sync ea c (do_run_migrations cx) d = (Inl e, d')"
  from run_sync_law [OF this] show "view d' = view d"
    using wpE_Inl [OF wp_do_run_migrations] by (auto simp: view_def)
next
  fix u d' assume "ea_run_sync ea c (do_run_migrations cx) d = (Inr u, d')"
  from run_sync_law [OF this] show "migrates (view d) (view d')"
    using wpE_Inr [OF wp_do_run_migrations] by auto
qed

lemma wp_connect:
  "wpE (ea_connect ea e (\<lambda>c. ea_run_sync ea c (do_run_migrations cx)))
     (\<lambda>_ d'. migrates (view d) (view d')) (\<lambda>_ d'. view d' = view d \<or> migrates (view d) (view d')) d"
proof -
  have "case r of Inl x \<Rightarrow> view d' = view d \<or> migrates (view d) (view d')
      | Inr u \<Rightarrow> migrates (view d) (view d')"
    if "ea_connect ea e (\<lambda>c. ea_run_sync ea c (do_run_migrations cx)) d = (r, d')" for r d'
  proof -
    from connect_law [OF that] consider x where "r = Inl x" "view d' = view d"
      | c d0 r1 d1 where "(tables d0, indexes d0, version d0) = (tables d, indexes d, version d)"
        "ea_run_sync ea c (do_run_migrations cx) d0 = (r1, d1)"
        "(tables d', indexes d', version d') = (tables d1, indexes d1, version d1)"
        "r = r1 \<or> (\<exists>x. r = Inl x)"
      unfolding view_def by blast
    then show ?thesis
    proof cases
      case 1 then show ?thesis by simp
    next
      case (2 c d0 r1 d1)
      have v: "view d0 = view d" "view d' = view d1" using 2(1,3) by (simp_all add: view_def)
      have "case r1 of Inl x \<Rightarrow> view d1 = view d0 | Inr u \<Rightarrow> migrates (view d0) (view d1)"
        using wp_run_sync [of c d0] 2(2) by (cases r1) (simp_all add: wpE_def)
      then show ?thesis using 2(4) v by (cases r1) auto
    qed
  qed
  then show ?thesis by (fastforce intro!: wpE_I)
qed

lemma wp_online:
  "wpE (run_migrations_online cx ea config)
     (\<lambda>_ d'. migrates (view d) (view d')) (\<lambda>_ d'. view d' = view d \<or> migrates (view d) (view d')) d"
proof -
  have disp: "wpE (ea_dispose ea e) (\<lambda>_ d'. migrates (view d) (view d'))
      (\<lambda>_ d'. view d' = view d \<or> migrates (view d) (view d')) d1"
    if "migrates (view d) (view d1)" for e d1
  proof (rule wpE_I)
    fix x d' assume "ea_dispose ea e d1 = (Inl x, d')"
    from dispose_law [OF this] that show "view d' = view d \<or> migrates (view d) (view d')" by (simp add: view_def)
  next
    fix u d' assume "ea_dispose ea e d1 = (Inr u, d')"
    from dispose_law [OF this] that show "migrates (view d) (view d')" by (simp add: view_def)
  qed
  have conn: "wpE (bindE (ea_connect ea e (\<lambda>c. ea_run_sync ea c (do_run_migrations cx)))
        (\<lambda>_. ea_dispose ea e))
      (\<lambda>_ d'. migrates (view d) (view d')) (\<lambda>_ d'. view d' = view d \<or> migrates (view d) (view d')) d1"
    if "view d1 = view d" for e d1
    unfolding wp_bind using wp_connect [of e d1] by (rule wpE_mono) (simp_all add: that disp)
  have rest: "wpE (bindE (ea_engine_from_config ea opts ''sqlalchemy.'' NullPool) (\<lambda>e.
        bindE (ea_connect ea e (\<lambda>c. ea_run_sync ea c (do_run_migrations cx))) (\<lambda>_. ea_dispose ea e)))
      (\<lambda>_ d'. migrates (view d) (view d')) (\<lambda>_ d'. view d' = view d \<or> migrates (view d) (view d')) d" for opts
    by (subst wp_bind) (use conn from_config_law in \<open>fastforce intro!: wpE_I [where m = "ea_engine_from_config _ _ _ _"] simp: view_def\<close>)
  show ?thesis
    unfolding run_migrations_online_def run_async_migrations_def
    by (subst wp_bind) (simp add: wp_lift rest split: sum.split)
qed

end

subsection \<open>A server with Alembic on it\<close>

text \<open>
  The catalog with Alembic's version table and the resources a run holds: open connections and engines.
  A connection and an engine are known by their URL.
\<close>

record migration_db = catalog +
  mg_version :: "string option"
  mg_connections :: "string list"
  mg_engines :: "string list"

definition restore_schema :: "migration_db \<Rightarrow> migration_db \<Rightarrow> migration_db" where
  "restore_schema w w' =
     w'\<lparr>cat_tables := cat_tables w, cat_indexes := cat_indexes w, cat_pkeys := cat_pkeys w,
        mg_version := mg_version w\<rparr>"

definition pg_transaction :: "(migration_db, unit) io \<Rightarrow> (migration_db, unit) io" where
  "pg_transaction m w =
     (case bindE m (\<lambda>u. ddl_statement Inr) w of
        (Inr u, w') \<Rightarrow> (Inr u, w')
      | (Inl e, w') \<Rightarrow> (Inl e, restore_schema w w'))"

definition pg_run_migrations :: "(migration_db, unit) io" where
  "pg_run_migrations w =
     (if mg_version w = down_revision
      then bindE (upgrade catalog_ddl) (\<lambda>_. modifyE (\<lambda>w. w\<lparr>mg_version := Some revision\<rparr>)) w
      else if mg_version w = Some revision then (Inr (), w)
      else (Inl (db_error ''CommandError'' ''Can't locate revision''), w))"

definition pg_context :: "(migration_db, string) alembic_context" where
  "pg_context =
     \<lparr>cx_is_offline_mode = False, cx_configure = (\<lambda>args. ret ()),
      cx_begin_transaction = pg_transaction, cx_run_migrations = pg_run_migrations\<rparr>"

definition pg_engine_from_config ::
  "(string \<times> string) list \<Rightarrow> string \<Rightarrow> poolclass \<Rightarrow> (migration_db, string) io" where
  "pg_engine_from_config opts prefix pool w =
     (case map_of opts (prefix @ ''url'') of
        None \<Rightarrow> (Inl (KeyError ''url''), w)
      | Some url \<Rightarrow> (Inr url, w\<lparr>mg_engines := url # mg_engines w\<rparr>))"

definition pg_connect :: "string \<Rightarrow> (string \<Rightarrow> (migration_db, unit) io) \<Rightarrow> (migration_db, unit) io" where
  "pg_connect url body =
     bindE (ddl_statement (\<lambda>w. Inr (w\<lparr>mg_connections := url # mg_connections w\<rparr>))) (\<lambda>_.
       finallyE (body url) (\<lambda>w. w\<lparr>mg_connections := remove1 url (mg_connections w)\<rparr>))"

definition pg_dispose :: "string \<Rightarrow> (migration_db, unit) io" where
  "pg_dispose url = modifyE (\<lambda>w. w\<lparr>mg_engines := remove1 url (mg_engines w)\<rparr>)"

definition pg_engine :: "(migration_db, string, string) async_engine_api" where
  "pg_engine =
     \<lparr>ea_engine_from_config = pg_engine_from_config, ea_connect = pg_connect,
      ea_run_sync = (\<lambda>conn f. f conn), ea_dispose = pg_dispose\<rparr>"

interpretation pg: migration_engine catalog_ddl cat_tables cat_indexes pg_context mg_version pg_engine
proof
  fix args :: "string configure_args" and d :: migration_db and r d'
  assume "cx_configure pg_context args d = (r, d')"
  then show "(cat_tables d', cat_indexes d', mg_version d') = (cat_tables d, cat_indexes d, mg_version d)"
    by (simp add: pg_context_def ret_def)
next
  fix m :: "(migration_db, unit) io" and d r d'
  assume "cx_begin_transaction pg_context m d = (r, d')"
  then show "(\<exists>e. r = Inl e \<and>
       (cat_tables d', cat_indexes d', mg_version d') = (cat_tables d, cat_indexes d, mg_version d)) \<or>
     (\<exists>d1. m d = (Inr (), d1) \<and> r = Inr () \<and>
       (cat_tables d', cat_indexes d', mg_version d') = (cat_tables d1, cat_indexes d1, mg_version d1))"
    by (cases "m d")
      (auto simp: pg_context_def pg_transaction_def bindE_def ddl_statement_def restore_schema_def
        split: sum.splits list.splits option.splits)
next
  fix d d' assume "cx_run_migrations pg_context d = (Inr (), d')"
  then show "mg_version d' = Some revision \<and>
      (mg_version d = down_revision \<and>
         (\<exists>d1. upgrade catalog_ddl d = (Inr (), d1) \<and> cat_tables d' = cat_tables d1 \<and> cat_indexes d' = cat_indexes d1) \<or>
       mg_version d = Some revision \<and> cat_tables d' = cat_tables d \<and> cat_indexes d' = cat_indexes d)"
    by (cases "upgrade catalog_ddl d")
      (auto simp: pg_context_def pg_run_migrations_def bindE_def modifyE_def split: if_splits sum.splits)
next
  fix opts prefix pool d re d'
  assume "ea_engine_from_config pg_engine opts prefix pool d = (re, d')"
  then show "(cat_tables d', cat_indexes d', mg_version d') = (cat_tables d, cat_indexes d, mg_version d)"
    by (auto simp: pg_engine_def pg_engine_from_config_def split: option.splits)
next
  fix e body d r d'
  assume run: "ea_connect pg_engine e body d = (r, d')"
  show "(\<exists>x. r = Inl x \<and>
       (cat_tables d', cat_indexes d', mg_version d') = (cat_tables d, cat_indexes d, mg_version d)) \<or>
     (\<exists>c d0 r1 d1. (cat_tables d0, cat_indexes d0, mg_version d0) = (cat_tables d, cat_indexes d, mg_version d) \<and>
       body c d0 = (r1, d1) \<and>
       (cat_tables d', cat_indexes d', mg_version d') = (cat_tables d1, cat_indexes d1, mg_version d1) \<and>
       (r = r1 \<or> (\<exists>x. r = Inl x)))"
  proof (cases "ddl_statement (\<lambda>w. Inr (w\<lparr>mg_connections := e # mg_connections w\<rparr>)) d")
    case (Pair r0 d0)
    have frame: "(cat_tables d0, cat_indexes d0, mg_version d0) = (cat_tables d, cat_indexes d, mg_version d)"
      using Pair by (auto simp: ddl_statement_def split: list.splits option.splits)
    show ?thesis
    proof (cases r0)
      case (Inl x)
      then have "r = Inl x" "d' = d0" using run Pair by (simp_all add: pg_engine_def pg_connect_def bindE_def)
      with frame show ?thesis by blast
    next
      case (Inr u)
      obtain r1 d1 where body: "body e d0 = (r1, d1)" by (cases "body e d0")
      then have "r = r1" "d' = d1\<lparr>mg_connections := remove1 e (mg_connections d1)\<rparr>"
        using run Pair Inr by (simp_all add: pg_engine_def pg_connect_def bindE_def finallyE_def)
      with frame body show ?thesis by force
    qed
  qed
next
  fix c f d r d'
  assume "ea_run_sync pg_engine c f d = (r, d')"
  then show "(\<exists>x. r = Inl x \<and>
       (cat_tables d', cat_indexes d', mg_version d') = (cat_tables d, cat_indexes d, mg_version d)) \<or>
     f c d = (r, d')"
    by (simp add: pg_engine_def)
next
  fix e d r d'
  assume "ea_dispose pg_engine e d = (r, d')"
  then show "(cat_tables d', cat_indexes d', mg_version d') = (cat_tables d, cat_indexes d, mg_version d)"
    by (auto simp: pg_engine_def pg_dispose_def modifyE_def)
qed

subsection \<open>Properties\<close>

lemma declared_indexes_unfold:
  "declared_indexes =
     [(''ix_jobs_type'', [''type'']), (''ix_jobs_status'', [''status'']),
      (''ix_jobs_status_created_at'', [''status'', ''created_at''])]"
  by (simp add: declared_indexes_def orm_indexes_def jobs_tablename_def job_row_attributes_def mapped_def
      job_row_table_args_def)

text \<open>
  C34. The migration builds the schema the models declare, and undoes it: after \<open>upgrade\<close> the table
  \<open>jobs\<close> is the migrated one, its indexes are exactly those of \<open>JobRow\<close>, by name and columns, and
  nothing else has changed; \<open>downgrade\<close> then gives back the catalog that was there before.
\<close>

theorem migration_round_trip:
  assumes ops: "alembic_op op tables indexes" and cons: "consistent (tables d) (indexes d)"
    and up: "upgrade op d = (Inr (), d1)"
  shows "tables d1 ''jobs'' = Some migrated_table \<and> (\<forall>t. t \<noteq> ''jobs'' \<longrightarrow> tables d1 t = tables d t) \<and>
    (\<forall>n cols. indexes d1 n = Some (''jobs'', cols) \<longleftrightarrow> (n, cols) \<in> set declared_indexes) \<and>
    (\<forall>n t cols. t \<noteq> ''jobs'' \<longrightarrow> (indexes d1 n = Some (t, cols)) = (indexes d n = Some (t, cols))) \<and>
    consistent (tables d1) (indexes d1) \<and>
    (\<forall>d2. downgrade op d1 = (Inr (), d2) \<longrightarrow> tables d2 = tables d \<and> indexes d2 = indexes d)"
proof -
  note u = alembic_op.upgrade_effect [OF ops up]
  have none: "indexes d n \<noteq> Some (''jobs'', cols)" for n cols
    using consistentD [OF cons, of n "''jobs''" cols] u by auto
  have "indexes d1 n = Some (''jobs'', cols) \<longleftrightarrow> (n, cols) \<in> set declared_indexes" for n cols
    using u none by (auto simp: declared_indexes_unfold)
  moreover have "(indexes d1 n = Some (t, cols)) = (indexes d n = Some (t, cols))" if "t \<noteq> ''jobs''" for n t cols
    using u that by auto
  moreover have "consistent (tables d1) (indexes d1)"
    using u cons by (auto simp: consistent_def)
  moreover have "\<forall>d2. downgrade op d1 = (Inr (), d2) \<longrightarrow> tables d2 = tables d \<and> indexes d2 = indexes d"
    using alembic_op.upgrade_downgrade [OF ops cons up] by blast
  ultimately show ?thesis using u by simp
qed

definition empty_catalog :: "sdk_error option list \<Rightarrow> migration_db" where
  "empty_catalog faults =
     \<lparr>cat_tables = Map.empty, cat_indexes = Map.empty, cat_pkeys = [], cat_faults = faults,
      mg_version = None, mg_connections = [], mg_engines = []\<rparr>"

lemma empty_catalog_free: "jobs_free (empty_catalog faults)"
  by (simp add: jobs_free_def name_taken_def empty_catalog_def)

theorem migration_round_trip_witness:
  "let d1 = snd (upgrade catalog_ddl (empty_catalog [])) in
     cat_tables d1 ''jobs'' = Some migrated_table \<and>
     cat_indexes d1 ''ix_jobs_status_created_at'' = Some (''jobs'', [''status'', ''created_at'']) \<and>
     fst (downgrade catalog_ddl d1) = Inr () \<and>
     cat_tables (snd (downgrade catalog_ddl d1)) = Map.empty \<and>
     cat_indexes (snd (downgrade catalog_ddl d1)) = Map.empty"
proof -
  define d1 where "d1 = snd (upgrade catalog_ddl (empty_catalog []))"
  have faults: "cat_faults (empty_catalog []) = []" by (simp add: empty_catalog_def)
  note up0 = upgrade_catalog [OF empty_catalog_free faults]
  then have up: "upgrade catalog_ddl (empty_catalog []) = (Inr (), d1)" by (simp add: d1_def)
  have down: "fst (downgrade catalog_ddl d1) = Inr ()"
    unfolding d1_def up0 by (simp add: downgrade_def bindE_def catalog_defs empty_catalog_def)
  then obtain d2 where d2: "downgrade catalog_ddl d1 = (Inr (), d2)" by (cases "downgrade catalog_ddl d1") auto
  have cons: "consistent (cat_tables (empty_catalog [])) (cat_indexes (empty_catalog []))"
    by (simp add: consistent_def empty_catalog_def)
  have empty: "cat_tables (empty_catalog []) = Map.empty" "cat_indexes (empty_catalog []) = Map.empty"
    by (simp_all add: empty_catalog_def)
  note rt = migration_round_trip [OF pg_op.alembic_op_axioms cons up, unfolded empty]
  have "cat_tables d2 = Map.empty \<and> cat_indexes d2 = Map.empty" using rt d2 by blast
  moreover have "cat_indexes d1 ''ix_jobs_status_created_at'' = Some (''jobs'', [''status'', ''created_at''])"
    using rt by (simp add: declared_indexes_unfold)
  ultimately show ?thesis using rt d2 down by (simp add: Let_def flip: d1_def)
qed

text \<open>
  C35. A run of \<open>alembic upgrade head\<close> is all or nothing, and can be repeated: whatever statement, commit,
  connection or disposal fails, the schema is as it was before, or the run's work is done; when it
  returns, the database is at revision 0001, with the table and the indexes created if it was at none and
  nothing changed if it was there already; so running it again changes nothing.
\<close>

theorem migrate_all_or_nothing:
  assumes eng: "migration_engine op tables indexes cx version ea"
    and run: "run_migrations_online cx ea config d = (r, d')"
  shows "(case r of
      Inl e \<Rightarrow> (tables d', indexes d', version d') = (tables d, indexes d, version d) \<or>
               migrates (tables d, indexes d, version d) (tables d', indexes d', version d')
    | Inr u \<Rightarrow> migrates (tables d, indexes d, version d) (tables d', indexes d', version d') \<and>
        (\<forall>config2 d''. run_migrations_online cx ea config2 d' = (Inr (), d'') \<longrightarrow>
           (tables d'', indexes d'', version d'') = (tables d', indexes d', version d')))"
proof -
  note defs = alembic_runner.view_def [OF migration_engine.axioms(1) [OF eng]]
  note wp = migration_engine.wp_online [OF eng, unfolded defs]
  show ?thesis
  proof (cases r)
    case (Inl e)
    then show ?thesis using wpE_Inl [OF wp, of config d] run by simp
  next
    case (Inr u)
    then have "migrates (tables d, indexes d, version d) (tables d', indexes d', version d')"
      using wpE_Inr [OF wp, of config d] run by simp
    moreover have "(tables d'', indexes d'', version d'') = (tables d', indexes d', version d')"
      if "run_migrations_online cx ea config2 d' = (Inr (), d'')" for config2 d''
      using migrates_twice [OF calculation wpE_Inr [OF wp that]] .
    ultimately show ?thesis using Inr by simp
  qed
qed

text \<open>On the server above, a fault while the first index is built leaves no trace of the table.\<close>

theorem migrate_all_or_nothing_witness:
  "\<forall>x. \<exists>config w. set_main_option (alembic_ini ''/app'') ''sqlalchemy.url'' ''postgresql+asyncpg://db/aie'' = Inr config \<and>
     run_migrations_online pg_context pg_engine config (empty_catalog [None, None, Some x]) = (Inl (SdkError x), w) \<and>
     cat_tables w = Map.empty \<and> cat_indexes w = Map.empty \<and> mg_version w = None \<and> mg_connections w = []"
proof
  fix x
  have plain: "CHR ''%'' \<notin> set ''postgresql+asyncpg://db/aie''" "CHR ''%'' \<notin> set ''/app''" by simp_all
  obtain config opts where
    c: "set_main_option (alembic_ini ''/app'') ''sqlalchemy.url'' ''postgresql+asyncpg://db/aie'' = Inr config"
      "cf_ini_section config = ''alembic''" "get_section config ''alembic'' [] = Inr opts"
      "map_of opts ''sqlalchemy.url'' = Some ''postgresql+asyncpg://db/aie''"
    using configured_ini [OF plain] by metis
  define u where "u = ''postgresql+asyncpg://db/aie''"
  obtain w where run: "run_migrations_online pg_context pg_engine config (empty_catalog [None, None, Some x]) =
      (Inl (SdkError x), w)" and conn: "mg_connections w = []" and ver: "mg_version w = None"
    using c(4) unfolding u_def [symmetric]
    by (simp add: run_migrations_online_def run_async_migrations_def c do_run_migrations_def bindE_def liftE_def
        pg_engine_def pg_engine_from_config_def pg_connect_def ddl_statement_def finallyE_def pg_context_def
        ret_def pg_transaction_def pg_run_migrations_def down_revision_def upgrade_def catalog_ddl_def
        cat_create_table_def name_taken_def pkey_jobs empty_catalog_def restore_schema_def)
  from migrate_all_or_nothing [OF pg.migration_engine_axioms run] ver
  have "cat_tables w = Map.empty" "cat_indexes w = Map.empty"
    by (simp_all add: empty_catalog_def down_revision_def revision_def)
  with c(1) run conn ver show "\<exists>config w. set_main_option (alembic_ini ''/app'') ''sqlalchemy.url'' ''postgresql+asyncpg://db/aie'' = Inr config \<and>
     run_migrations_online pg_context pg_engine config (empty_catalog [None, None, Some x]) = (Inl (SdkError x), w) \<and>
     cat_tables w = Map.empty \<and> cat_indexes w = Map.empty \<and> mg_version w = None \<and> mg_connections w = []" by blast
qed

text \<open>
  The database URL reaches the migrations only if it holds no per cent sign: one that does, as a password with
  an escaped character must, is refused with \<open>ValueError\<close> while the module is loading, before
  anything is configured, connected or run.  A URL without one is what the engine is built from, and
  what offline mode is configured with.
\<close>

theorem percent_url_breaks_migrations:
  assumes load: "load_settings d = (Inr st, d1)" and plain: "CHR ''%'' \<notin> set url"
  shows "(\<forall>rest c. st_database_url st = url @ CHR ''%'' # c # rest \<and> CHR ''%'' \<notin> set (c # rest) \<and> c \<noteq> CHR ''('' \<longrightarrow>
       (\<exists>m. env_main cx ea fileConfig load_settings config d = (Inl (ValueError m), d1))) \<and>
    (st_database_url st = url \<and> CHR ''%'' \<notin> set dir \<longrightarrow>
       (\<exists>config opts. get_section config (cf_ini_section config) [] = Inr opts \<and>
          map_of opts ''sqlalchemy.url'' = Some url \<and>
          get_main_option config ''sqlalchemy.url'' = Inr (Some url) \<and>
          env_main cx ea fileConfig load_settings (alembic_ini dir) d =
            bindE (fileConfig (dir @ ''/alembic.ini'')) (\<lambda>_.
              if cx_is_offline_mode cx then run_migrations_offline cx config
              else run_migrations_online cx ea config) d1))"
proof (intro conjI allI impI)
  fix rest c
  assume u: "st_database_url st = url @ CHR ''%'' # c # rest \<and> CHR ''%'' \<notin> set (c # rest) \<and> c \<noteq> CHR ''(''"
  then obtain m where "before_set (st_database_url st) = Inl (ValueError m)"
    using before_set_percent [of url rest c] plain by auto
  then show "\<exists>m. env_main cx ea fileConfig load_settings config d = (Inl (ValueError m), d1)"
    by (simp add: env_main_def bindE_def load liftE_def set_main_option_def)
next
  assume u: "st_database_url st = url \<and> CHR ''%'' \<notin> set dir"
  from configured_ini [OF plain, of dir] u obtain config opts where
    c: "set_main_option (alembic_ini dir) ''sqlalchemy.url'' url = Inr config"
      "cf_ini_section config = ''alembic''" "cf_file_name config = Some (dir @ ''/alembic.ini'')"
      "get_section config ''alembic'' [] = Inr opts" "map_of opts ''sqlalchemy.url'' = Some url"
      "get_main_option config ''sqlalchemy.url'' = Inr (Some url)" by metis
  have "env_main cx ea fileConfig load_settings (alembic_ini dir) d =
      bindE (fileConfig (dir @ ''/alembic.ini'')) (\<lambda>_.
        if cx_is_offline_mode cx then run_migrations_offline cx config
        else run_migrations_online cx ea config) d1"
    using u by (simp add: env_main_def bindE_def load liftE_def c)
  with c show "\<exists>config opts. get_section config (cf_ini_section config) [] = Inr opts \<and>
      map_of opts ''sqlalchemy.url'' = Some url \<and>
      get_main_option config ''sqlalchemy.url'' = Inr (Some url) \<and>
      env_main cx ea fileConfig load_settings (alembic_ini dir) d =
        bindE (fileConfig (dir @ ''/alembic.ini'')) (\<lambda>_.
          if cx_is_offline_mode cx then run_migrations_offline cx config
          else run_migrations_online cx ea config) d1"
    by (intro exI [of _ config] exI [of _ opts]) simp
qed

theorem percent_url_breaks_migrations_witness:
  "\<exists>m. env_main pg_context pg_engine (\<lambda>f. ret ())
     (ret (default_settings\<lparr>st_database_url := ''postgresql+asyncpg://aie:p%40ss@db:5432/aie''\<rparr>))
     (alembic_ini ''/app'') (empty_catalog []) = (Inl (ValueError m), empty_catalog [])"
proof -
  let ?st = "default_settings\<lparr>st_database_url := ''postgresql+asyncpg://aie:p%40ss@db:5432/aie''\<rparr>"
  have load: "ret ?st (empty_catalog []) = (Inr ?st, empty_catalog [])" by (simp add: ret_def)
  have plain: "CHR ''%'' \<notin> set ''postgresql+asyncpg://aie:p''" by simp
  have "st_database_url ?st = ''postgresql+asyncpg://aie:p'' @ CHR ''%'' # CHR ''4'' # ''0ss@db:5432/aie'' \<and>
      CHR ''%'' \<notin> set (CHR ''4'' # ''0ss@db:5432/aie'') \<and> CHR ''4'' \<noteq> CHR ''(''" by simp
  with percent_url_breaks_migrations
    [where load_settings = "ret ?st" and d = "empty_catalog []" and st = ?st and ?d1.0 = "empty_catalog []",
     OF load plain]
  show ?thesis by blast
qed

end
