(* ===== verification/Deployment.thy ===== *)
theory Deployment
  imports Container SettingsLoad Migration
begin

section \<open>The stack of \<open>docker-compose.yml\<close>\<close>

text \<open>
  What the compose file makes of the program: the environment its containers share
  (\<open>x-app-env\<close>) as a function of the variables of the host, with compose's \<open>${VAR:-default}\<close>, which
  takes the default when the variable is unset or empty.  The settings loaded from it decide which
  providers the API and the worker build, and which URL the one-shot \<open>migrate\<close> service passes on.
\<close>

definition interpolated :: "(string \<Rightarrow> string option) \<Rightarrow> string \<Rightarrow> string \<Rightarrow> string" where
  "interpolated host var dflt = (case host var of None \<Rightarrow> dflt | Some v \<Rightarrow> if v = [] then dflt else v)"

definition compose_app_env :: "(string \<Rightarrow> string option) \<Rightarrow> variables" where
  "compose_app_env host =
     [(''AIE_ENV'', interpolated host ''AIE_ENV'' ''dev''),
      (''AIE_DATABASE_URL'',
       ''postgresql+asyncpg://'' @ interpolated host ''AIE_POSTGRES_USER'' ''aie'' @ '':'' @
       interpolated host ''AIE_POSTGRES_PASSWORD'' ''aie'' @ ''@postgres:5432/'' @
       interpolated host ''AIE_POSTGRES_DB'' ''aie''),
      (''AIE_REDIS_URL'', ''redis://redis:6379/0''),
      (''AIE_OBJECT_STORE__ENDPOINT_URL'', ''http://minio:9000''),
      (''AIE_OBJECT_STORE__ACCESS_KEY_ID'', interpolated host ''AIE_OBJECT_STORE__ACCESS_KEY_ID'' ''minioadmin''),
      (''AIE_OBJECT_STORE__SECRET_ACCESS_KEY'',
       interpolated host ''AIE_OBJECT_STORE__SECRET_ACCESS_KEY'' ''minioadmin''),
      (''AIE_OBJECT_STORE__BUCKET'', interpolated host ''AIE_OBJECT_STORE__BUCKET'' ''aie-artifacts''),
      (''AIE_OBJECT_STORE__REGION'', interpolated host ''AIE_OBJECT_STORE__REGION'' ''us-east-1''),
      (''AIE_API_KEYS'', interpolated host ''AIE_API_KEYS'' ''local-dev-key''),
      (''AIE_HUGGINGFACE_TOKEN'', interpolated host ''AIE_HUGGINGFACE_TOKEN'' ''''),
      (''AIE_PINECONE_API_KEY'', interpolated host ''AIE_PINECONE_API_KEY'' '''')]"

subsection \<open>Lemmas\<close>

lemma compose_env_var:
  "env_var model_config (compose_app_env host) name =
     map_of (rev (map (\<lambda>(k, v). (py_lower k, v)) (compose_app_env host))) (''aie_'' @ py_lower name)"
  unfolding env_var_def prefix_lower unfolding fold_model ..

lemma lower_variables:
  "py_lower ''huggingface_token'' = ''huggingface_token''"
  "py_lower ''pinecone_api_key'' = ''pinecone_api_key''"
  "py_lower ''database_url'' = ''database_url''"
  "py_lower ''AIE_DATABASE_URL'' = ''aie_database_url''"
  "py_lower ''AIE_REDIS_URL'' = ''aie_redis_url''"
  "py_lower ''AIE_OBJECT_STORE__ENDPOINT_URL'' = ''aie_object_store__endpoint_url''"
  "py_lower ''AIE_OBJECT_STORE__ACCESS_KEY_ID'' = ''aie_object_store__access_key_id''"
  "py_lower ''AIE_OBJECT_STORE__SECRET_ACCESS_KEY'' = ''aie_object_store__secret_access_key''"
  "py_lower ''AIE_OBJECT_STORE__BUCKET'' = ''aie_object_store__bucket''"
  "py_lower ''AIE_OBJECT_STORE__REGION'' = ''aie_object_store__region''"
  "py_lower ''AIE_API_KEYS'' = ''aie_api_keys''"
  "py_lower ''AIE_HUGGINGFACE_TOKEN'' = ''aie_huggingface_token''"
  "py_lower ''AIE_PINECONE_API_KEY'' = ''aie_pinecone_api_key''"
  by code_simp+

lemma compose_values:
  "env_var model_config (compose_app_env host) ''huggingface_token'' =
     Some (interpolated host ''AIE_HUGGINGFACE_TOKEN'' [])"
  "env_var model_config (compose_app_env host) ''pinecone_api_key'' =
     Some (interpolated host ''AIE_PINECONE_API_KEY'' [])"
  "env_var model_config (compose_app_env host) ''database_url'' =
     Some (''postgresql+asyncpg://'' @ interpolated host ''AIE_POSTGRES_USER'' ''aie'' @ '':'' @
       interpolated host ''AIE_POSTGRES_PASSWORD'' ''aie'' @ ''@postgres:5432/'' @
       interpolated host ''AIE_POSTGRES_DB'' ''aie'')"
  unfolding compose_env_var lower_variables by (simp_all add: compose_app_env_def lower_variables)

text \<open>How the database URL of the containers is made of the host's variables.\<close>

lemma loaded_database_url:
  assumes "load_settings co env dotenv = Inr s" and "env_var model_config env ''database_url'' = Some url"
  shows "st_database_url s = url"
proof -
  from assms obtain inp where src: "read_sources co env dotenv = Inr inp"
    and val: "validate_settings co inp = Inr s"
    by (auto simp: load_settings_def split: sum.splits)
  have "in_scalar inp ''database_url'' = Some (PStr url)"
    by (simp add: read_sources_scalar [OF src] scalar_input_def assms(2))
  with val show ?thesis
    by (auto simp: validate_settings_def validated_def Let_def split: prod.splits if_splits)
qed

lemma loaded_secrets:
  assumes "load_settings co env dotenv = Inr s"
    and "env_var model_config env ''huggingface_token'' = Some hf"
    and "env_var model_config env ''pinecone_api_key'' = Some pc"
  shows "st_huggingface_token s = Some hf \<and> st_pinecone_api_key s = Some pc"
proof -
  from assms(1) obtain inp where src: "read_sources co env dotenv = Inr inp"
    and val: "validate_settings co inp = Inr s"
    by (auto simp: load_settings_def split: sum.splits)
  note sc = read_sources_scalar [OF src]
  from val show ?thesis
    by (rule validate_settings_Inr)
      (use assms(2,3) in \<open>auto simp: sc validated_def scalar_input_def\<close>)
qed

subsection \<open>Properties\<close>



end
