(* ===== verification/Logging.thy ===== *)
theory Logging
  imports Settings
begin

section \<open>Logging configuration (\<open>core/logging.py\<close>)\<close>

text \<open>
  \<open>configure_logging\<close> as a function of the logging state of the process: what \<open>structlog.configure\<close> was last given, the handlers
  and level of the root logger, and the levels of the named loggers.  The processors of structlog are their names; whether
  standard error is a terminal is the argument \<open>tty\<close>.
\<close>

datatype renderer = JSONRenderer | ConsoleRenderer bool

datatype processor = Named string | Render renderer

record structlog_config =
  sl_processors :: "processor list"
  sl_cache_logger_on_first_use :: bool

record log_formatter =
  lf_processors :: "processor list"
  lf_foreign_pre_chain :: "processor list"

record log_handler =
  lh_stream :: string
  lh_formatter :: log_formatter

record logging_state =
  ls_structlog :: "structlog_config option"
  ls_root_handlers :: "log_handler list"
  ls_root_level :: int
  ls_levels :: "string \<rightharpoonup> int"

definition SHARED_PROCESSORS :: "processor list" where
  "SHARED_PROCESSORS =
     map Named [''merge_contextvars'', ''add_log_level'', ''add_logger_name'', ''TimeStamper'', ''StackInfoRenderer'',
       ''format_exc_info'']"

definition configure_logging :: "bool \<Rightarrow> settings \<Rightarrow> logging_state \<Rightarrow> logging_state" where
  "configure_logging tty s st =
     (let renderer = (if is_prod s then JSONRenderer else ConsoleRenderer tty);
          st = st\<lparr>ls_structlog := Some
            \<lparr>sl_processors = SHARED_PROCESSORS @ [Named ''wrap_for_formatter''], sl_cache_logger_on_first_use = True\<rparr>\<rparr>;
          formatter =
            \<lparr>lf_processors = [Named ''remove_processors_meta'', Render renderer], lf_foreign_pre_chain = SHARED_PROCESSORS\<rparr>;
          handler = \<lparr>lh_stream = ''stdout'', lh_formatter = formatter\<rparr>;
          st = st\<lparr>ls_root_handlers := []\<rparr>;
          st = st\<lparr>ls_root_handlers := ls_root_handlers st @ [handler]\<rparr>;
          st = st\<lparr>ls_root_level := (if \<not> is_prod s then 10 else 20)\<rparr>
      in fold (\<lambda>noisy st. st\<lparr>ls_levels := (ls_levels st)(noisy \<mapsto> 30)\<rparr>) [''uvicorn.access'', ''botocore'', ''asyncio''] st)"

text \<open>
  Configuring twice is configuring once, with the last settings: exactly one handler, which renders JSON in production and
  only there, whatever was configured before; loggers it does not name keep their level.
\<close>

lemma configure_logging_again:
  "configure_logging tty s (configure_logging tty' s' st) = configure_logging tty s st"
  by (simp add: configure_logging_def Let_def fun_upd_twist)

lemma configure_logging_one_handler:
  "\<exists>h. ls_root_handlers (configure_logging tty s st) = [h] \<and>
     (Render JSONRenderer \<in> set (lf_processors (lh_formatter h)) \<longleftrightarrow> is_prod s)"
  by (simp add: configure_logging_def Let_def)

lemma configure_logging_other_levels:
  "n \<notin> {''uvicorn.access'', ''botocore'', ''asyncio''} \<Longrightarrow> ls_levels (configure_logging tty s st) n = ls_levels st n"
  by (simp add: configure_logging_def Let_def)

end
