(* ===== verification/Startup.thy ===== *)
theory Startup
  imports Processes Deployment Logging
begin

section \<open>The processes from their environment (\<open>worker/__main__.py\<close>, \<open>worker/runner.py\<close>, \<open>api/app.py\<close>)\<close>

text \<open>
  What starts the two processes: \<open>Settings()\<close> from the environment and the file \<open>.env\<close>, the configuration of
  logging, and then the worker or the lifespan of the API.  The state is the world of \<open>Processes\<close> with the
  logging state of the process; what ends a start is an exception of the settings (\<open>Inl\<close>) or of what runs after them
  (\<open>Inr\<close>).  What \<open>asyncio.run\<close> does when the coroutine has ended, whatever its result (cancel what is left, shut the
  loop's default executor down), is the parameter \<open>close_loop\<close>.
\<close>

type_synonym ('w, 'a) start = "(load_error + exn, 'w \<times> logging_state, 'a) eff"

definition started :: "('w, 'a) io \<Rightarrow> ('w, 'a) start" where
  "started m st = (case m (fst st) of (r, w) \<Rightarrow> (map_sum Inr id r, (w, snd st)))"

definition started_run :: "(exn, 'w, 'a) run \<Rightarrow> (load_error + exn, 'w \<times> logging_state, 'a) run" where
  "started_run m st = map_option (\<lambda>(r, w). (map_sum Inr id r, (w, snd st))) (m (fst st))"

definition environment_settings :: "coercions \<Rightarrow> variables \<Rightarrow> variables \<Rightarrow> ('w, settings) start" where
  "environment_settings co env dotenv = liftE (map_sum Inl id (load_settings co env dotenv))"

definition logging_configured :: "bool \<Rightarrow> settings \<Rightarrow> ('w, unit) start" where
  "logging_configured tty s = modifyE (\<lambda>(w, logs). (w, configure_logging tty s logs))"

subsection \<open>The worker\<close>

definition runner_main ::
  "coercions \<Rightarrow> variables \<Rightarrow> variables \<Rightarrow> bool \<Rightarrow> ('q, 'd, 'x) platform \<Rightarrow> string \<Rightarrow> ('x \<Rightarrow> bool) \<Rightarrow>
   (('q, 'd, fake_store \<times> 'x) cstate \<Rightarrow> ('q, 'd, fake_store \<times> 'x) cstate) \<Rightarrow> nat \<Rightarrow>
   (load_error + exn, ('q \<times> 'd \<times> 'x) \<times> logging_state, unit) run" where
  "runner_main co env dotenv tty P name stop sw n =
     run_after (environment_settings co env dotenv) (\<lambda>settings.
     run_after (logging_configured tty settings) (\<lambda>u.
     started_run (worker_main P settings name stop sw n)))"

definition worker_process ::
  "(('q \<times> 'd \<times> 'x) \<times> logging_state \<Rightarrow> ('q \<times> 'd \<times> 'x) \<times> logging_state) \<Rightarrow>
   coercions \<Rightarrow> variables \<Rightarrow> variables \<Rightarrow> bool \<Rightarrow> ('q, 'd, 'x) platform \<Rightarrow> string \<Rightarrow> ('x \<Rightarrow> bool) \<Rightarrow>
   (('q, 'd, fake_store \<times> 'x) cstate \<Rightarrow> ('q, 'd, fake_store \<times> 'x) cstate) \<Rightarrow> nat \<Rightarrow>
   (load_error + exn, ('q \<times> 'd \<times> 'x) \<times> logging_state, unit) run" where
  "worker_process close_loop co env dotenv tty P name stop sw n =
     run_finally (runner_main co env dotenv tty P name stop sw n) close_loop"

subsection \<open>The API\<close>

text \<open>
  \<open>create_app(settings, container=container)\<close>: the settings it passes on are only read from the environment when neither is
  given.  The lifespan configures logging when it owns the container.
\<close>

definition app_settings ::
  "coercions \<Rightarrow> variables \<Rightarrow> variables \<Rightarrow> settings option \<Rightarrow> 'c option \<Rightarrow> ('w, settings option) start" where
  "app_settings co env dotenv settings container =
     (if container = None \<and> settings = None
      then bindE (environment_settings co env dotenv) (\<lambda>s. ret (Some s)) else ret settings)"

definition app_lifespan ::
  "bool \<Rightarrow> ('q, 'd, 'x) platform \<Rightarrow> settings option \<Rightarrow> ('q, 'd, 'x) container option \<Rightarrow>
   (('q, 'd, 'x) container \<Rightarrow> ('q, 'd, 'x, 'a) process_io) \<Rightarrow> ('q \<times> 'd \<times> 'x, 'a) start" where
  "app_lifespan tty P settings container body =
     (case container of
        None \<Rightarrow> bindE (logging_configured tty (the settings)) (\<lambda>u. started (lifespan P (the settings) None body))
      | Some injected \<Rightarrow> started (body injected))"

definition api_process ::
  "coercions \<Rightarrow> variables \<Rightarrow> variables \<Rightarrow> bool \<Rightarrow> ('q, 'd, 'x) platform \<Rightarrow> settings option \<Rightarrow> ('q, 'd, 'x) container option \<Rightarrow>
   (('q, 'd, 'x) container \<Rightarrow> ('q, 'd, 'x, 'a) process_io) \<Rightarrow> ('q \<times> 'd \<times> 'x, 'a) start" where
  "api_process co env dotenv tty P settings container body =
     bindE (app_settings co env dotenv settings container) (\<lambda>settings.
     app_lifespan tty P settings container body)"

subsection \<open>Lemmas\<close>

lemma runner_main_run:
  "runner_main co env dotenv tty P name stop sw n (w, logs) =
     (case load_settings co env dotenv of
        Inl e \<Rightarrow> Some (Inl (Inl e), (w, logs))
      | Inr s \<Rightarrow> map_option (\<lambda>(r, w'). (map_sum Inr id r, (w', configure_logging tty s logs))) (worker_main P s name stop sw n w))"
  by (simp add: runner_main_def run_after_def environment_settings_def logging_configured_def started_run_def liftE_def modifyE_def
      split: sum.split)

text \<open>Both processes make their container of the same settings, and an injected container needs none.\<close>

lemma api_process_own:
  "api_process co env dotenv tty P None None body (w, logs) =
     (case load_settings co env dotenv of
        Inl e \<Rightarrow> (Inl (Inl e), (w, logs))
      | Inr s \<Rightarrow> (case lifespan P s None body w of (r, w') \<Rightarrow> (map_sum Inr id r, (w', configure_logging tty s logs))))"
  by (simp add: api_process_def app_settings_def app_lifespan_def environment_settings_def logging_configured_def
      started_def eff_defs split: sum.split prod.split)

lemma api_process_injected:
  "api_process co env dotenv tty P settings (Some c) body (w, logs) =
     (case body c w of (r, w') \<Rightarrow> (map_sum Inr id r, (w', logs)))"
  by (simp add: api_process_def app_settings_def app_lifespan_def started_def eff_defs split: prod.split)

text \<open>The logging state of a process that has just started: a root logger at \<open>WARNING\<close> without handlers.\<close>

definition unconfigured :: logging_state where
  "unconfigured = \<lparr>ls_structlog = None, ls_root_handlers = [], ls_root_level = 30, ls_levels = (\<lambda>name. None)\<rparr>"

subsection \<open>Properties\<close>



end
