(* ===== verification/Interleaving.thy ===== *)
theory Interleaving
  imports Lifecycle
begin

section \<open>Workers that interleave\<close>

text \<open>
  \<open>Lifecycle\<close> handles one delivery as one step.  Here a delivery is the sequence of its awaits: a \<open>coroutine\<close> (a task) is what
  is left to do of a call of \<open>_process_and_route\<close>, one constructor for each call that leaves the coroutine (the two
  transactions of the repository, the clocks, the pipeline, the commands to Redis) with what follows for each
  outcome.  \<open>route_task\<close> is the code of \<open>route\<close> in that form; \<open>perform\<close> runs a task alone, and the lemma
  \<open>perform_route_task\<close> says that this is \<open>route\<close>.

  In the step relation \<open>interleaved\<close> any number of tasks, of any workers, take turns at every await.  What
  the clocks, the pipelines and Redis answer is left open; the store is a lawful session.  The flag says whether a
  delivery of a job may begin while a task may still access the row of the same job.
\<close>

subsection \<open>Tasks\<close>

datatype command = Ack wire | Republish job_message | DeadLetter job_message string

datatype coroutine =
    Finished "exn + unit"
  | Fetch uuid "exn + inference_job option \<Rightarrow> coroutine"
  | Put inference_job "exn + unit \<Rightarrow> coroutine"
  | Clock "int \<Rightarrow> coroutine"
  | Timer "rat \<Rightarrow> coroutine"
  | Pipe inference_job "exn + string \<Rightarrow> coroutine"
  | Command command "exn + unit \<Rightarrow> coroutine"

text \<open>\<open>process\<close> with what follows it.\<close>

definition process_task :: "uuid \<Rightarrow> (exn + unit \<Rightarrow> coroutine) \<Rightarrow> coroutine" where
  "process_task job_id k =
     Fetch job_id (\<lambda>found. case found of
       Inl e \<Rightarrow> k (Inl e)
     | Inr None \<Rightarrow> k (Inr ())
     | Inr (Some job) \<Rightarrow>
         if is_terminal job then k (Inr ())
         else Clock (\<lambda>now. case mark_running now job of
           Inl e \<Rightarrow> k (Inl e)
         | Inr job \<Rightarrow> Put job (\<lambda>r. case r of
             Inl e \<Rightarrow> k (Inl e)
           | Inr u \<Rightarrow> Timer (\<lambda>started. Pipe job (\<lambda>r. case r of
               Inl e \<Rightarrow> k (Inl e)
             | Inr result_ref \<Rightarrow> Timer (\<lambda>ended. Clock (\<lambda>now.
                 case mark_success result_ref (Some (elapsed_ms started ended)) now job of
                   Inl e \<Rightarrow> k (Inl e)
                 | Inr job \<Rightarrow> Put job k)))))))"

text \<open>\<open>_requeue_row\<close> and \<open>_mark_failed\<close>: read, make a transition, write.\<close>

definition transition_task :: "(int \<Rightarrow> inference_job \<Rightarrow> exn + inference_job) \<Rightarrow> uuid \<Rightarrow> (exn + unit \<Rightarrow> coroutine) \<Rightarrow> coroutine" where
  "transition_task transition job_id k =
     Fetch job_id (\<lambda>found. case found of
       Inl e \<Rightarrow> k (Inl e)
     | Inr None \<Rightarrow> k (Inr ())
     | Inr (Some job) \<Rightarrow>
         Clock (\<lambda>now. case transition now job of
           Inl e \<Rightarrow> k (Inl e)
         | Inr job \<Rightarrow> Put job k))"

definition then_task :: "(unit \<Rightarrow> coroutine) \<Rightarrow> exn + unit \<Rightarrow> coroutine" where
  "then_task k r = (case r of Inl e \<Rightarrow> Finished (Inl e) | Inr u \<Rightarrow> k u)"

definition dead_task :: "wire \<Rightarrow> job_message \<Rightarrow> string \<Rightarrow> string \<Rightarrow> coroutine" where
  "dead_task message_id message reason error =
     Command (DeadLetter message reason) (then_task (\<lambda>u.
     Command (Ack message_id) (then_task (\<lambda>u.
     transition_task (mark_failed error None) (m_job_id message) Finished))))"

definition failure_task :: "int \<Rightarrow> wire \<Rightarrow> job_message \<Rightarrow> exn \<Rightarrow> coroutine" where
  "failure_task max_attempts message_id message exc =
     (if is_transient exc then
        (if max_attempts \<le> m_attempt message
         then dead_task message_id message
           (''transient, attempts exhausted ('' @ py_str_int (m_attempt message) @ ''): '' @ exn_str exc)
           (''exhausted after '' @ py_str_int (m_attempt message) @ '': '' @ exn_str exc)
         else
           transition_task requeue (m_job_id message) (then_task (\<lambda>u.
           Command (Republish (next_attempt message)) (then_task (\<lambda>u.
           Command (Ack message_id) Finished)))))
      else if is_permanent exc then dead_task message_id message (''permanent: '' @ exn_str exc) (exn_str exc)
      else dead_task message_id message (''unexpected: '' @ exn_repr exc) (exn_repr exc))"

definition route_task :: "int \<Rightarrow> wire \<Rightarrow> job_message \<Rightarrow> coroutine" where
  "route_task max_attempts message_id message =
     Fetch (m_job_id message) (\<lambda>found. case found of
       Inl e \<Rightarrow> Finished (Inl e)
     | Inr job \<Rightarrow>
         if case job of None \<Rightarrow> True | Some job \<Rightarrow> is_terminal job then Command (Ack message_id) Finished
         else process_task (m_job_id message) (\<lambda>r. case r of
           Inl exc \<Rightarrow> failure_task max_attempts message_id message exc
         | Inr u \<Rightarrow> Command (Ack message_id) Finished))"

subsection \<open>A task alone\<close>

definition outcome :: "('s, 'a) io \<Rightarrow> ('s, exn + 'a) io" where
  "outcome m s = (case m s of (r, s') \<Rightarrow> (Inr r, s'))"

fun run_command :: "('r, 'd, 'x) consumer \<Rightarrow> command \<Rightarrow> ('r, unit) io" where
  "run_command c (Ack message_id) = ack c message_id"
| "run_command c (Republish message) = bindE (republish (co_producer c) message) (\<lambda>i. ret ())"
| "run_command c (DeadLetter message reason) = bindE (dead_letter (co_producer c) message reason) (\<lambda>i. ret ())"

primrec perform :: "('r, 'd, 'x) consumer \<Rightarrow> 'x externals \<Rightarrow> coroutine \<Rightarrow> ('r \<times> 'd \<times> 'x, unit) io" where
  "perform c ext (Finished r) = liftE r"
| "perform c ext (Fetch i k) = bindE (on_snd (on_fst (outcome (get_or_none (co_repo c) i)))) (\<lambda>r. perform c ext (k r))"
| "perform c ext (Put j k) = bindE (on_snd (on_fst (outcome (rp_update (co_repo c) j)))) (\<lambda>r. perform c ext (k r))"
| "perform c ext (Clock k) = bindE (on_snd (on_snd (read_clock (utcnow ext)))) (\<lambda>t. perform c ext (k t))"
| "perform c ext (Timer k) = bindE (on_snd (on_snd (read_clock (monotonic ext)))) (\<lambda>t. perform c ext (k t))"
| "perform c ext (Pipe j k) = bindE (on_snd (on_snd (outcome (run_pipeline ext j)))) (\<lambda>r. perform c ext (k r))"
| "perform c ext (Command a k) = bindE (on_fst (outcome (run_command c a))) (\<lambda>r. perform c ext (k r))"

lemmas io_defs = eff_defs on_fst_def on_snd_def outcome_def read_clock_def

lemma perform_process_task:
  "perform c ext (process_task i k) =
     bindE (on_snd (outcome (process (co_repo c) ext i n))) (\<lambda>r. perform c ext (k r))"
  by (rule ext) (auto simp: process_task_def process_def start_job_def finish_job_def io_defs
      split: prod.splits sum.splits option.splits)


definition row_step ::
  "('r, 'd, 'x) consumer \<Rightarrow> 'x externals \<Rightarrow> (int \<Rightarrow> inference_job \<Rightarrow> exn + inference_job) \<Rightarrow> uuid \<Rightarrow> ('d \<times> 'x, unit) io" where
  "row_step c ext transition i =
     bindE (on_fst (get_or_none (co_repo c) i)) (\<lambda>job.
       case job of
         None \<Rightarrow> ret ()
       | Some job \<Rightarrow>
           bindE (on_snd (read_clock (utcnow ext))) (\<lambda>now.
           bindE (liftE (transition now job)) (\<lambda>job.
           on_fst (rp_update (co_repo c) job))))"

lemma perform_transition_task:
  "perform c ext (transition_task transition i k) =
     bindE (on_snd (outcome (row_step c ext transition i))) (\<lambda>r. perform c ext (k r))"
  by (rule ext) (auto simp: transition_task_def row_step_def io_defs split: prod.splits sum.splits option.splits)

lemma perform_then_task:
  "perform c ext (then_task k r) = bindE (liftE r) (\<lambda>u. perform c ext (k u))"
  by (rule ext) (auto simp: then_task_def io_defs split: sum.splits)

text \<open>Going on with the outcome of a call is going on with its result, an exception passing by.\<close>

lemma bind_outcome_lift:
  "bindE (on_snd (outcome m)) (\<lambda>r. bindE (liftE r) f) = bindE (on_snd m) f"
  "bindE (on_fst (outcome m')) (\<lambda>r. bindE (liftE r) f') = bindE (on_fst m') f'"
  by (rule ext, auto simp: io_defs split: prod.splits sum.splits)+

lemma bind_outcome_end:
  "bindE (on_snd (outcome m)) liftE = on_snd m" "bindE (on_fst (outcome m')) liftE = on_fst m'"
  by (rule ext, auto simp: io_defs split: prod.splits sum.splits)+

lemma bind_no_result: "bindE (on_fst (bindE m (\<lambda>i. ret ()))) f = bindE (on_fst m) (\<lambda>i. f ())"
  by (rule ext) (auto simp: io_defs split: prod.splits sum.splits)

lemma perform_dead_task:
  assumes "co_utcnow c = utcnow ext"
  shows "perform c ext (dead_task i m reason error) =
    bindE (on_fst (route_to_dlq c i m reason)) (\<lambda>u. on_snd (mark_failed_row c m error))"
proof -
  have "mark_failed_row c m error = row_step c ext (mark_failed error None) (m_job_id m)"
    unfolding mark_failed_row_def row_step_def assms ..
  then show ?thesis
    by (simp add: dead_task_def perform_then_task perform_transition_task bind_outcome_lift bind_no_result route_to_dlq_def
        fun_eq_iff) (auto simp: io_defs split: prod.splits sum.splits)
qed

lemma perform_failure_task:
  assumes "co_utcnow c = utcnow ext"
  shows "perform c ext (failure_task (co_max_attempts c) i m exc) = route_failure c i m exc"
proof -
  have "requeue_row c m = row_step c ext requeue (m_job_id m)"
    unfolding requeue_row_def row_step_def assms ..
  then show ?thesis
    by (simp add: failure_task_def route_failure_def on_transient_def perform_dead_task [OF assms] perform_then_task
        perform_transition_task bind_outcome_lift bind_outcome_end bind_no_result)
qed

lemma perform_route_task:
  assumes "co_process c = processor_call (co_repo c) ext" and "co_utcnow c = utcnow ext"
  shows "perform c ext (route_task (co_max_attempts c) i m) = route c i m"
proof -
  note [simp] = perform_failure_task [OF assms(2)] perform_process_task [where n = "m_attempt m"]
  show ?thesis
    by (rule ext) (auto simp: route_task_def route_def already_terminal_def assms(1) processor_call_def io_defs
        split: prod.splits sum.splits option.splits)
qed


subsection \<open>Tasks that take turns\<close>

inductive answered :: "coroutine \<Rightarrow> coroutine \<Rightarrow> bool" where
  clock: "answered (Clock k) (k now)"
| timer: "answered (Timer k) (k now)"
| pipe: "answered (Pipe job k) (k result)"
| command: "answered (Command a k) (k reply)"

inductive task_step :: "'d session \<Rightarrow> 'd \<times> coroutine \<Rightarrow> 'd \<times> coroutine \<Rightarrow> bool" for sess where
  fetched: "get_or_none (sql_repository sess) i d = (r, d') \<Longrightarrow> task_step sess (d, Fetch i k) (d', k r)"
| written: "rp_update (sql_repository sess) j d = (r, d') \<Longrightarrow> task_step sess (d, Put j k) (d', k r)"
| passed: "answered p p' \<Longrightarrow> task_step sess (d, p) (d, p')"

text \<open>A task that accesses no row any more: what is left are commands to Redis.\<close>

primrec idle :: "coroutine \<Rightarrow> bool" where
  "idle (Finished r) = True"
| "idle (Fetch i k) = False"
| "idle (Put j k) = False"
| "idle (Clock k) = (\<forall>t. idle (k t))"
| "idle (Timer k) = (\<forall>t. idle (k t))"
| "idle (Pipe j k) = (\<forall>r. idle (k r))"
| "idle (Command a k) = (\<forall>r. idle (k r))"

text \<open>
  A state is the database and the tasks, each with the job it is about.  A task takes a turn; its worker dies; a
  message is delivered; a job is submitted, under a new identifier; something else happens to the database.
\<close>

type_synonym tasks = "(uuid \<times> coroutine) list"

inductive interleaved ::
  "'d session \<Rightarrow> ('d \<Rightarrow> uuid \<rightharpoonup> job_row) \<Rightarrow> bool \<Rightarrow> 'd \<times> tasks \<Rightarrow> 'd \<times> tasks \<Rightarrow> bool" for sess rows exclusive where
  turn: "task_step sess (d, p) (d', p') \<Longrightarrow> interleaved sess rows exclusive (d, xs @ (i, p) # ys) (d', xs @ (i, p') # ys)"
| crash: "interleaved sess rows exclusive (d, xs @ (i, p) # ys) (d, xs @ ys)"
| delivery: "exclusive \<longrightarrow> (\<forall>p. (m_job_id m, p) \<in> set ts \<longrightarrow> idle p) \<Longrightarrow>
    interleaved sess rows exclusive (d, ts) (d, (m_job_id m, route_task max_attempts message_id m) # ts)"
| submission: "rp_add (sql_repository sess) (job_new ty payload i created_at updated_at) d = (r, d') \<Longrightarrow>
    i \<notin> fst ` set ts \<Longrightarrow> interleaved sess rows exclusive (d, ts) (d', ts)"
| elsewhere: "stored rows d' = stored rows d \<Longrightarrow> interleaved sess rows exclusive (d, ts) (d', ts)"

subsection \<open>What a step does to the store\<close>

lemma fetch_stored:
  assumes "sqlalchemy_session sess rows" and "get_or_none (sql_repository sess) i d = (r, d')"
  shows "stored rows d' = stored rows d \<and> (\<forall>v. r = Inr v \<longrightarrow> v = stored rows d i)"
proof -
  have "wpE (get_or_none (sql_repository sess) i) (\<lambda>v d'. stored rows d' = stored rows d \<and> v = stored rows d i)
      (\<lambda>e d'. stored rows d' = stored rows d) d"
    by (rule job_repository.wp_load [OF sql_job_repository [OF assms(1)] refl]) auto
  with assms(2) show ?thesis by (auto simp: wpE_def split: sum.splits)
qed

lemma task_stepE:
  assumes "sqlalchemy_session sess rows" and "task_step sess (d, p) (d', p')"
  obtains (fetched) i k r where "p = Fetch i k" and "p' = k r" and "stored rows d' = stored rows d"
      and "\<And>v. r = Inr v \<Longrightarrow> v = stored rows d i"
  | (refused) j k e where "p = Put j k" and "p' = k (Inl e)" and "stored rows d' = stored rows d"
  | (written) j k where "p = Put j k" and "p' = k (Inr ())" and "stored rows d' = (stored rows d)(j_id j \<mapsto> j)"
  | (passed) "answered p p'" and "stored rows d' = stored rows d"
  using assms(2)
proof cases
  case (fetched i r k)
  then show ?thesis using fetch_stored [OF assms(1) fetched(3)] that(1) by blast
next
  case (written j r k)
  then show ?thesis
    using job_repository.update_law [OF sql_job_repository [OF assms(1)] written(3)] that(2,3)
    by (cases r) auto
next
  case passed
  then show ?thesis using that(4) by blast
qed

lemma answered_idle: "answered p p' \<Longrightarrow> idle p \<Longrightarrow> idle p'"
  by (induction rule: answered.induct) auto

lemma task_step_idle: "task_step sess (d, p) (d', p') \<Longrightarrow> idle p \<Longrightarrow> idle p'"
  by (erule task_step.cases) (auto dest: answered_idle)

subsection \<open>Whatever the interleaving\<close>

text \<open>
  A task for the job \<open>i\<close> accesses no other row, and writes entities that satisfy \<open>P\<close> if it reads such.
\<close>

primrec writes :: "(inference_job \<Rightarrow> bool) \<Rightarrow> uuid \<Rightarrow> coroutine \<Rightarrow> bool" where
  "writes P i (Finished r) = True"
| "writes P i (Fetch i' k) = (i' = i \<and> (\<forall>r. (\<forall>j. r = Inr (Some j) \<longrightarrow> P j) \<longrightarrow> writes P i (k r)))"
| "writes P i (Put j k) = (P j \<and> (\<forall>r. writes P i (k r)))"
| "writes P i (Clock k) = (\<forall>t. writes P i (k t))"
| "writes P i (Timer k) = (\<forall>t. writes P i (k t))"
| "writes P i (Pipe j k) = (\<forall>r. writes P i (k r))"
| "writes P i (Command a k) = (\<forall>r. writes P i (k r))"

lemma answered_writes: "answered p p' \<Longrightarrow> writes P i p \<Longrightarrow> writes P i p'"
  by (induction rule: answered.induct) auto

lemma writes_rules:
  "(\<And>r. (\<And>j. r = Inr (Some j) \<Longrightarrow> P j) \<Longrightarrow> writes P i (k r)) \<Longrightarrow> writes P i (Fetch i k)"
  "P j \<Longrightarrow> (\<And>r. writes P i (k' r)) \<Longrightarrow> writes P i (Put j k')"
  "(\<And>t. writes P i (kc t)) \<Longrightarrow> writes P i (Clock kc)"
  "(\<And>t. writes P i (kt t)) \<Longrightarrow> writes P i (Timer kt)"
  "(\<And>r. writes P i (kp r)) \<Longrightarrow> writes P i (Pipe j kp)"
  "(\<And>r. writes P i (k' r)) \<Longrightarrow> writes P i (Command a k')"
  "writes P i (Finished r')"
  by simp_all

lemma writes_cases:
  "(\<And>e. r = Inl e \<Longrightarrow> writes P i (f e)) \<Longrightarrow> (\<And>x. r = Inr x \<Longrightarrow> writes P i (g x)) \<Longrightarrow>
     writes P i (case r of Inl e \<Rightarrow> f e | Inr x \<Rightarrow> g x)"
  "(v = None \<Longrightarrow> writes P i p) \<Longrightarrow> (\<And>x. v = Some x \<Longrightarrow> writes P i (h x)) \<Longrightarrow>
     writes P i (case v of None \<Rightarrow> p | Some x \<Rightarrow> h x)"
  "(b \<Longrightarrow> writes P i p) \<Longrightarrow> (\<not> b \<Longrightarrow> writes P i q) \<Longrightarrow> writes P i (if b then p else q)"
  by (auto split: sum.split option.split)

lemma writes_then: "(\<And>u. writes P i (k u)) \<Longrightarrow> writes P i (then_task k r)"
  by (simp add: then_task_def split: sum.split)

lemmas writes_intros = writes_rules writes_cases writes_then

locale closed_under_transitions =
  fixes P :: "inference_job \<Rightarrow> bool"
  assumes closed: "P j \<Longrightarrow> apply_op op j = Inr j' \<Longrightarrow> P j'"
begin

lemma process_writes:
  assumes "\<And>r. writes P i (k r)"
  shows "writes P i (process_task i k)"
proof -
  have "P j'" if "P j" "mark_running t j = Inr j'" for t j j' using closed [OF that(1), of "MarkRunning t"] that by simp
  moreover have "P j'" if "P j" "mark_success ref dur t j = Inr j'" for ref dur t j j'
    using closed [OF that(1), of "MarkSuccess ref dur t"] that by simp
  ultimately show ?thesis
    unfolding process_task_def by (intro writes_intros assms) blast+
qed

lemma transition_writes:
  assumes "\<And>t j. \<exists>op. tr t j = apply_op op j" and "\<And>r. writes P i (k r)"
  shows "writes P i (transition_task tr i k)"
proof -
  have "P j'" if "P j" "tr t j = Inr j'" for t j j' using assms(1) [of t j] closed that by metis
  then show ?thesis unfolding transition_task_def by (intro writes_intros assms(2)) blast+
qed

lemma dead_writes: "writes P (m_job_id m) (dead_task w m reason error)"
proof -
  have "\<exists>op. mark_failed error None t j = apply_op op j" for t j by (rule exI [of _ "MarkFailed error None t"]) simp
  then show ?thesis unfolding dead_task_def by (intro writes_intros transition_writes)
qed

lemma failure_writes: "writes P (m_job_id m) (failure_task n w m exc)"
proof -
  have "\<exists>op. requeue t j = apply_op op j" for t j by (rule exI [of _ "Requeue t"]) simp
  then show ?thesis unfolding failure_task_def by (intro writes_intros dead_writes transition_writes)
qed

lemma route_writes: "writes P (m_job_id m) (route_task n w m)"
  unfolding route_task_def by (intro writes_intros process_writes failure_writes)

end


text \<open>What a submission fixes of a job, and the jobs with the id \<open>i\<close> and the identity \<open>b\<close> that have a history.\<close>

datatype identity = Identity job_type pydict int

definition identity :: "inference_job \<Rightarrow> identity" where
  "identity j = Identity (j_type j) (j_payload j) (j_created_at j)"

definition has_history :: "uuid \<Rightarrow> inference_job \<Rightarrow> bool" where
  "has_history i j \<longleftrightarrow> (\<exists>ty payload c u ops. j = run_ops ops (job_new ty payload i c u))"

definition same_job :: "uuid \<Rightarrow> identity \<Rightarrow> inference_job \<Rightarrow> bool" where
  "same_job i b j \<longleftrightarrow> has_history i j \<and> identity j = b"

lemma has_historyD: "has_history i j \<Longrightarrow> j_id j = i \<and> job_ok j"
  by (auto simp: has_history_def run_ops_id job_new_def intro!: run_ops_ok job_new_ok [unfolded job_new_def])

lemma has_history_op:
  assumes "has_history i j" and "apply_op op j = Inr j'"
  shows "has_history i j'"
proof -
  from assms(1) obtain ty payload c u ops where "j = run_ops ops (job_new ty payload i c u)"
    unfolding has_history_def by blast
  with assms(2) have "j' = run_ops (ops @ [op]) (job_new ty payload i c u)" by (simp add: run_ops_append after_op_def)
  then show ?thesis unfolding has_history_def by blast
qed

interpretation same: closed_under_transitions "same_job i b" for i b
  by unfold_locales (auto simp: same_job_def identity_def apply_op_frame intro: has_history_op)

lemma new_has_history: "has_history i (job_new ty payload i c u)"
  unfolding has_history_def by (metis run_ops.simps(1))

text \<open>
  The invariant: every row has a history, and every task writes its own job with the identity its row has; while there is
  no row it writes none.
\<close>

definition rows_sound :: "(uuid \<rightharpoonup> inference_job) \<Rightarrow> tasks \<Rightarrow> bool" where
  "rows_sound js ts \<longleftrightarrow>
     (\<forall>i j. js i = Some j \<longrightarrow> has_history i j) \<and>
     (\<forall>(i, p) \<in> set ts. \<forall>b. (\<forall>j. js i = Some j \<longrightarrow> identity j = b) \<longrightarrow> writes (same_job i b) i p)"

definition keeps_identity :: "(uuid \<rightharpoonup> inference_job) \<Rightarrow> (uuid \<rightharpoonup> inference_job) \<Rightarrow> bool" where
  "keeps_identity js js' \<longleftrightarrow> (\<forall>i j. js i = Some j \<longrightarrow> (\<exists>j'. js' i = Some j' \<and> identity j' = identity j))"

lemma keeps_identity_refl: "keeps_identity js js"
  by (simp add: keeps_identity_def)

lemma keeps_identity_trans: "keeps_identity a b \<Longrightarrow> keeps_identity b c \<Longrightarrow> keeps_identity a c"
  unfolding keeps_identity_def by metis

lemma rows_soundD: "rows_sound js ts \<Longrightarrow> js i = Some j \<Longrightarrow> has_history i j"
  by (simp add: rows_sound_def)

lemma rows_sound_task:
  "rows_sound js (xs @ (i, p) # ys) \<Longrightarrow> (\<And>j. js i = Some j \<Longrightarrow> identity j = b) \<Longrightarrow> writes (same_job i b) i p"
  by (auto simp: rows_sound_def)

lemma rows_sound_replace:
  assumes "rows_sound js (xs @ (i, p) # ys)"
    and "\<And>b. (\<And>j. js i = Some j \<Longrightarrow> identity j = b) \<Longrightarrow> writes (same_job i b) i p'"
  shows "rows_sound js (xs @ (i, p') # ys)"
  using assms by (auto simp: rows_sound_def)

text \<open>A write of a task replaces a row by an entity of the same identity.\<close>

lemma rows_sound_write:
  assumes sound: "rows_sound js (xs @ (i, Put j k) # ys)"
  shows "\<exists>old. js i = Some old \<and> identity j = identity old \<and> has_history i j \<and>
    rows_sound (js(i \<mapsto> j)) (xs @ (i, k r) # ys)"
proof -
  have put: "same_job i b j" if "\<And>x. js i = Some x \<Longrightarrow> identity x = b" for b
    using rows_sound_task [OF sound that] by simp
  obtain old where old: "js i = Some old"
  proof (cases "js i")
    case None
    with put [of "Identity RAG_QUERY [] 0"] put [of "Identity RAG_QUERY [] 1"] have False by (simp add: same_job_def)
    then show ?thesis ..
  qed
  with put [of "identity old"] have new: "identity j = identity old" "has_history i j" by (simp_all add: same_job_def)
  have seen: "identity x = b" if "js n = Some x" "\<And>y. (js(i \<mapsto> j)) n = Some y \<Longrightarrow> identity y = b" for n x b
    using that old new by (cases "n = i") auto
  have now: "rows_sound (js(i \<mapsto> j)) (xs @ (i, Put j k) # ys)"
    unfolding rows_sound_def
  proof (intro conjI ballI allI impI)
    show "has_history n x" if "(js(i \<mapsto> j)) n = Some x" for n x
      using that rows_soundD [OF sound, of n x] new by (cases "n = i") auto
    show "case t of (n, p) \<Rightarrow> \<forall>b. (\<forall>y. (js(i \<mapsto> j)) n = Some y \<longrightarrow> identity y = b) \<longrightarrow> writes (same_job n b) n p"
      if "t \<in> set (xs @ (i, Put j k) # ys)" for t
      using that sound seen unfolding rows_sound_def by blast
  qed
  have "rows_sound (js(i \<mapsto> j)) (xs @ (i, k r) # ys)"
  proof (rule rows_sound_replace [OF now])
    show "writes (same_job i b) i (k r)" if "\<And>y. (js(i \<mapsto> j)) i = Some y \<Longrightarrow> identity y = b" for b
      using rows_sound_task [OF now that] by simp
  qed
  with old new show ?thesis by blast
qed

lemma interleaved_sound:
  assumes sess: "sqlalchemy_session sess rows" and step: "interleaved sess rows exclusive (d, ts) (d', ts')"
    and sound: "rows_sound (stored rows d) ts"
  shows "rows_sound (stored rows d') ts' \<and> keeps_identity (stored rows d) (stored rows d')"
  using step
proof cases
  case (turn p p' xs i ys)
  note sound' = sound [unfolded turn(1)]
  show ?thesis
  using sess turn(3)
  proof (cases rule: task_stepE)
    case (fetched i' k r)
    have "writes (same_job i b) i p'" if b: "\<And>j. stored rows d i = Some j \<Longrightarrow> identity j = b" for b
    proof -
      have w: "writes (same_job i b) i (Fetch i' k)" using rows_sound_task [OF sound' b] fetched by simp
      have "same_job i b j" if "r = Inr (Some j)" for j
        using fetched(4) [OF that] w b rows_soundD [OF sound', of i j] by (simp add: same_job_def)
      with w fetched(2) show ?thesis by simp
    qed
    with rows_sound_replace [OF sound'] fetched(3) turn(2) show ?thesis by (simp add: keeps_identity_refl)
  next
    case (refused j k e)
    have "writes (same_job i b) i p'" if "\<And>j. stored rows d i = Some j \<Longrightarrow> identity j = b" for b
      using rows_sound_task [OF sound' that] refused by simp
    with rows_sound_replace [OF sound'] refused(3) turn(2) show ?thesis by (simp add: keeps_identity_refl)
  next
    case (written j k)
    from rows_sound_write [OF sound' [unfolded written(1)], of "Inr ()"] obtain old where
      "stored rows d i = Some old" "identity j = identity old" "has_history i j"
      "rows_sound ((stored rows d)(i \<mapsto> j)) (xs @ (i, k (Inr ())) # ys)" by blast
    moreover from has_historyD [OF this(3)] have "j_id j = i" by blast
    ultimately show ?thesis using written turn(2) by (simp add: keeps_identity_def)
  next
    case passed
    have "writes (same_job i b) i p'" if "\<And>j. stored rows d i = Some j \<Longrightarrow> identity j = b" for b
      using answered_writes [OF passed(1) rows_sound_task [OF sound' that]] .
    with rows_sound_replace [OF sound'] passed(2) turn(2) show ?thesis by (simp add: keeps_identity_refl)
  qed
next
  case (crash xs i p ys)
  with sound show ?thesis by (auto simp: rows_sound_def keeps_identity_refl)
next
  case (delivery m n w)
  with sound show ?thesis using same.route_writes by (auto simp: rows_sound_def keeps_identity_refl)
next
  case (submission ty payload i c u r)
  have add: "case r of Inl e \<Rightarrow> stored rows d' = stored rows d
      | Inr u' \<Rightarrow> stored rows d i = None \<and> stored rows d' = (stored rows d)(i \<mapsto> job_new ty payload i c u)"
    using job_repository.add_law [OF sql_job_repository [OF sess] submission(2)] by (auto simp: job_new_def split: sum.splits)
  show ?thesis
  proof (cases r)
    case (Inl e)
    with add sound submission(1) show ?thesis by (simp add: keeps_identity_refl)
  next
    case (Inr u')
    with add have new: "stored rows d i = None" "stored rows d' = (stored rows d)(i \<mapsto> job_new ty payload i c u)" by auto
    have "(k, p) \<in> set ts \<Longrightarrow> k \<noteq> i" for k p using submission(3) by force
    then show ?thesis
      using sound new submission(1) new_has_history by (auto simp: rows_sound_def keeps_identity_def)
  qed
next
  case elsewhere
  with sound show ?thesis by (simp add: keeps_identity_refl)
qed


subsection \<open>One delivery of a job at a time\<close>

text \<open>A task that reads what the row holds, \<open>row\<close>, and writes what a transition makes of it.\<close>

primrec tracks :: "uuid \<Rightarrow> inference_job option \<Rightarrow> coroutine \<Rightarrow> bool" where
  "tracks i row (Finished r) = True"
| "tracks i row (Fetch i' k) = (i' = i \<and> tracks i row (k (Inr row)) \<and> (\<forall>e. tracks i row (k (Inl e))))"
| "tracks i row (Put j k) =
     ((\<exists>j0 op. row = Some j0 \<and> apply_op op j0 = Inr j) \<and> tracks i (Some j) (k (Inr ())) \<and> (\<forall>e. tracks i row (k (Inl e))))"
| "tracks i row (Clock k) = (\<forall>t. tracks i row (k t))"
| "tracks i row (Timer k) = (\<forall>t. tracks i row (k t))"
| "tracks i row (Pipe j k) = (\<forall>r. tracks i row (k r))"
| "tracks i row (Command a k) = (\<forall>r. tracks i row (k r))"

lemma idle_tracks: "idle p \<Longrightarrow> tracks i row p"
  by (induction p) (auto simp: range_eqI)

lemma answered_tracks: "answered p p' \<Longrightarrow> tracks i row p \<Longrightarrow> tracks i row p'"
  by (induction rule: answered.induct) auto

lemma tracks_rules:
  "tracks i row (k (Inr row)) \<Longrightarrow> (\<And>e. tracks i row (k (Inl e))) \<Longrightarrow> tracks i row (Fetch i k)"
  "row = Some j0 \<Longrightarrow> apply_op op j0 = Inr j \<Longrightarrow> tracks i (Some j) (k' (Inr ())) \<Longrightarrow> (\<And>e. tracks i row (k' (Inl e))) \<Longrightarrow>
     tracks i row (Put j k')"
  "(\<And>t. tracks i row (kc t)) \<Longrightarrow> tracks i row (Clock kc)"
  "(\<And>t. tracks i row (kt t)) \<Longrightarrow> tracks i row (Timer kt)"
  "(\<And>r. tracks i row (kp r)) \<Longrightarrow> tracks i row (Pipe j kp)"
  "(\<And>r. tracks i row (k' r)) \<Longrightarrow> tracks i row (Command a k')"
  by auto

lemma tracks_sum:
  "(\<And>e. r = Inl e \<Longrightarrow> tracks i row (f e)) \<Longrightarrow> (\<And>x. r = Inr x \<Longrightarrow> tracks i row (g x)) \<Longrightarrow>
     tracks i row (case r of Inl e \<Rightarrow> f e | Inr x \<Rightarrow> g x)"
  by (simp split: sum.split)

lemma tracks_then: "(\<And>u. tracks i row (k u)) \<Longrightarrow> tracks i row (then_task k r)"
  by (simp add: then_task_def split: sum.split)

text \<open>What follows a task's last access may find any row.\<close>

lemma transition_tracks:
  assumes "\<And>t j. \<exists>op. tr t j = apply_op op j" and "\<And>row r. tracks i row (k r)"
  shows "tracks i row (transition_task tr i k)"
proof -
  have "tracks i (Some j) (case tr t j of Inl e \<Rightarrow> k (Inl e) | Inr j' \<Rightarrow> Put j' k)" for t j
  proof (rule tracks_sum)
    fix j' assume "tr t j = Inr j'"
    with assms(1) [of t j] obtain op where "apply_op op j = Inr j'" by metis
    then show "tracks i (Some j) (Put j' k)" by (rule tracks_rules(2) [OF refl]) (rule assms)+
  qed (rule assms(2))
  then show ?thesis
    unfolding transition_task_def by (cases row) (auto simp: assms(2) intro!: tracks_rules)
qed

lemma process_tracks:
  assumes "\<And>row r. tracks i row (k r)"
  shows "tracks i row (process_task i k)"
proof (cases row)
  case None
  then show ?thesis unfolding process_task_def by (auto simp: assms intro!: tracks_rules)
next
  case (Some job)
  have finish: "tracks i (Some j1) (case mark_success ref dur now j1 of Inl e \<Rightarrow> k (Inl e) | Inr j2 \<Rightarrow> Put j2 k)" for ref dur now j1
  proof (rule tracks_sum)
    fix j2 assume "mark_success ref dur now j1 = Inr j2"
    then have "apply_op (MarkSuccess ref dur now) j1 = Inr j2" by simp
    then show "tracks i (Some j1) (Put j2 k)" by (rule tracks_rules(2) [OF refl]) (rule assms)+
  qed (rule assms)
  have start: "tracks i (Some job) (case mark_running now job of Inl e \<Rightarrow> k (Inl e) | Inr j1 \<Rightarrow> Put j1 (g j1))"
    if "\<And>j1. tracks i (Some j1) (g j1 (Inr ()))" "\<And>j1 e. tracks i (Some job) (g j1 (Inl e))" for now g
  proof (rule tracks_sum)
    fix j1 assume "mark_running now job = Inr j1"
    then have "apply_op (MarkRunning now) job = Inr j1" by simp
    then show "tracks i (Some job) (Put j1 (g j1))" by (rule tracks_rules(2) [OF refl]) (rule that)+
  qed (rule assms)
  have rest: "tracks i (Some j1) (Timer (\<lambda>started. Pipe j1 (\<lambda>r. case r of
      Inl e \<Rightarrow> k (Inl e)
    | Inr ref \<Rightarrow> Timer (\<lambda>ended. Clock (\<lambda>now.
        case mark_success ref (Some (elapsed_ms started ended)) now j1 of Inl e \<Rightarrow> k (Inl e) | Inr j2 \<Rightarrow> Put j2 k)))))" for j1
    by (intro tracks_rules(4,5) tracks_sum assms) (intro tracks_rules(3,4) finish)
  have "tracks i (Some job) (Clock (\<lambda>now. case mark_running now job of
      Inl e \<Rightarrow> k (Inl e)
    | Inr j1 \<Rightarrow> Put j1 (\<lambda>r. case r of
        Inl e \<Rightarrow> k (Inl e)
      | Inr u \<Rightarrow> Timer (\<lambda>started. Pipe j1 (\<lambda>r. case r of
          Inl e \<Rightarrow> k (Inl e)
        | Inr ref \<Rightarrow> Timer (\<lambda>ended. Clock (\<lambda>now.
            case mark_success ref (Some (elapsed_ms started ended)) now j1 of Inl e \<Rightarrow> k (Inl e) | Inr j2 \<Rightarrow> Put j2 k)))))))"
    by (intro tracks_rules(3) start) (simp_all only: sum.case rest assms)
  then show ?thesis
    unfolding process_task_def Some by (intro tracks_rules(1)) (simp_all only: sum.case option.case assms simp_thms split: if_split)
qed

lemma dead_tracks: "tracks (m_job_id m) row (dead_task w m reason error)"
proof -
  have "\<exists>op. mark_failed error None t j = apply_op op j" for t j by (rule exI [of _ "MarkFailed error None t"]) simp
  then show ?thesis
    unfolding dead_task_def by (intro tracks_rules(6) tracks_then transition_tracks) simp_all
qed

lemma failure_tracks: "tracks (m_job_id m) row (failure_task n w m exc)"
proof -
  have "\<exists>op. requeue t j = apply_op op j" for t j by (rule exI [of _ "Requeue t"]) simp
  then have "tracks (m_job_id m) row (transition_task requeue (m_job_id m) (then_task (\<lambda>u.
           Command (Republish (next_attempt m)) (then_task (\<lambda>u. Command (Ack w) Finished)))))"
    by (intro transition_tracks tracks_rules(6) tracks_then) simp_all
  then show ?thesis by (simp add: failure_task_def dead_tracks)
qed

lemma route_tracks: "tracks (m_job_id m) row (route_task n w m)"
proof -
  have "tracks (m_job_id m) row (process_task (m_job_id m) (\<lambda>r. case r of
      Inl exc \<Rightarrow> failure_task n w m exc | Inr u \<Rightarrow> Command (Ack w) Finished))" for row
    by (intro process_tracks tracks_sum failure_tracks) simp
  then show ?thesis unfolding route_task_def by (intro tracks_rules(1)) simp_all
qed


text \<open>The invariant: every task tracks its row, and of the tasks about one job at most one may still access the row.\<close>

definition busy :: "uuid \<Rightarrow> tasks \<Rightarrow> nat" where
  "busy i ts = length (filter (\<lambda>(n, p). n = i \<and> \<not> idle p) ts)"

definition rows_tracked :: "(uuid \<rightharpoonup> inference_job) \<Rightarrow> tasks \<Rightarrow> bool" where
  "rows_tracked js ts \<longleftrightarrow> (\<forall>(i, p) \<in> set ts. tracks i (js i) p) \<and> (\<forall>i. busy i ts \<le> 1)"

lemma busy_simps [simp]:
  "busy i [] = 0"
  "busy i ((n, p) # ts) = (if n = i \<and> \<not> idle p then 1 else 0) + busy i ts"
  "busy i (xs @ ys) = busy i xs + busy i ys"
  by (simp_all add: busy_def)

lemma busy_0: "busy i ts = 0 \<longleftrightarrow> (\<forall>p. (i, p) \<in> set ts \<longrightarrow> idle p)"
  by (auto simp: busy_def filter_empty_conv)

lemma rows_trackedI:
  "(\<And>i p. (i, p) \<in> set ts \<Longrightarrow> tracks i (js i) p) \<Longrightarrow> (\<And>i. busy i ts \<le> 1) \<Longrightarrow> rows_tracked js ts"
  by (auto simp: rows_tracked_def)

lemma rows_trackedD:
  assumes "rows_tracked js ts"
  shows "(i, p) \<in> set ts \<Longrightarrow> tracks i (js i) p" and "busy i ts \<le> 1"
  using assms by (auto simp: rows_tracked_def)

lemma tracked_replace:
  assumes "rows_tracked js (xs @ (i, p) # ys)" and "tracks i (js i) p'" and "idle p \<Longrightarrow> idle p'"
  shows "rows_tracked js (xs @ (i, p') # ys)"
proof (rule rows_trackedI)
  show "busy n (xs @ (i, p') # ys) \<le> 1" for n
    using rows_trackedD(2) [OF assms(1), of n] assms(3) by (cases "i = n"; cases "idle p") auto
  show "tracks n (js n) q" if "(n, q) \<in> set (xs @ (i, p') # ys)" for n q
    using that rows_trackedD(1) [OF assms(1), of n q] assms(2) by auto
qed

lemma tracked_write:
  assumes tracked: "rows_tracked js (xs @ (i, Put j k) # ys)"
  shows "moves js (js(i \<mapsto> j)) \<and> rows_tracked (js(i \<mapsto> j)) (xs @ (i, k (Inr ())) # ys)"
proof -
  have put: "tracks i (js i) (Put j k)" using rows_trackedD(1) [OF tracked, of i "Put j k"] by simp
  then obtain j0 op where op: "js i = Some j0" "apply_op op j0 = Inr j" and next': "tracks i (Some j) (k (Inr ()))" by auto
  have "busy i xs = 0" "busy i ys = 0" using rows_trackedD(2) [OF tracked, of i] by simp_all
  then have others: "n \<noteq> i \<or> idle p" if "(n, p) \<in> set xs \<union> set ys" for n p using that by (auto simp: busy_0)
  have "rows_tracked (js(i \<mapsto> j)) (xs @ (i, k (Inr ())) # ys)"
  proof (rule rows_trackedI)
    show "busy n (xs @ (i, k (Inr ())) # ys) \<le> 1" for n
      using rows_trackedD(2) [OF tracked, of n] by (simp split: if_splits)
    fix n p assume "(n, p) \<in> set (xs @ (i, k (Inr ())) # ys)"
    then consider "n = i" "p = k (Inr ())" | "(n, p) \<in> set xs \<union> set ys" by auto
    then show "tracks n ((js(i \<mapsto> j)) n) p"
    proof cases
      case 2
      with others [OF this] show ?thesis
        using rows_trackedD(1) [OF tracked, of n p] idle_tracks by (cases "n = i") auto
    qed (simp add: next')
  qed
  with moves_op [of js i j0 op j] op show ?thesis by simp
qed

lemma interleaved_tracked:
  assumes sess: "sqlalchemy_session sess rows" and step: "interleaved sess rows True (d, ts) (d', ts')"
    and sound: "rows_sound (stored rows d) ts" and tracked: "rows_tracked (stored rows d) ts"
  shows "rows_tracked (stored rows d') ts' \<and> evolves (stored rows d) (stored rows d')"
  using step
proof cases
  case (turn p p' xs i ys)
  note tracked' = tracked [unfolded turn(1)]
  have p: "tracks i (stored rows d i) p" using rows_trackedD(1) [OF tracked'] by simp
  note idle = task_step_idle [OF turn(3)]
  from sess turn(3) show ?thesis
  proof (cases rule: task_stepE)
    case (fetched i' k r)
    with p have "tracks i (stored rows d i) p'" by (cases r) auto
    from tracked_replace [OF tracked' this idle] fetched(3) turn(2) show ?thesis by simp
  next
    case (refused j k e)
    with p have "tracks i (stored rows d i) p'" by simp
    from tracked_replace [OF tracked' this idle] refused(3) turn(2) show ?thesis by simp
  next
    case (written j k)
    from rows_sound_write [OF sound [unfolded turn(1) written(1)]] has_historyD have "j_id j = i" by blast
    with tracked_write [OF tracked' [unfolded written(1)]] written turn(2) show ?thesis by (simp add: moves_def)
  next
    case passed
    from tracked_replace [OF tracked' answered_tracks [OF passed(1) p] idle] passed(2) turn(2) show ?thesis by simp
  qed
next
  case (crash xs i p ys)
  have "rows_tracked (stored rows d) (xs @ ys)"
  proof (rule rows_trackedI)
    show "busy n (xs @ ys) \<le> 1" for n
      using rows_trackedD(2) [OF tracked, of n] crash by (simp split: if_splits)
  qed (use rows_trackedD(1) [OF tracked] crash in auto)
  with crash show ?thesis by simp
next
  case (delivery m n w)
  have "rows_tracked (stored rows d) ts'"
  proof (rule rows_trackedI)
    have "busy (m_job_id m) ts = 0" using delivery by (simp add: busy_0)
    then show "busy i ts' \<le> 1" for i
      using rows_trackedD(2) [OF tracked, of i] delivery(2) by (cases "m_job_id m = i") auto
  qed (use rows_trackedD(1) [OF tracked] delivery(2) route_tracks in auto)
  with delivery(1) show ?thesis by simp
next
  case (submission ty payload i c u r)
  have add: "case r of Inl e \<Rightarrow> stored rows d' = stored rows d
      | Inr u' \<Rightarrow> stored rows d i = None \<and> stored rows d' = (stored rows d)(i \<mapsto> job_new ty payload i c u)"
    using job_repository.add_law [OF sql_job_repository [OF sess] submission(2)] by (auto simp: job_new_def split: sum.splits)
  show ?thesis
  proof (cases r)
    case (Inl e)
    with add tracked submission(1) show ?thesis by simp
  next
    case (Inr u')
    with add have new: "stored rows d i = None" "stored rows d' = (stored rows d)(i \<mapsto> job_new ty payload i c u)" by auto
    have "(k, p) \<in> set ts \<Longrightarrow> k \<noteq> i" for k p using submission(3) by force
    then have "rows_tracked (stored rows d') ts'"
      using rows_trackedD [OF tracked] new submission(1) by (intro rows_trackedI) auto
    with insert_history [OF new] show ?thesis by blast
  qed
next
  case elsewhere
  with tracked show ?thesis by simp
qed


subsection \<open>A task alone takes its turns one after the other\<close>

lemma outcome_run: "bindE (on_snd (on_fst (outcome m))) f w = f (fst (m (fst (snd w)))) (fst w, (snd (m (fst (snd w))), snd (snd w)))"
  by (simp add: io_defs split: prod.splits)

lemma answered_first:
  assumes "answered p p'" and "(interleaved sess rows exclusive)\<^sup>*\<^sup>* (d, xs @ (i, p') # ys) z"
  shows "(interleaved sess rows exclusive)\<^sup>*\<^sup>* (d, xs @ (i, p) # ys) z"
  using interleaved.turn [OF task_step.passed [OF assms(1)]] assms(2) by (rule converse_rtranclp_into_rtranclp)

lemma perform_turns:
  assumes "co_repo c = sql_repository sess" and "perform c ext p (q, (d, x)) = (r, (q', (d', x')))"
  shows "(interleaved sess rows exclusive)\<^sup>*\<^sup>* (d, xs @ (i, p) # ys) (d', xs @ (i, Finished r) # ys)"
  using assms(2)
proof (induction p arbitrary: q d x)
  case (Finished r0)
  then show ?case by (simp add: liftE_def)
next
  case (Fetch n k)
  let ?r = "fst (get_or_none (sql_repository sess) n d)" and ?d = "snd (get_or_none (sql_repository sess) n d)"
  have "interleaved sess rows exclusive (d, xs @ (i, Fetch n k) # ys) (?d, xs @ (i, k ?r) # ys)"
    by (intro interleaved.turn task_step.fetched) simp
  moreover have "perform c ext (k ?r) (q, (?d, x)) = (r, (q', (d', x')))"
    using Fetch.prems by (simp add: outcome_run assms(1))
  from Fetch.IH [OF _ this] have "(interleaved sess rows exclusive)\<^sup>*\<^sup>* (?d, xs @ (i, k ?r) # ys) (d', xs @ (i, Finished r) # ys)"
    by simp
  ultimately show ?case by (rule converse_rtranclp_into_rtranclp)
next
  case (Put j k)
  let ?r = "fst (rp_update (sql_repository sess) j d)" and ?d = "snd (rp_update (sql_repository sess) j d)"
  have "interleaved sess rows exclusive (d, xs @ (i, Put j k) # ys) (?d, xs @ (i, k ?r) # ys)"
    by (intro interleaved.turn task_step.written) simp
  moreover have "perform c ext (k ?r) (q, (?d, x)) = (r, (q', (d', x')))"
    using Put.prems by (simp add: outcome_run assms(1))
  from Put.IH [OF _ this] have "(interleaved sess rows exclusive)\<^sup>*\<^sup>* (?d, xs @ (i, k ?r) # ys) (d', xs @ (i, Finished r) # ys)"
    by simp
  ultimately show ?case by (rule converse_rtranclp_into_rtranclp)
next
  case (Clock k)
  then obtain t x1 where "perform c ext (k t) (q, (d, x1)) = (r, (q', (d', x')))" by (auto simp: io_defs)
  from answered_first [OF _ Clock.IH [OF rangeI this]] show ?case using answered.clock by blast
next
  case (Timer k)
  then obtain t x1 where "perform c ext (k t) (q, (d, x1)) = (r, (q', (d', x')))" by (auto simp: io_defs)
  from answered_first [OF _ Timer.IH [OF rangeI this]] show ?case using answered.timer by blast
next
  case (Pipe j k)
  then obtain a x1 where "perform c ext (k a) (q, (d, x1)) = (r, (q', (d', x')))" by (auto simp: io_defs split: prod.splits)
  from answered_first [OF _ Pipe.IH [OF rangeI this]] show ?case using answered.pipe by blast
next
  case (Command a k)
  then obtain b q1 where "perform c ext (k b) (q1, (d, x)) = (r, (q', (d', x')))" by (auto simp: io_defs split: prod.splits)
  from answered_first [OF _ Command.IH [OF rangeI this]] show ?case using answered.command by blast
qed

lemma built_route_task:
  "perform (build_consumer R sess bs ext name) ext (route_task (bs_max_attempts bs) i m) = route (build_consumer R sess bs ext name) i m"
  using perform_route_task [of "build_consumer R sess bs ext name" ext i m] by simp

lemma interleaved_runs:
  assumes sess: "sqlalchemy_session sess rows" and run: "(interleaved sess rows exclusive)\<^sup>*\<^sup>* s s'"
    and sound: "rows_sound (stored rows (fst s)) (snd s)"
  shows "rows_sound (stored rows (fst s')) (snd s') \<and> keeps_identity (stored rows (fst s)) (stored rows (fst s'))"
  using run
proof (induction rule: rtranclp_induct)
  case base
  then show ?case using sound by (simp add: keeps_identity_refl)
next
  case (step t u)
  from interleaved_sound [OF sess, of exclusive "fst t" "snd t" "fst u" "snd u"] step show ?case
    by (auto intro: keeps_identity_trans)
qed

lemma exclusive_runs:
  assumes sess: "sqlalchemy_session sess rows" and run: "(interleaved sess rows True)\<^sup>*\<^sup>* s s'"
    and sound: "rows_sound (stored rows (fst s)) (snd s)" and tracked: "rows_tracked (stored rows (fst s)) (snd s)"
  shows "rows_tracked (stored rows (fst s')) (snd s') \<and> evolves (stored rows (fst s)) (stored rows (fst s'))"
  using run
proof (induction rule: rtranclp_induct)
  case base
  then show ?case using tracked by simp
next
  case (step t u)
  have "rows_sound (stored rows (fst t)) (snd t)" using interleaved_runs [OF sess step(1) sound] by blast
  with interleaved_tracked [OF sess, of "fst t" "snd t" "fst u" "snd u"] step show ?case
    by (auto intro: evolves_trans)
qed

lemma nothing_yet: "stored rows d = Map.empty \<Longrightarrow> rows_sound (stored rows d) [] \<and> rows_tracked (stored rows d) []"
  by (simp add: rows_sound_def rows_tracked_def)

text \<open>A submission to the empty table and the delivery of its pointer, for the witnesses.\<close>

abbreviation table_interleaved :: "bool \<Rightarrow> jobs_db \<times> tasks \<Rightarrow> jobs_db \<times> tasks \<Rightarrow> bool" where
  "table_interleaved \<equiv> interleaved table_session (\<lambda>d. db_lookup (db_rows d))"

lemma sample_start: "(table_interleaved exclusive)\<^sup>*\<^sup>* (empty_db, []) (one_job RAG_QUERY PENDING, [])"
proof -
  have "one_job RAG_QUERY PENDING = \<lparr>db_rows = [to_row (job_new RAG_QUERY [] 1 0 0)], db_faults = []\<rparr>"
    by (simp add: one_job_def to_row_def job_new_def)
  moreover have "row_fits (to_row (job_new RAG_QUERY [] 1 0 0))" by (simp add: row_fits_to_row fits_def int4_def job_new_def)
  ultimately have "rp_add pg_repo (job_new RAG_QUERY [] 1 0 0) empty_db = (Inr (), one_job RAG_QUERY PENDING)"
    by (simp add: repo_add_def transaction_def table_defs bindE_def ret_def db_lookup_def empty_db_def)
  from interleaved.submission [OF this] show ?thesis by auto
qed


lemma sample_delivery:
  "\<exists>d j r. (table_interleaved exclusive)\<^sup>*\<^sup>* (one_job RAG_QUERY PENDING, []) (d, [(1, Finished r)]) \<and>
     table_jobs d 1 = Some j \<and> j_status j = SUCCESS"
proof -
  let ?c = "build_consumer mem_client table_session default_broker tick_world ''w1''"
  let ?d = "one_job RAG_QUERY PENDING"
  obtain d j where run: "processor_call pg_repo tick_world first_pointer (?d, 0) = (Inr (), (d, 4))"
    and j: "table_jobs d 1 = Some j" "j_status j = SUCCESS" using sample_success by blast
  have m: "m_job_id first_pointer = 1" by (simp add: first_pointer_def)
  have "already_terminal ?c first_pointer ?d = (Inr False, ?d)"
    by (rule guard_unsettled [OF one_job_row(2)]) (auto simp: m one_job_row is_terminal_iff)
  with run have "route ?c (WBytes ''1-0'') first_pointer (mem_start, (?d, 0)) = on_fst (ack ?c (WBytes ''1-0'')) (mem_start, (d, 4))"
    by (simp add: route_def bindE_def tryElse_def on_snd_run on_fst_run)
  then obtain r q where "route ?c (WBytes ''1-0'') first_pointer (mem_start, (?d, 0)) = (r, (q, (d, 4)))"
    by (cases "ack ?c (WBytes ''1-0'') mem_start") (auto simp: on_fst_run)
  from perform_turns [where xs = "[]" and ys = "[]" and i = 1 and rows = "\<lambda>d. db_lookup (db_rows d)" and exclusive = exclusive, OF _
      trans [OF fun_cong [OF built_route_task] this]]
  have "(table_interleaved exclusive)\<^sup>*\<^sup>* (?d, [(1, route_task (bs_max_attempts default_broker) (WBytes ''1-0'') first_pointer)])
      (d, [(1, Finished r)])" by simp
  moreover have "table_interleaved exclusive (?d, []) (?d, [(1, route_task (bs_max_attempts default_broker) (WBytes ''1-0'') first_pointer)])"
    using interleaved.delivery [where m = first_pointer and ts = "[]" and exclusive = exclusive] by (simp add: m)
  ultimately show ?thesis using j by (blast intro: converse_rtranclp_into_rtranclp)
qed

subsection \<open>Properties\<close>





text \<open>
  C11. One delivery of a job at a time is enough.  When a delivery begins only if no other task may still access the row of
  its job (the previous one has finished, has died, or has only commands to Redis left), then however the tasks of
  different jobs interleave, every row lives through the entity's transitions from what it was, and a terminal row is
  final: the guarantees of \<open>Lifecycle\<close> hold for the tasks of one worker, and of many.
\<close>

theorem exclusive_deliveries_linear:
  assumes "sqlalchemy_session sess rows" and "stored rows d0 = Map.empty"
    and "(interleaved sess rows True)\<^sup>*\<^sup>* (d0, []) (d, ts)" and "(interleaved sess rows True)\<^sup>*\<^sup>* (d, ts) (d', ts')"
    and "stored rows d i = Some j"
  shows "(\<exists>ops. stored rows d' i = Some (run_ops ops j)) \<and> (is_terminal j \<longrightarrow> stored rows d' i = Some j)"
proof -
  note start = nothing_yet [OF assms(2)]
  have "rows_sound (stored rows d) ts" "rows_tracked (stored rows d) ts"
    using interleaved_runs [OF assms(1,3)] exclusive_runs [OF assms(1,3)] start by simp_all
  with exclusive_runs [OF assms(1,4)] have "evolves (stored rows d) (stored rows d')" by simp
  from evolvesD [OF this assms(5)] run_ops_terminal [of j] show ?thesis by auto
qed

text \<open>After the delivery above, any further deliveries leave the row as it is.\<close>

theorem exclusive_deliveries_linear_witness:
  "\<exists>d ts j d' ts'. (table_interleaved True)\<^sup>*\<^sup>* (one_job RAG_QUERY PENDING, []) (d, ts) \<and> table_jobs d 1 = Some j \<and> j_status j = SUCCESS \<and>
     (table_interleaved True)\<^sup>*\<^sup>* (d, ts) (d', ts') \<and> length ts < length ts' \<and> table_jobs d' 1 = Some j"
proof -
  obtain d j r where run: "(table_interleaved True)\<^sup>*\<^sup>* (one_job RAG_QUERY PENDING, []) (d, [(1, Finished r)])"
    and j: "table_jobs d 1 = Some j" "j_status j = SUCCESS" using sample_delivery by blast
  let ?c = "build_consumer mem_client table_session default_broker tick_world ''w1''"
  obtain r' q d' x where again: "route ?c (WBytes ''2-0'') first_pointer (mem_start, (d, 0)) = (r', (q, (d', x)))"
    by (cases "route ?c (WBytes ''2-0'') first_pointer (mem_start, (d, 0))") auto
  have empty: "stored (\<lambda>d. db_lookup (db_rows d)) empty_db = Map.empty"
    by (simp add: empty_db_def table_jobs_def jobs_of_def db_lookup_def fun_eq_iff)
  have m: "m_job_id first_pointer = 1" by (simp add: first_pointer_def)
  have "(table_interleaved True)\<^sup>*\<^sup>* (d, [] @ (1, Finished r) # []) (d', [] @ (1, Finished r') # [(1, Finished r)])"
  proof -
    have "table_interleaved True (d, [(1, Finished r)])
        (d, (1, route_task (bs_max_attempts default_broker) (WBytes ''2-0'') first_pointer) # [(1, Finished r)])"
      using interleaved.delivery [where m = first_pointer and ts = "[(1, Finished r)]" and exclusive = True] by (simp add: m)
    moreover have "(table_interleaved True)\<^sup>*\<^sup>*
        (d, [] @ (1, route_task (bs_max_attempts default_broker) (WBytes ''2-0'') first_pointer) # [(1, Finished r)])
        (d', [] @ (1, Finished r') # [(1, Finished r)])"
      by (rule perform_turns [OF _ trans [OF fun_cong [OF built_route_task] again]]) simp
    ultimately show ?thesis by (auto intro: converse_rtranclp_into_rtranclp)
  qed
  then have more: "(table_interleaved True)\<^sup>*\<^sup>* (d, [(1, Finished r)]) (d', [(1, Finished r'), (1, Finished r)])" by simp
  from exclusive_deliveries_linear [OF pg.sqlalchemy_session_axioms empty rtranclp_trans [OF sample_start run] more, of 1 j] j
  have "table_jobs d' 1 = Some j" by (simp add: is_terminal_iff)
  with run j more show ?thesis
    by (intro exI [of _ d] exI [of _ "[(1, Finished r)]"] exI [of _ j] exI [of _ d'] exI [of _ "[(1, Finished r'), (1, Finished r)]"]) simp
qed

end
