(* ===== verification/Spec2Isabelle.thy ===== *)
theory Spec2Isabelle
  imports Chunking Draining Trimming ObjectStore Pipelines Requests Startup Interleaving
begin

text \<open>
  A model of the asynchronous inference service under \<open>src/src/app\<close>, of its migrations under \<open>src/migrations\<close> and of
  the environment that \<open>src/docker-compose.yml\<close> runs it in, and what makes it correct.

  \<^bold>\<open>The program.\<close>  A client posts a job to the API (\<open>api/\<close>), which stores a \<open>PENDING\<close> row and publishes a pointer to
  it in a Redis stream (\<open>services/ingestion.py\<close>, \<open>adapters/broker/producer.py\<close>).  Workers read the stream as one consumer group
  (\<open>adapters/broker/consumer.py\<close>): each delivery is processed (\<open>services/processor.py\<close> runs a pipeline of \<open>services/pipelines.py\<close>
  over the providers and the object store) and then acknowledged, retried or dead-lettered.  PostgreSQL is the source of
  truth (\<open>adapters/persistence/\<close>); the entity of \<open>domain/models.py\<close> is its state machine.  Both processes are put together by
  \<open>container.py\<close>.

  \<^bold>\<open>How it is modelled.\<close>  An operation is a function from a state to a result, which is an exception or a value, and the
  next state (\<open>Prelude\<close>); the state stays changed when an exception is raised.  The world of a process is the triple of
  what Redis holds, what the database holds and the rest.  Python values, strings, UTF-8, \<open>int()\<close> and \<open>uuid.UUID\<close> are
  \<open>PyVal\<close> and \<open>Uuid\<close>; clock readings, fresh ids and random suffixes are arguments.  What is not under \<open>src/\<close> is a parameter, with
  the documented behaviour that the code relies on as a law: redis-py (locale \<open>redis_client\<close>; \<open>group_view\<close> for what a group can
  deliver), SQLAlchemy sessions (\<open>sqlalchemy_session\<close>; \<open>services_up\<close> for servers that answer), tenacity (\<open>tenacity_laws\<close>),
  boto3 (\<open>s3_laws\<close>), the SDK clients and the constructors of the platform (\<open>resource_platform\<close>).  Every law has an instance the
  witnesses run on: an in-memory Redis, the jobs table with its constraints, an attempt loop, in-memory buckets, and
  a platform that counts its handles.

  \<^bold>\<open>The theories, and the files they model.\<close>
  \<^item> \<open>Exceptions\<close>, \<open>Jobs\<close>, \<open>Chunking\<close>: \<open>domain/exceptions.py\<close>, \<open>domain/models.py\<close>, \<open>domain/chunking.py\<close>.  The entity's invariant,
    that a terminal job is final, and the count of its attempts; the chunks' layout, and that they reassemble.
  \<^item> \<open>Settings\<close>, \<open>SettingsLoad\<close>, \<open>Logging\<close>: \<open>core/config.py\<close> with its two validators, the settings as they are read from the
    environment and \<open>.env\<close>, \<open>core/logging.py\<close>.  Settings that load are valid, and which variables count.
  \<^item> \<open>Retry\<close>, \<open>SdkErrors\<close>: \<open>core/retry.py\<close>, \<open>core/concurrency.py\<close>, the adapters' \<open>_call\<close>; the five error classifiers.  Bounds on
    the attempts; what leaves an adapter is classified; exactly which errors are retried.
  \<^item> \<open>Messages\<close>, \<open>Redis\<close>, \<open>Producer\<close>: \<open>broker/keys.py\<close>, \<open>broker/messages.py\<close>, \<open>broker/producer.py\<close> over the Redis interface.
  \<^item> \<open>Repository\<close>: \<open>persistence/tables.py\<close> and \<open>persistence/repository.py\<close>; a refinement of the abstract store, the map from ids to
    jobs (locale \<open>job_repository\<close>, which the clients use).
  \<^item> \<open>Schema\<close>, \<open>IniConfig\<close>, \<open>Migration\<close>: the columns of \<open>tables.py\<close> and of the migration as data, and which rows they accept;
    the part of \<open>configparser\<close> that Alembic keeps the URL in; \<open>migrations/versions/0001_create_jobs_table.py\<close> over the
    operations of Alembic (locale \<open>alembic_op\<close>) and \<open>migrations/env.py\<close> over an engine (locale \<open>migration_engine\<close>).  The migrated table
    against the model of the store and against the declared one; upgrade and downgrade; all or nothing.
  \<^item> \<open>Processor\<close>, \<open>Ingestion\<close>, \<open>Pipelines\<close>: the three files of \<open>services/\<close>.
  \<^item> \<open>Routing\<close>, \<open>Consumer\<close>, \<open>WorkerLoop\<close>: \<open>broker/consumer.py\<close>, what one message goes through, one pass, and the loop around it: no
    acknowledgement without a settled job, a published retry or a dead-letter entry; backpressure and reclaim under every
    interleaving; when the loop ends, and that a consumer with no capacity left never does.
  \<^item> \<open>Delivery\<close>, \<open>Trimming\<close>: what a group can deliver, whatever commands reach Redis: nothing that was published before it existed,
    and of a backlog at most what \<open>MAXLEN\<close> keeps.
  \<^item> \<open>Lifecycle\<close>, \<open>Settling\<close>, \<open>Draining\<close>: the whole system as step relations.  The rows of the store live through the entity's
    transitions only, through any run; a pending job settles when the services answer; a worker's drain finishes its tasks.
  \<^item> \<open>Interleaving\<close>: a delivery as the sequence of its awaits, and any number of deliveries, crashes and submissions taking turns
    at each of them.  What survives every interleaving, what one delivery of a job at a time adds, and that an uninterrupted
    delivery is \<open>route\<close>.
  \<^item> \<open>Api\<close>, \<open>Requests\<close>: \<open>api/auth.py\<close>, \<open>api/routes/\<close>, the exception handlers of \<open>api/app.py\<close>; the validation of a request's
    body against \<open>api/schemas.py\<close>, and what becomes of one that the database cannot store.
  \<^item> \<open>ObjectStore\<close>, \<open>SdkAdapters\<close>, \<open>Fakes\<close>: \<open>object_store/s3.py\<close>; \<open>providers/huggingface.py\<close>, \<open>pinecone_store.py\<close>, \<open>search.py\<close>;
    \<open>providers/fake.py\<close>.
  \<^item> \<open>Container\<close>, \<open>Processes\<close>: \<open>providers/bundle.py\<close>, \<open>container.py\<close>, \<open>persistence/engine.py\<close>, the lifespan of \<open>api/app.py\<close>;
    \<open>api/dependencies.py\<close>, the routes over a container and \<open>worker/runner.py\<close>.  Which resources are held, and when they are given back.
  \<^item> \<open>Deployment\<close>, \<open>Startup\<close>: the environment of \<open>docker-compose.yml\<close> and the providers it selects; both processes from their
    environment to their end, with \<open>worker/__main__.py\<close>.
  \<^item> This theory: the job's way through both processes.

  \<^bold>\<open>Bounds.\<close>  The worker's loop runs until a signal, so \<open>passes\<close> and the worker around it take a number of passes as fuel and are
  \<open>None\<close> while it is too little; when a signal is due after at most \<open>k\<close> awaits (\<open>signal_due\<close>), \<open>k + 1\<close> passes are enough unless the
  loop gets stuck, and then no number is.  At each \<open>await\<close> of the loop an arbitrary function \<open>sw\<close> moves the state, constrained by
  \<open>others_only\<close> to finishing tasks and changing the world, and the theorems hold for all of them.  Within \<open>Consumer\<close> and \<open>Lifecycle\<close>
  a task runs \<open>route\<close> as one step; \<open>Interleaving\<close> cuts it at every await, and \<open>concurrent_start_reverts_success\<close> of \<open>Lifecycle\<close> shows
  what is lost when two tasks hold the same job.  \<open>Settling\<close> takes a list of deliveries; one more than the attempts that
  are left is enough.  Every other function is total.

  \<^bold>\<open>Simplifications.\<close>  Elapsed time is exact rational arithmetic; floating-point operations of the fakes are parameters (\<open>float_ops\<close>),
  as is the digest; only the bits of a \<open>float32\<close> are read out.  Metadata values other than strings, integers, booleans and
  \<open>None\<close> are printed by a parameter.  A \<open>finally\<close> clause cannot itself raise.

  The model of the store accepts a NUL character in a text, which PostgreSQL does not (\<open>row_nul_free\<close> in \<open>Schema\<close> is
  the difference, \<open>Requests\<close> what follows from it).  A settings variable is a field or a field of a group, nothing below
  it; a floating-point setting is a rational number.  The members of the enumerations are instances of the library's class
  \<open>enum\<close>.

  \<^bold>\<open>Not modelled.\<close>  Log calls (no effect on the modelled state); FastAPI and Starlette, hence the dispatch of requests to
  routes; pydantic's conversions of numbers and its JSON parser (parameters of \<open>SettingsLoad\<close>); cancellation and
  \<open>KeyboardInterrupt\<close>, which are no \<open>Exception\<close>; the timing of threads and of retries; the port Protocols have no bodies and appear as
  types of operations and as locales; the SQL text that Alembic emits offline (its operations are); the other services of the
  compose file.
\<close>

section \<open>A job from the submission to its result\<close>

lemma wpE_returns: "wpE m Q (\<lambda>e s'. False) s \<Longrightarrow> \<exists>x s'. m s = (Inr x, s') \<and> Q x s'"
  by (cases "m s") (auto simp: wpE_def split: sum.splits)

text \<open>The pipeline of a worker without provider secrets always returns the reference of the artifact it wrote.\<close>

lemma fake_worker_pipeline:
  assumes "create P s w = (Inr c, w')" and "tenacity_laws (pf_run P)"
    and "st_huggingface_token s = None" and "st_pinecone_api_key s = None" and "\<not> ps_enable_web_search (st_providers s)"
    and "\<forall>b k data t x. \<exists>x'. put_object (so_client (ct_object_store c)) b k data t x = (Inr (), x')"
    and "j_type job = RAG_QUERY" and "payload_ok RAG_QUERY (j_payload job)"
    and "run_pipeline (worker_externals P c) job x = (r, y)"
  shows "r = Inr (''s3://'' @ os_bucket (st_object_store s) @ ''/'' @ result_key job ''.json'')"
proof -
  obtain store v where x: "x = (store, v)" by (cases x)
  obtain data store' where run: "rag_run (worker_context (pf_str P) c) job (store, v) =
      on_snd (put_bytes (ct_object_store c) (result_key job ''.json'') data ''application/json'') (store', v)"
    by (rule fake_rag_ends [OF no_secrets_fakes [OF assms(1,3-5)] assms(8)]) blast
  have "tenacity_laws (so_run (ct_object_store c))" using assms(2) by (simp add: created_wiring [OF assms(1)])
  from put_bytes_returns [OF this, of "result_key job ''.json''" data "''application/json''" v] assms(6)
  obtain v' where "put_bytes (ct_object_store c) (result_key job ''.json'') data ''application/json'' v =
      (Inr (''s3://'' @ os_bucket (st_object_store s) @ ''/'' @ result_key job ''.json''), v')"
    by (auto simp: created_wiring [OF assms(1)])
  with run x assms(7,9) show ?thesis
    by (simp add: run_pipeline_def worker_externals_def pipeline_externals_def tryE_def on_snd_def zoomE_def)
qed

text \<open>
  C1. From the request to the result.  Take an API process and a worker process that the settings could create, without provider
  secrets, over the same Redis, database and object store.  If \<open>POST /v1/jobs\<close> answers a RAG query with 202, the
  pointer is in the stream; and whatever happens then that leaves the job's row alone and the services answering,
  a delivery of that pointer to the worker returns, and \<open>GET /v1/jobs/{id}\<close> answers 200 with status \<open>success\<close>,
  one attempt, and the reference of the artifact in the bucket.
\<close>

theorem rag_job_end_to_end:
  assumes "create P s wa = (Inr api, wa')" and "create P s wb = (Inr worker, wb')"
    and "services_up (pf_redis_api P (ct_redis api)) elog (pf_sessions P (ct_engine api) False) rows up live"
    and "services_up (pf_redis_api P (ct_redis worker)) elog (pf_sessions P (ct_engine worker) False) rows up live"
    and "tenacity_laws (pf_run_publish P)" and "tenacity_laws (pf_run P)" and "retry_settings_ok (st_retry s)"
    and "st_huggingface_token s = None" and "st_pinecone_api_key s = None" and "\<not> ps_enable_web_search (st_providers s)"
    and "\<forall>b k data t x. \<exists>x'. put_object (so_client (ct_object_store worker)) b k data t x = (Inr (), x')"
    and "length (os_bucket (st_object_store s)) \<le> 400"
    and "\<forall>x y. int4 (elapsed_ms (fst (pf_monotonic P x)) (fst (pf_monotonic P y)))"
    and "k \<in> set (st_api_keys s)" and "job = job_new RAG_QUERY (model_dump (RagQueryPayload query top_k)) i t1 t2"
    and "post_job P api (Some k) (RagQueryPayload query top_k) i t1 t2 w1 = (Inr rsp, w2)" and "rsp_status rsp = 202"
    and "up q" and "live d" and "stored rows d i = stored rows (fst (snd w2)) i"
  shows "to_fields (first_delivery job) \<in> set (sent_to (bs_stream (st_broker s)) (elog (fst w2))) \<and>
    (\<exists>w' rsp' w''.
      route (worker_consumer P s worker name) entry (first_delivery job) (q, (d, (store, x))) = (Inr (), w') \<and>
      get_job_status api (Some k) i (leave w') = (Inr rsp', w'') \<and> rsp_status rsp' = 200 \<and>
      map_of (rsp_body rsp') ''status'' = Some (PStr ''success'') \<and>
      map_of (rsp_body rsp') ''attempts'' = Some (PInt 1) \<and>
      map_of (rsp_body rsp') ''result_ref'' =
        Some (PStr (''s3://'' @ os_bucket (st_object_store s) @ ''/results/rag_query/'' @ uuid_str i @ ''.json'')))"
proof -
  let ?ref = "''s3://'' @ os_bucket (st_object_store s) @ ''/'' @ result_key job ''.json''"
  note wired = created_wiring [OF assms(1)]
  have redis: "redis_client (pf_redis_api P (ct_redis api)) elog" and sess: "sqlalchemy_session (pf_sessions P (ct_engine api) False) rows"
    using assms(3) by (simp_all add: services_up_def)
  have submit: "submit_job s (Some k) (RagQueryPayload query top_k) (sql_repository (pf_sessions P (ct_engine api) False))
      (publish (producer_init (pf_redis_api P (ct_redis api)) (keys_from_settings (st_broker s)) (st_broker s)))
      (pf_run_publish P) i t1 t2 (fst (snd w1), fst w1) = (Inr rsp, (fst (snd w2), fst w2))"
    using assms(16) by (auto simp: post_job_def on_store_and_queue_def zoomE_def get_settings_def get_repository_def get_queue_def
      wired split: prod.splits)
  from submit_job_with_key [OF redis sess assms(5,7) refl assms(14) submit refl] assms(15,17)
  have row2: "stored rows (fst (snd w2)) i = Some job"
    and sent: "to_fields (first_delivery job) \<in> set (sent_to (bs_stream (st_broker s)) (elog (fst w2)))"
    by (auto simp: keys_from_settings_def)
  have job: "j_status job = PENDING" "j_type job = RAG_QUERY" "j_id job = i" "j_attempts job = 0"
    "m_job_id (first_delivery job) = i" "row_fits (to_row job)" "payload_ok RAG_QUERY (j_payload job)"
    by (simp_all add: assms(15) job_new_def first_delivery_def row_fits_to_row fits_def int4_def str_field_def int_field_def)
  have key: "result_key job' ''.json'' = result_key job ''.json''" if "j_type job' = RAG_QUERY" "j_id job' = i" for job'
    using that job by (simp add: result_key_def)
  have len: "length ?ref \<le> 512"
    using assms(12) job by (simp add: result_key_def uuid_str_def Let_def)
  have pipe: "r = Inr ?ref" if "j_type job' = j_type job" "j_id job' = j_id job" "j_payload job' = j_payload job"
    "run_pipeline (worker_externals P worker) job' v = (r, y)" for job' v r y
    using fake_worker_pipeline [OF assms(2,6,8-11), of job' v r y] that job key [of job'] by simp
  have ms: "int4 (elapsed_ms (fst (monotonic (worker_externals P worker) v)) (fst (monotonic (worker_externals P worker) v')))" for v v'
    using assms(13) by (simp add: worker_externals_def pipeline_externals_def in_process_def)
  have row: "stored rows d (m_job_id (first_delivery job)) = Some job" using assms(20) row2 job by simp
  have "int4 (j_attempts job + 1)" by (simp add: job int4_def)
  have "wpE (route (worker_consumer P s worker name) entry (first_delivery job))
    (\<lambda>u w'. up (fst w') \<and> live (fst (snd w')) \<and>
       (\<exists>j'. stored rows (fst (snd w')) (m_job_id (first_delivery job)) = Some j' \<and> j_status j' = SUCCESS \<and>
          j_result_ref j' = Some ?ref \<and> j_attempts j' = j_attempts job + 1))
    (\<lambda>e w'. False) (q, (d, (store, x)))"
    unfolding worker_consumer_built [OF assms(2)]
    by (rule services_up.wp_route_success [OF assms(4,18,19) row job(1,6) \<open>int4 (j_attempts job + 1)\<close> ms _ len]) (rule pipe)
  from wpE_returns [OF this] obtain w' j' where run: "route (worker_consumer P s worker name) entry (first_delivery job) (q, (d, (store, x))) = (Inr (), w')"
    and done': "live (fst (snd w'))" "stored rows (fst (snd w')) i = Some j'" "j_status j' = SUCCESS" "j_result_ref j' = Some ?ref"
      "j_attempts j' = 1"
    by (auto simp: job)
  obtain d' where get: "repo_get (pf_sessions P (ct_engine api) False) i (fst (snd w')) = (Inr j', d')"
    by (rule services_up.get_up [OF assms(3) done'(1,2)]) blast
  have "get_job_status api (Some k) i (leave w') = (Inr (job_status_response j'), (fst w', (d', snd (snd (snd w')))))"
    using get assms(14) by (simp add: get_job_status_def get_job_def require_api_key_iff get_settings_def get_repository_def wired
      on_snd_def on_fst_def zoomE_def leave_def handled_by_def tryE_def bindE_def ret_def)
  with run sent show ?thesis
    by (intro conjI exI) (auto simp: job_status_response_def done' opt_str_def result_key_def job)
qed

text \<open>The counting platform, with one key configured: the worker handles the pointer right after the submission.\<close>

theorem rag_job_end_to_end_witness:
  "\<exists>api rsp w2 w' rsp' w''. create (counting_platform False) (default_settings\<lparr>st_api_keys := [''key'']\<rparr>) blank = (Inr api, three_held) \<and>
     post_job (counting_platform False) api (Some ''key'') (RagQueryPayload ''retry backoff'' 3) 1 0 0 three_held = (Inr rsp, w2) \<and>
     rsp_status rsp = 202 \<and>
     get_job_status api (Some ''key'') 1 w' = (Inr rsp', w'') \<and>
     map_of (rsp_body rsp') ''status'' = Some (PStr ''success'') \<and> map_of (rsp_body rsp') ''attempts'' = Some (PInt 1)"
proof -
  let ?P = "counting_platform False" and ?s = "default_settings\<lparr>st_api_keys := [''key'']\<rparr>"
  let ?payload = "RagQueryPayload ''retry backoff'' 3"
  obtain api where api: "create ?P ?s blank = (Inr api, three_held)" "ct_object_store api = \<lparr>so_client = counting_s3 False,
      so_bucket = os_bucket default_object_store, so_retry = default_retry, so_run = loop_runner, so_run_bytes = loop_runner\<rparr>"
    using sample_create [of "[''key'']"] by blast
  have s: "st_retry ?s = default_retry" "st_broker ?s = default_broker" "st_huggingface_token ?s = None"
    "st_pinecone_api_key ?s = None" "\<not> ps_enable_web_search (st_providers ?s)" "st_api_keys ?s = [''key'']"
    "length (os_bucket (st_object_store ?s)) \<le> 400"
    by (simp_all add: default_settings_def default_providers_def default_object_store_def)
  have up: "services_up (pf_redis_api ?P (ct_redis api)) mr_log (pf_sessions ?P (ct_engine api) False)
      (\<lambda>d. db_lookup (db_rows d)) (\<lambda>q. mr_faults q = []) (\<lambda>d. db_faults d = [])"
    unfolding counting_simps by (rule mem_up.services_up_axioms)
  have runners: "tenacity_laws (pf_run_publish ?P)" "tenacity_laws (pf_run ?P)" "retry_settings_ok (st_retry ?s)"
    unfolding counting_simps s by (rule loop_runner_laws loop_runner_laws default_retry_ok)+
  have put: "\<forall>b k data t x. \<exists>x'. put_object (so_client (ct_object_store api)) b k data t x = (Inr (), x')"
    by (simp add: api counting_s3_def ret_def)
  have ms: "\<forall>x y. int4 (elapsed_ms (fst (pf_monotonic ?P x)) (fst (pf_monotonic ?P y)))"
    by (simp add: counting_simps elapsed_ms_def int4_def)
  obtain d q where submitted: "submit pg_repo (publish (producer_init mem_client (keys_from_settings default_broker) default_broker))
      loop_runner default_retry RAG_QUERY (model_dump ?payload) 1 0 0 (empty_db, mem_start) = (Inr 1, (d, q))"
    "db_faults d = []" "mr_faults q = []"
    using sample_submission [of "model_dump ?payload"] by auto
  let ?w2 = "(q, (d, snd (snd three_held)))"
  have post: "post_job ?P api (Some ''key'') ?payload 1 0 0 three_held = (Inr (job_accepted 1), ?w2)"
    using submitted(1) by (simp add: post_job_def on_store_and_queue_def zoomE_def get_settings_def get_repository_def get_queue_def
      created_wiring [OF api(1)] submit_job_def require_api_key_iff handled_by_def tryE_def bindE_def ret_def counting_simps s
      three_held_def del: model_dump.simps)
  have status: "rsp_status (job_accepted 1) = 202" by (simp add: job_accepted_def)
  have row: "stored (\<lambda>d. db_lookup (db_rows d)) d 1 = stored (\<lambda>d. db_lookup (db_rows d)) (fst (snd ?w2)) 1" by simp
  have "''key'' \<in> set (st_api_keys ?s)" unfolding s by simp
  from rag_job_end_to_end [OF api(1) api(1) up up runners s(3-5) put s(7) ms this refl post status submitted(3,2) row,
      where store = "[]" and x = "(3, [])" and name = "''w''" and entry = "WBytes ''1-0''"]
  obtain w' rsp' w'' where "get_job_status api (Some ''key'') 1 (leave w') = (Inr rsp', w'')"
    "map_of (rsp_body rsp') ''status'' = Some (PStr ''success'')" "map_of (rsp_body rsp') ''attempts'' = Some (PInt 1)"
    by (elim conjE exE) (rule that, assumption+)
  with api(1) post status show ?thesis by blast
qed

end
